theory Spec2Isabelle
  imports Main "HOL-Library.Word"
begin

section \<open>JavaScript strings\<close>

text \<open>
  A JavaScript string is modelled as a \<^typ>\<open>string\<close> of ASCII code units. The case
  mappings \<open>toLowerCase\<close> and \<open>toUpperCase\<close> act on the 26 ASCII letters and
  \<open>trim\<close> removes the ASCII white space and line terminators (TAB, LF, VT, FF, CR, SP);
  on ASCII strings this is what \<open>String.prototype.toLowerCase\<close>, \<open>toUpperCase\<close> and
  \<open>trim\<close> do. Code units above 127 are outside this model: JavaScript also trims
  U+00A0 and U+FEFF, and maps letters beyond ASCII (U+00DF uppercases to \<open>SS\<close>), which
  the functions below do not. Statements about case mapping and trimming of arbitrary
  input are therefore made for strings that satisfy \<open>isAscii\<close>.
\<close>

definition upperLetters :: string where
  "upperLetters = ''ABCDEFGHIJKLMNOPQRSTUVWXYZ''"

definition lowerLetters :: string where
  "lowerLetters = ''abcdefghijklmnopqrstuvwxyz''"

definition lowerChar :: "char \<Rightarrow> char" where
  "lowerChar c = (case map_of (zip upperLetters lowerLetters) c of Some d \<Rightarrow> d | None \<Rightarrow> c)"

definition upperChar :: "char \<Rightarrow> char" where
  "upperChar c = (case map_of (zip lowerLetters upperLetters) c of Some d \<Rightarrow> d | None \<Rightarrow> c)"

definition toLowerCase :: "string \<Rightarrow> string" where
  "toLowerCase s = map lowerChar s"

definition toUpperCase :: "string \<Rightarrow> string" where
  "toUpperCase s = map upperChar s"

definition isSpace :: "char \<Rightarrow> bool" where
  "isSpace c = (c \<in> set [CHR 0x09, CHR 0x0A, CHR 0x0B, CHR 0x0C, CHR 0x0D, CHR 0x20])"

text \<open>
  The strings on which \<open>toLowerCase\<close>, \<open>toUpperCase\<close> and \<open>trim\<close> are the JavaScript
  functions: every code unit is below 128.
\<close>

definition isAscii :: "string \<Rightarrow> bool" where
  "isAscii s = list_all (\<lambda>c. of_char c < (128 :: nat)) s"

definition trim :: "string \<Rightarrow> string" where
  "trim s = rev (dropWhile isSpace (rev (dropWhile isSpace s)))"

fun startsWith :: "string \<Rightarrow> string \<Rightarrow> bool" where
  "startsWith s [] = True"
| "startsWith [] (p # ps) = False"
| "startsWith (c # cs) (p # ps) = (c = p \<and> startsWith cs ps)"

text \<open>\<open>str_includes s w\<close> is \<open>s.includes(w)\<close>: \<open>w\<close> occurs in \<open>s\<close> as a contiguous substring.\<close>

fun str_includes :: "string \<Rightarrow> string \<Rightarrow> bool" where
  "str_includes [] w = (w = [])"
| "str_includes (c # cs) w = (startsWith (c # cs) w \<or> str_includes cs w)"


text \<open>\<open>splitOn c s\<close> is \<open>s.split(c)\<close> for a one-character separator.\<close>

fun splitOn :: "char \<Rightarrow> string \<Rightarrow> string list" where
  "splitOn c [] = [[]]"
| "splitOn c (x # xs) =
     (if x = c then [] # splitOn c xs
      else (case splitOn c xs of
              [] \<Rightarrow> [[x]]
            | p # ps \<Rightarrow> (x # p) # ps))"

text \<open>\<open>normalizeEmail(email)\<close>; a missing or non-string email is the empty string.\<close>

definition normalizeEmail :: "string \<Rightarrow> string" where
  "normalizeEmail email = (if email = [] then [] else toLowerCase (trim email))"


section \<open>Plan catalog (\<open>_plans\<close>)\<close>

text \<open>
  \<open>normalizePlan(plan) = String(plan || "").trim().toLowerCase()\<close>. A missing plan is the
  empty string.
\<close>

definition normalizePlan :: "string \<Rightarrow> string" where
  "normalizePlan plan = toLowerCase (trim plan)"

definition getTierRank :: "string \<Rightarrow> nat" where
  "getTierRank tier =
     (if tier = ''business'' then 3
      else if tier = ''personal'' then 2
      else 1)"

definition getTierFromPlan :: "string \<Rightarrow> string" where
  "getTierFromPlan plan =
     (let normalized = normalizePlan plan in
      if normalized = [] then ''free''
      else if str_includes normalized ''business'' then ''business''
      else if str_includes normalized ''personal''
            \<or> normalized = ''monthly''
            \<or> normalized = ''annual''
            \<or> str_includes normalized ''referral''
      then ''personal''
      else ''free'')"

text \<open>
  The tier resolution as the specification words it: the input is lowercased (and nothing
  else) before the substring and equality tests.
\<close>

definition tierFromPlanString_spec :: "string \<Rightarrow> string" where
  "tierFromPlanString_spec plan =
     (let l = toLowerCase plan in
      if str_includes l ''business'' then ''business''
      else if str_includes l ''personal'' \<or> l = ''monthly'' \<or> l = ''annual''
            \<or> str_includes l ''referral''
      then ''personal''
      else ''free'')"


record plan_features =
  pf_tier :: string
  pf_label :: string
  pf_dailyOrderLimit :: "nat option"
  pf_weeklyOrderLimit :: "nat option"
  pf_retentionHours :: nat
  pf_seatLimit :: nat
  pf_orderEmailNotifications :: bool

definition PLAN_FEATURES_free :: plan_features where
  "PLAN_FEATURES_free =
     \<lparr>pf_tier = ''free'', pf_label = ''Free'', pf_dailyOrderLimit = Some 2,
      pf_weeklyOrderLimit = Some 10, pf_retentionHours = 12, pf_seatLimit = 1,
      pf_orderEmailNotifications = False\<rparr>"

definition PLAN_FEATURES_personal :: plan_features where
  "PLAN_FEATURES_personal =
     \<lparr>pf_tier = ''personal'', pf_label = ''Personal'', pf_dailyOrderLimit = None,
      pf_weeklyOrderLimit = None, pf_retentionHours = 24 * 7, pf_seatLimit = 1,
      pf_orderEmailNotifications = True\<rparr>"

definition PLAN_FEATURES_business :: plan_features where
  "PLAN_FEATURES_business =
     \<lparr>pf_tier = ''business'', pf_label = ''Business'', pf_dailyOrderLimit = None,
      pf_weeklyOrderLimit = None, pf_retentionHours = 24 * 60, pf_seatLimit = 3,
      pf_orderEmailNotifications = True\<rparr>"

text \<open>
  \<open>getPlanFeatures(tier) = PLAN_FEATURES[tier] || PLAN_FEATURES.free\<close>, for the tier names
  the services pass (\<open>free\<close>, \<open>personal\<close>, \<open>business\<close>) and any other plain name.
\<close>

definition getPlanFeatures :: "string \<Rightarrow> plan_features" where
  "getPlanFeatures tier =
     (if tier = ''free'' then PLAN_FEATURES_free
      else if tier = ''personal'' then PLAN_FEATURES_personal
      else if tier = ''business'' then PLAN_FEATURES_business
      else PLAN_FEATURES_free)"

text \<open>Dates are epoch milliseconds; \<open>getUtcDayStart\<close> is midnight UTC of the date's day.\<close>

definition msPerDay :: int where
  "msPerDay = 24 * 60 * 60 * 1000"

definition getUtcDayStart :: "int \<Rightarrow> int" where
  "getUtcDayStart dateInput = (dateInput div msPerDay) * msPerDay"

text \<open>\<open>getUTCDay\<close>: 0 is Sunday; 1 January 1970 was a Thursday.\<close>

definition getUTCDay :: "int \<Rightarrow> int" where
  "getUTCDay t = (4 + t div msPerDay) mod 7"

definition getUtcWeekStart :: "int \<Rightarrow> int" where
  "getUtcWeekStart dateInput =
     (let dayStart = getUtcDayStart dateInput;
          day = getUTCDay dayStart;
          diffToMonday = (if day = 0 then 6 else day - 1)
      in dayStart - diffToMonday * 24 * 60 * 60 * 1000)"


section \<open>Subscription service: pure helpers\<close>

text \<open>
  \<open>mapPayPalStatusToLocal(paypalStatus)\<close>; a missing status is the empty string
  (\<open>String(paypalStatus || "")\<close>).
\<close>

definition mapPayPalStatusToLocal :: "string \<Rightarrow> string" where
  "mapPayPalStatusToLocal paypalStatus =
     (let status = toUpperCase paypalStatus in
      if status = ''ACTIVE'' then ''active''
      else if status = ''APPROVAL_PENDING'' then ''pending''
      else if status = ''SUSPENDED'' then ''suspended''
      else if status = ''CANCELLED'' \<or> status = ''EXPIRED'' then ''canceled''
      else if status \<noteq> [] then toLowerCase status
      else ''pending'')"

text \<open>
  The status mapping as the specification words it: the five named gateway statuses,
  compared without regard to case, and the lowercased input for every other status.
\<close>

definition mapStatus_spec :: "string \<Rightarrow> string" where
  "mapStatus_spec paypalStatus =
     (let status = toUpperCase paypalStatus in
      if status = ''ACTIVE'' then ''active''
      else if status = ''APPROVAL_PENDING'' then ''pending''
      else if status = ''SUSPENDED'' then ''suspended''
      else if status = ''CANCELLED'' \<or> status = ''EXPIRED'' then ''canceled''
      else toLowerCase paypalStatus)"


section \<open>Database rows\<close>

text \<open>
  Dates are epoch milliseconds. Row identifiers are natural numbers, a new row takes an
  identifier above all those of its table. A nullable column is an \<open>option\<close>. A table is
  the list of its rows; an update keeps a row at its position.
\<close>

record user =
  user_id :: nat
  user_email :: string
  user_name :: string

record subscription =
  sub_id :: nat
  sub_userId :: nat
  sub_plan :: string
  sub_status :: string
  sub_gateway :: string
  sub_gatewaySubscriptionId :: "string option"
  sub_startedAt :: int
  sub_nextBillingAt :: "int option"
  sub_expiresAt :: int
  sub_createdAt :: int

record referralInvite =
  inv_id :: nat
  inv_referrerUserId :: nat
  inv_inviteeEmail :: string
  inv_inviteeUserId :: "nat option"
  inv_status :: string
  inv_rewardedAt :: "int option"
  inv_createdAt :: int
  inv_referralCode :: string

record order_row =
  ord_userId :: nat
  ord_createdAt :: int

record clientProfile =
  cp_id :: nat
  cp_userId :: nat
  cp_clientId :: string
  cp_clientEmail :: string
  cp_clientName :: "string option"

record db =
  db_users :: "user list"
  db_subscriptions :: "subscription list"
  db_invites :: "referralInvite list"
  db_orders :: "order_row list"
  db_profiles :: "clientProfile list"

definition freshId :: "nat list \<Rightarrow> nat" where
  "freshId ids = Suc (foldr max ids 0)"

text \<open>\<open>update\<close> and \<open>updateMany\<close>: every row that matches is rewritten in place.\<close>

definition updateWhere :: "('a \<Rightarrow> bool) \<Rightarrow> ('a \<Rightarrow> 'a) \<Rightarrow> 'a list \<Rightarrow> 'a list" where
  "updateWhere P f rows = map (\<lambda>r. if P r then f r else r) rows"

text \<open>
  \<open>orderBy: {key: "asc"}\<close> and \<open>orderBy: {key: "desc"}\<close>, as stable sorts: rows with
  equal keys keep their table order.
\<close>

definition orderByAsc :: "('a \<Rightarrow> int) \<Rightarrow> 'a list \<Rightarrow> 'a list" where
  "orderByAsc key rows = sort_key key rows"

definition orderByDesc :: "('a \<Rightarrow> int) \<Rightarrow> 'a list \<Rightarrow> 'a list" where
  "orderByDesc key rows = sort_key (\<lambda>r. - key r) rows"

text \<open>\<open>findFirst\<close> is the first row of the filtered, ordered result.\<close>

definition firstRow :: "'a list \<Rightarrow> 'a option" where
  "firstRow rows = (case rows of [] \<Rightarrow> None | r # _ \<Rightarrow> Some r)"


section \<open>Winner selection\<close>

text \<open>
  The selection loop of \<open>buildPlanStateForUser\<close>: \<open>selectedSubscription\<close> starts as
  \<open>null\<close> and each row is one step.
\<close>

fun selectStep :: "subscription option \<Rightarrow> subscription \<Rightarrow> subscription option" where
  "selectStep None subscription = Some subscription"
| "selectStep (Some selectedSubscription) subscription =
     (let currentTier = getTierFromPlan (sub_plan selectedSubscription);
          nextTier = getTierFromPlan (sub_plan subscription) in
      if getTierRank nextTier > getTierRank currentTier then Some subscription
      else if getTierRank nextTier = getTierRank currentTier
            \<and> sub_expiresAt subscription > sub_expiresAt selectedSubscription
      then Some subscription
      else Some selectedSubscription)"

definition selectSubscription :: "subscription list \<Rightarrow> subscription option" where
  "selectSubscription subscriptions = foldl selectStep None subscriptions"

text \<open>
  The loop of \<open>getActiveSubscriptionOrNull\<close> (auth service) carries the pair
  \<open>(tier, selected)\<close>, starting from \<open>("free", null)\<close>.
\<close>

fun authSelectStep :: "string \<times> subscription option \<Rightarrow> subscription
    \<Rightarrow> string \<times> subscription option" where
  "authSelectStep (tier, None) subscription =
     (getTierFromPlan (sub_plan subscription), Some subscription)"
| "authSelectStep (tier, Some selected) subscription =
     (let nextTier = getTierFromPlan (sub_plan subscription) in
      if getTierRank nextTier > getTierRank tier then (nextTier, Some subscription)
      else if getTierRank nextTier = getTierRank tier
            \<and> sub_expiresAt subscription > sub_expiresAt selected
      then (tier, Some subscription)
      else (tier, Some selected))"

definition authSelect :: "subscription list \<Rightarrow> string \<times> subscription option" where
  "authSelect subscriptions = foldl authSelectStep (''free'', None) subscriptions"

text \<open>
  The comparator of the specification: higher tier rank wins, on a tie the strictly later
  expiry wins, otherwise the accumulator stays.
\<close>

definition subRank :: "subscription \<Rightarrow> nat" where
  "subRank s = getTierRank (getTierFromPlan (sub_plan s))"

definition pickWinner :: "subscription \<Rightarrow> subscription \<Rightarrow> subscription" where
  "pickWinner acc row =
     (if subRank row > subRank acc then row
      else if subRank row = subRank acc \<and> sub_expiresAt row > sub_expiresAt acc then row
      else acc)"


section \<open>Subscription service\<close>

text \<open>
  What the service reads from outside the repository: the configured PayPal plan ids
  (an unset variable is the empty string), the PayPal REST call
  \<open>fetchPayPalSubscription\<close> (\<open>None\<close> when it throws), the month arithmetic of the
  JavaScript \<open>Date\<close> (\<open>setMonth(getMonth() + months)\<close> on a date), and whether the ORM's
  \<open>{not: value}\<close> filter matches a row whose column is \<open>NULL\<close>.
\<close>

record paypal_details =
  pp_status :: string
  pp_plan_id :: string
  pp_start_time :: "int option"
  pp_next_billing_time :: "int option"

record world =
  PAYPAL_PLAN_ID_BUSINESS_ANNUAL :: string
  PAYPAL_PLAN_ID_BUSINESS_MONTHLY :: string
  PAYPAL_PLAN_ID_PERSONAL_ANNUAL :: string
  PAYPAL_PLAN_ID_ANNUAL :: string
  PAYPAL_PLAN_ID_PERSONAL_MONTHLY :: string
  PAYPAL_PLAN_ID_MONTHLY :: string
  fetchPayPalSubscription :: "string \<Rightarrow> paypal_details option"
  dateSetMonthPlus :: "int \<Rightarrow> int \<Rightarrow> int"
  notMatchesNull :: bool

definition normalizePlanId :: "string \<Rightarrow> string" where
  "normalizePlanId v =
     (let raw = trim v in
      if raw = [] then []
      else if startsWith raw ''P-'' then raw else ''P-'' @ raw)"

text \<open>\<open>a || b\<close> on strings: the first if it is not empty.\<close>

definition orElse :: "string \<Rightarrow> string \<Rightarrow> string" where
  "orElse a b = (if a \<noteq> [] then a else b)"

definition getPayPalPlanId :: "world \<Rightarrow> string \<Rightarrow> string \<Rightarrow> string" where
  "getPayPalPlanId w tier billingCycle =
     (let safeTier = toLowerCase (trim (orElse tier ''personal''));
          safeCycle = toLowerCase (trim (orElse billingCycle ''monthly''))
      in if safeTier = ''business'' then
           (if safeCycle = ''annual''
            then normalizePlanId (PAYPAL_PLAN_ID_BUSINESS_ANNUAL w)
            else normalizePlanId (PAYPAL_PLAN_ID_BUSINESS_MONTHLY w))
         else if safeCycle = ''annual''
         then normalizePlanId (orElse (PAYPAL_PLAN_ID_PERSONAL_ANNUAL w) (PAYPAL_PLAN_ID_ANNUAL w))
         else normalizePlanId (orElse (PAYPAL_PLAN_ID_PERSONAL_MONTHLY w) (PAYPAL_PLAN_ID_MONTHLY w)))"

definition addMonths :: "world \<Rightarrow> int \<Rightarrow> int \<Rightarrow> int" where
  "addMonths w dateInput months = dateSetMonthPlus w dateInput months"

definition addPlanInterval :: "world \<Rightarrow> int \<Rightarrow> string \<Rightarrow> int" where
  "addPlanInterval w date billingCycle =
     (if toLowerCase billingCycle = ''annual'' then addMonths w date 12
      else addMonths w date 1)"

text \<open>
  \<open>parseDate(dateStr, fallbackDate)\<close>: the date string is \<open>Some t\<close> when it is present and
  parses to the date \<open>t\<close>, and \<open>None\<close> when it is missing or does not parse.
\<close>

definition parseDate :: "int option \<Rightarrow> int \<Rightarrow> int" where
  "parseDate dateStr fallbackDate = (case dateStr of None \<Rightarrow> fallbackDate | Some t \<Rightarrow> t)"

definition normalizeBillingCycle :: "string \<Rightarrow> string" where
  "normalizeBillingCycle input =
     (let v = toLowerCase (trim (orElse input ''monthly''))
      in if v = ''annual'' then ''annual'' else ''monthly'')"

definition normalizeTier :: "string \<Rightarrow> string" where
  "normalizeTier input =
     (let v = toLowerCase (trim (orElse input ''personal''))
      in if v = ''business'' then ''business''
         else if v = ''free'' then ''free''
         else ''personal'')"

record plan_input =
  pi_tier :: string
  pi_billingCycle :: string

text \<open>
  \<open>parsePlanInput\<close>: \<open>const [tierPart, cyclePart] = plan.split("_")\<close> takes the first two
  pieces; the branch is taken only when the plan has an underscore, so both exist.
\<close>

definition parsePlanInput :: "string \<Rightarrow> string \<Rightarrow> string \<Rightarrow> plan_input" where
  "parsePlanInput planRaw tierRaw billingCycleRaw =
     (let explicitTier = normalizeTier tierRaw;
          explicitBilling = normalizeBillingCycle billingCycleRaw;
          plan = toLowerCase (trim planRaw)
      in if plan = ''monthly'' \<or> plan = ''annual'' then
           \<lparr>pi_tier = (if explicitTier = ''free'' then ''personal'' else explicitTier),
            pi_billingCycle = plan\<rparr>
         else if str_includes plan ''_'' then
           (case splitOn CHR ''_'' plan of
              tierPart # cyclePart # _ \<Rightarrow>
                \<lparr>pi_tier = normalizeTier tierPart,
                 pi_billingCycle = normalizeBillingCycle cyclePart\<rparr>
            | _ \<Rightarrow> \<lparr>pi_tier = explicitTier, pi_billingCycle = explicitBilling\<rparr>)
         else if plan \<in> set [''free'', ''personal'', ''business''] then
           \<lparr>pi_tier = normalizeTier plan, pi_billingCycle = explicitBilling\<rparr>
         else \<lparr>pi_tier = explicitTier, pi_billingCycle = explicitBilling\<rparr>)"

text \<open>\<open>email.split("@")[0]\<close>.\<close>

definition beforeAt :: "string \<Rightarrow> string" where
  "beforeAt s = takeWhile (\<lambda>c. c \<noteq> CHR ''@'') s"

text \<open>\<open>getOrCreateUserByEmail\<close>; \<open>None\<close> is the thrown \<open>Error("Missing email.")\<close>.\<close>

definition getOrCreateUserByEmail :: "db \<Rightarrow> string \<Rightarrow> (user \<times> db) option" where
  "getOrCreateUserByEmail d email =
     (let normalizedEmail = normalizeEmail email in
      if normalizedEmail = [] then None
      else (case find (\<lambda>u. user_email u = normalizedEmail) (db_users d) of
              Some u \<Rightarrow> Some (u, d)
            | None \<Rightarrow>
                (let u = \<lparr>user_id = freshId (map user_id (db_users d)),
                          user_email = normalizedEmail,
                          user_name = beforeAt normalizedEmail\<rparr>
                 in Some (u, d\<lparr>db_users := db_users d @ [u]\<rparr>))))"

text \<open>
  \<open>syncPayPalSubscription\<close>; \<open>None\<close> when the PayPal call throws. The fallback
  \<open>subscription.nextBillingAt || subscription.expiresAt\<close> is the next-billing date when the
  row has one.
\<close>

definition syncPayPalSubscription :: "world \<Rightarrow> db \<Rightarrow> subscription \<Rightarrow> db option" where
  "syncPayPalSubscription w d subscription =
     (case sub_gatewaySubscriptionId subscription of
        None \<Rightarrow> Some d
      | Some gid \<Rightarrow>
          if gid = [] then Some d
          else (case fetchPayPalSubscription w gid of
                  None \<Rightarrow> None
                | Some details \<Rightarrow>
                    (let mappedStatus = mapPayPalStatusToLocal (pp_status details);
                         nextBillingAt = parseDate (pp_next_billing_time details)
                           (case sub_nextBillingAt subscription of
                              Some t \<Rightarrow> t
                            | None \<Rightarrow> sub_expiresAt subscription)
                     in Some (d\<lparr>db_subscriptions :=
                          updateWhere (\<lambda>r. sub_id r = sub_id subscription)
                            (\<lambda>r. r\<lparr>sub_status := mappedStatus,
                                   sub_nextBillingAt := Some nextBillingAt,
                                   sub_expiresAt := nextBillingAt\<rparr>)
                            (db_subscriptions d)\<rparr>))))"

text \<open>
  \<open>getCurrentActiveSubscriptions\<close>, ordered by \<open>expiresAt\<close> descending, then \<open>createdAt\<close>
  descending. The clock is read once for a request.
\<close>

definition getCurrentActiveSubscriptions :: "db \<Rightarrow> nat \<Rightarrow> int \<Rightarrow> subscription list" where
  "getCurrentActiveSubscriptions d userId now =
     orderByDesc sub_expiresAt (orderByDesc sub_createdAt
       (filter (\<lambda>s. sub_userId s = userId \<and> sub_status s = ''active''
                    \<and> sub_startedAt s \<le> now
                    \<and> (sub_expiresAt s > now \<or> sub_gateway s = ''PAYPAL''))
          (db_subscriptions d)))"

record usage =
  ordersToday :: nat
  ordersThisWeek :: nat

definition countOrderUsage :: "db \<Rightarrow> nat \<Rightarrow> int \<Rightarrow> usage" where
  "countOrderUsage d userId now =
     (let dayStart = getUtcDayStart now;
          weekStart = getUtcWeekStart now
      in \<lparr>ordersToday =
            length (filter (\<lambda>r. ord_userId r = userId \<and> ord_createdAt r \<ge> dayStart) (db_orders d)),
          ordersThisWeek =
            length (filter (\<lambda>r. ord_userId r = userId \<and> ord_createdAt r \<ge> weekStart) (db_orders d))\<rparr>)"

text \<open>\<open>resolveTierFromSubscriptions\<close>, the tier only.\<close>

definition resolveTierFromSubscriptions :: "subscription list \<Rightarrow> string" where
  "resolveTierFromSubscriptions subscriptions =
     foldl (\<lambda>tier subscription.
              (let nextTier = getTierFromPlan (sub_plan subscription)
               in if getTierRank nextTier > getTierRank tier then nextTier else tier))
       ''free'' subscriptions"

record plan_state =
  ps_tier :: string
  ps_subscription :: "subscription option"
  ps_planFeatures :: plan_features
  ps_usage :: usage

definition isPayPalSub :: "subscription \<Rightarrow> bool" where
  "isPayPalSub s =
     (sub_gateway s = ''PAYPAL''
      \<and> (case sub_gatewaySubscriptionId s of None \<Rightarrow> False | Some gid \<Rightarrow> gid \<noteq> []))"

text \<open>A failed sync is logged and skipped.\<close>

definition syncAll :: "world \<Rightarrow> db \<Rightarrow> subscription list \<Rightarrow> db" where
  "syncAll w d paypalSubs =
     foldl (\<lambda>d' s. case syncPayPalSubscription w d' s of None \<Rightarrow> d' | Some d'' \<Rightarrow> d'')
       d paypalSubs"

definition buildPlanStateForUser :: "world \<Rightarrow> int \<Rightarrow> db \<Rightarrow> nat \<Rightarrow> plan_state \<times> db" where
  "buildPlanStateForUser w now d userId =
     (let subscriptions0 = getCurrentActiveSubscriptions d userId now;
          paypalSubs = filter isPayPalSub subscriptions0;
          d' = (if paypalSubs \<noteq> [] then syncAll w d paypalSubs else d);
          subscriptions = (if paypalSubs \<noteq> []
                           then getCurrentActiveSubscriptions d' userId now
                           else subscriptions0);
          tier = resolveTierFromSubscriptions subscriptions
      in (\<lparr>ps_tier = tier,
           ps_subscription = selectSubscription subscriptions,
           ps_planFeatures = getPlanFeatures tier,
           ps_usage = countOrderUsage d' userId now\<rparr>, d'))"

text \<open>Responses of the subscriptions endpoint: the HTTP status and the JSON body.\<close>

record referral_reward =
  rr_inviteId :: nat
  rr_referrerUserId :: nat
  rr_inviteeUserId :: "nat option"
  rr_rewardedAt :: "int option"

datatype sub_body =
    ErrorBody string
  | PlanStateBody "subscription option" string plan_features usage
  | ActivatedBody subscription "referral_reward option" "string option"
  | CanceledBody "subscription option"
  | CreatedBody subscription

text \<open>\<open>handleGet\<close> of the subscriptions endpoint; \<open>email\<close> is \<open>req.query.email\<close>.\<close>

definition subscriptions_handleGet :: "world \<Rightarrow> int \<Rightarrow> string \<Rightarrow> db \<Rightarrow> (nat \<times> sub_body) \<times> db" where
  "subscriptions_handleGet w now emailParam d =
     (let email = normalizeEmail emailParam in
      if email = [] then ((400, ErrorBody ''Missing email parameter''), d)
      else (case find (\<lambda>u. user_email u = email) (db_users d) of
              None \<Rightarrow>
                (let freeFeatures = getPlanFeatures ''free''
                 in ((200, PlanStateBody None ''free'' freeFeatures
                             \<lparr>ordersToday = 0, ordersThisWeek = 0\<rparr>), d))
            | Some u \<Rightarrow>
                (let (planState, d') = buildPlanStateForUser w now d (user_id u)
                 in ((200, PlanStateBody (ps_subscription planState) (ps_tier planState)
                             (ps_planFeatures planState) (ps_usage planState)), d'))))"


section \<open>Referral reward and PayPal activation\<close>

text \<open>
  \<open>getUserAccessEnd\<close>: the latest expiry among the user's active rows that expire after
  \<open>now\<close>, and \<open>now\<close> when there is none.
\<close>

definition getUserAccessEnd :: "db \<Rightarrow> nat \<Rightarrow> int \<Rightarrow> int" where
  "getUserAccessEnd d userId now =
     (case firstRow (orderByDesc sub_expiresAt
             (filter (\<lambda>s. sub_userId s = userId \<and> sub_status s = ''active''
                          \<and> sub_expiresAt s > now)
                (db_subscriptions d))) of
        None \<Rightarrow> now
      | Some existing \<Rightarrow>
          if sub_expiresAt existing > now then sub_expiresAt existing else now)"

text \<open>The new row's \<open>createdAt\<close> is the time of the request.\<close>

definition createReferralBonusSubscription :: "world \<Rightarrow> db \<Rightarrow> nat \<Rightarrow> int \<Rightarrow> subscription \<times> db" where
  "createReferralBonusSubscription w d userId now =
     (let startsAt = getUserAccessEnd d userId now;
          expiresAt = addMonths w startsAt 1;
          row = \<lparr>sub_id = freshId (map sub_id (db_subscriptions d)),
                 sub_userId = userId,
                 sub_plan = ''personal_referral_bonus'',
                 sub_status = ''active'',
                 sub_gateway = ''REFERRAL'',
                 sub_gatewaySubscriptionId = None,
                 sub_startedAt = startsAt,
                 sub_nextBillingAt = Some expiresAt,
                 sub_expiresAt = expiresAt,
                 sub_createdAt = now\<rparr>
      in (row, d\<lparr>db_subscriptions := db_subscriptions d @ [row]\<rparr>))"

definition inviteOpenFor :: "string \<Rightarrow> referralInvite \<Rightarrow> bool" where
  "inviteOpenFor email i =
     (inv_inviteeEmail i = email \<and> inv_status i \<in> set [''PENDING'', ''REGISTERED''])"

definition markRewarded :: "nat \<Rightarrow> int \<Rightarrow> referralInvite \<Rightarrow> referralInvite" where
  "markRewarded inviteeUserId now i =
     i\<lparr>inv_inviteeUserId := Some inviteeUserId, inv_status := ''REWARDED'',
       inv_rewardedAt := Some now\<rparr>"

definition applyReferralReward :: "world \<Rightarrow> db \<Rightarrow> user \<Rightarrow> int \<Rightarrow> referral_reward option \<times> db" where
  "applyReferralReward w d inviteeUser now =
     (case firstRow (orderByAsc inv_createdAt
             (filter (inviteOpenFor (user_email inviteeUser)) (db_invites d))) of
        None \<Rightarrow> (None, d)
      | Some invite \<Rightarrow>
          (let d1 = snd (createReferralBonusSubscription w d (inv_referrerUserId invite) now);
               d2 = snd (createReferralBonusSubscription w d1 (user_id inviteeUser) now);
               updatedInvite = markRewarded (user_id inviteeUser) now invite;
               d3 = d2\<lparr>db_invites :=
                      updateWhere (\<lambda>i. inv_id i = inv_id invite)
                        (markRewarded (user_id inviteeUser) now) (db_invites d2)\<rparr>
           in (Some \<lparr>rr_inviteId = inv_id updatedInvite,
                     rr_referrerUserId = inv_referrerUserId updatedInvite,
                     rr_inviteeUserId = inv_inviteeUserId updatedInvite,
                     rr_rewardedAt = inv_rewardedAt updatedInvite\<rparr>, d3)))"

record activate_req =
  req_email :: string
  req_plan :: string
  req_paypalSubscriptionId :: string
  req_tier :: string
  req_billingCycle :: string

text \<open>
  The filter \<open>gatewaySubscriptionId: {not: paypalSubscriptionId}\<close>: a row with another
  gateway id matches, a row with this id does not, a row without a gateway id matches
  when the ORM lets \<open>not\<close> match \<open>NULL\<close>.
\<close>

definition gatewayIdNot :: "world \<Rightarrow> string \<Rightarrow> subscription \<Rightarrow> bool" where
  "gatewayIdNot w paypalSubscriptionId s =
     (case sub_gatewaySubscriptionId s of
        None \<Rightarrow> notMatchesNull w
      | Some g \<Rightarrow> g \<noteq> paypalSubscriptionId)"

definition otherActive :: "world \<Rightarrow> nat \<Rightarrow> string \<Rightarrow> subscription \<Rightarrow> bool" where
  "otherActive w userId paypalSubscriptionId s =
     (sub_userId s = userId \<and> sub_status s = ''active''
      \<and> gatewayIdNot w paypalSubscriptionId s)"

record activation =
  act_subscription :: subscription
  act_referralReward :: "referral_reward option"
  act_previousActive :: "subscription list"

text \<open>
  \<open>tx.subscription.upsert\<close> keyed by the unique column \<open>gatewaySubscriptionId\<close>: the rows
  with that key are rewritten by \<open>upd\<close> and the first is returned; when there is none,
  \<open>created\<close> is appended and returned.
\<close>

definition upsertByGatewayId :: "string \<Rightarrow> (subscription \<Rightarrow> subscription) \<Rightarrow> subscription
    \<Rightarrow> subscription list \<Rightarrow> subscription \<times> subscription list" where
  "upsertByGatewayId paypalSubscriptionId upd created rows =
     (case find (\<lambda>s. sub_gatewaySubscriptionId s = Some paypalSubscriptionId) rows of
        Some existing \<Rightarrow>
          (upd existing,
           updateWhere (\<lambda>s. sub_gatewaySubscriptionId s = Some paypalSubscriptionId) upd rows)
      | None \<Rightarrow> (created, rows @ [created]))"

text \<open>
  The body of the \<open>$transaction\<close> callback of \<open>handleActivatePayPal\<close>, in the order of
  the source: the other active rows are read (\<open>previousActive\<close>) and cancelled
  (\<open>updateMany\<close>), the row is upserted with a pending status promoted to active, and the
  referral reward is applied when the row is active.
\<close>

definition cancelOthers :: "world \<Rightarrow> nat \<Rightarrow> string \<Rightarrow> subscription list \<Rightarrow> subscription list" where
  "cancelOthers w userId paypalSubscriptionId rows =
     updateWhere (otherActive w userId paypalSubscriptionId)
       (\<lambda>s. s\<lparr>sub_status := ''canceled''\<rparr>) rows"

definition activationStatus :: "string \<Rightarrow> string" where
  "activationStatus localStatus = (if localStatus = ''pending'' then ''active'' else localStatus)"

definition activationUpdate :: "string \<Rightarrow> string \<Rightarrow> int \<Rightarrow> int \<Rightarrow> subscription \<Rightarrow> subscription" where
  "activationUpdate planName localStatus startedAt nextBillingAt s =
     s\<lparr>sub_plan := planName,
       sub_status := activationStatus localStatus,
       sub_gateway := ''PAYPAL'',
       sub_startedAt := startedAt,
       sub_nextBillingAt := Some nextBillingAt,
       sub_expiresAt := nextBillingAt\<rparr>"

definition activationCreate :: "nat \<Rightarrow> nat \<Rightarrow> string \<Rightarrow> string \<Rightarrow> string \<Rightarrow> int \<Rightarrow> int \<Rightarrow> int
    \<Rightarrow> subscription" where
  "activationCreate newId userId paypalSubscriptionId planName localStatus startedAt nextBillingAt now =
     \<lparr>sub_id = newId,
      sub_userId = userId,
      sub_plan = planName,
      sub_status = activationStatus localStatus,
      sub_gateway = ''PAYPAL'',
      sub_gatewaySubscriptionId = Some paypalSubscriptionId,
      sub_startedAt = startedAt,
      sub_nextBillingAt = Some nextBillingAt,
      sub_expiresAt = nextBillingAt,
      sub_createdAt = now\<rparr>"

definition rewardIfActive :: "world \<Rightarrow> db \<Rightarrow> user \<Rightarrow> int \<Rightarrow> subscription
    \<Rightarrow> referral_reward option \<times> db" where
  "rewardIfActive w d1 usr now subscription =
     (if sub_status subscription = ''active''
      then applyReferralReward w d1 usr now
      else (None, d1))"

definition activateTx :: "world \<Rightarrow> int \<Rightarrow> user \<Rightarrow> string \<Rightarrow> string \<Rightarrow> string \<Rightarrow> int \<Rightarrow> int
    \<Rightarrow> db \<Rightarrow> activation \<times> db" where
  "activateTx w now usr paypalSubscriptionId planName localStatus startedAt nextBillingAt d =
     (let previousActive = orderByDesc sub_createdAt
            (filter (otherActive w (user_id usr) paypalSubscriptionId) (db_subscriptions d));
          subs1 = cancelOthers w (user_id usr) paypalSubscriptionId (db_subscriptions d);
          upserted = upsertByGatewayId paypalSubscriptionId
            (activationUpdate planName localStatus startedAt nextBillingAt)
            (activationCreate (freshId (map sub_id subs1)) (user_id usr) paypalSubscriptionId
               planName localStatus startedAt nextBillingAt now)
            subs1;
          d1 = d\<lparr>db_subscriptions := snd upserted\<rparr>;
          rewarded = rewardIfActive w d1 usr now (fst upserted)
      in (\<lparr>act_subscription = fst upserted, act_referralReward = fst rewarded,
           act_previousActive = previousActive\<rparr>, snd rewarded))"

text \<open>
  \<open>handleActivatePayPal\<close>, in two parts. \<open>activateFetched\<close> is the handler from the plan
  check on, once the user and the live PayPal subscription are at hand. A thrown error
  reaches the endpoint's \<open>catch\<close>, which answers 500. The notification emails sent after
  the commit change neither the database nor the response.
\<close>

definition activateFetched :: "world \<Rightarrow> int \<Rightarrow> plan_input \<Rightarrow> string \<Rightarrow> string \<Rightarrow> user
    \<Rightarrow> paypal_details \<Rightarrow> db \<Rightarrow> (nat \<times> sub_body) \<times> db" where
  "activateFetched w now parsed configuredPlanId paypalSubscriptionId usr details d0 =
     (let localStatus = mapPayPalStatusToLocal (pp_status details)
      in if pp_plan_id details \<noteq> [] \<and> configuredPlanId \<noteq> pp_plan_id details then
           ((400, ErrorBody ''PayPal plan mismatch for selected billing cycle.''), d0)
         else if localStatus \<in> set [''canceled'', ''suspended'', ''expired''] then
           ((400, ErrorBody (''PayPal subscription is '' @ localStatus @ ''.'')), d0)
         else
          (let startedAt = parseDate (pp_start_time details) now;
               nextBillingAt = parseDate (pp_next_billing_time details)
                 (addPlanInterval w now (pi_billingCycle parsed));
               planName = pi_tier parsed @ ''_'' @ pi_billingCycle parsed;
               activated = activateTx w now usr paypalSubscriptionId planName localStatus
                 startedAt nextBillingAt d0
           in ((200, ActivatedBody (act_subscription (fst activated))
                  (act_referralReward (fst activated))
                  (if pp_status details \<noteq> [] then Some (pp_status details) else None)),
               snd activated)))"

definition handleActivatePayPal :: "world \<Rightarrow> int \<Rightarrow> activate_req \<Rightarrow> db \<Rightarrow> (nat \<times> sub_body) \<times> db" where
  "handleActivatePayPal w now req d =
     (let normalizedEmail = normalizeEmail (req_email req);
          paypalSubscriptionId = req_paypalSubscriptionId req;
          parsed = parsePlanInput (req_plan req) (req_tier req) (req_billingCycle req);
          configuredPlanId = getPayPalPlanId w (pi_tier parsed) (pi_billingCycle parsed)
      in if normalizedEmail = [] \<or> paypalSubscriptionId = [] then
           ((400, ErrorBody ''Missing required fields: email, paypalSubscriptionId''), d)
         else if pi_tier parsed \<notin> set [''personal'', ''business''] then
           ((400, ErrorBody ''Invalid tier for PayPal activation.''), d)
         else if configuredPlanId = [] then
           ((400, ErrorBody ''PayPal plan ID missing''), d)
         else
          (case getOrCreateUserByEmail d normalizedEmail of
             None \<Rightarrow> ((500, ErrorBody ''Server error''), d)
           | Some (usr, d0) \<Rightarrow>
              (case fetchPayPalSubscription w paypalSubscriptionId of
                 None \<Rightarrow> ((500, ErrorBody ''Server error''), d0)
               | Some details \<Rightarrow>
                   activateFetched w now parsed configuredPlanId paypalSubscriptionId usr
                     details d0)))"

text \<open>
  \<open>handleCancelSubscription\<close>: the current row is the first of the active rows in the order
  of \<open>getCurrentActiveSubscriptions\<close>.
\<close>

definition handleCancelSubscription :: "int \<Rightarrow> string \<Rightarrow> db \<Rightarrow> (nat \<times> sub_body) \<times> db" where
  "handleCancelSubscription now email d =
     (let normalizedEmail = normalizeEmail email in
      if normalizedEmail = [] then ((400, ErrorBody ''Missing required field: email''), d)
      else (case find (\<lambda>u. user_email u = normalizedEmail) (db_users d) of
              None \<Rightarrow> ((404, ErrorBody ''User not found.''), d)
            | Some usr \<Rightarrow>
                (case firstRow (getCurrentActiveSubscriptions d (user_id usr) now) of
                   None \<Rightarrow> ((200, CanceledBody None), d)
                 | Some current \<Rightarrow>
                     (let upd = (\<lambda>s. s\<lparr>sub_status := ''canceled'', sub_expiresAt := now,
                                        sub_nextBillingAt := None\<rparr>)
                      in ((200, CanceledBody (Some (upd current))),
                          d\<lparr>db_subscriptions :=
                              updateWhere (\<lambda>s. sub_id s = sub_id current) upd
                                (db_subscriptions d)\<rparr>)))))"

record internal_req =
  ireq_email :: string
  ireq_plan :: string
  ireq_tier :: string
  ireq_billingCycle :: string

definition handleCreateInternal :: "world \<Rightarrow> int \<Rightarrow> internal_req \<Rightarrow> db \<Rightarrow> (nat \<times> sub_body) \<times> db" where
  "handleCreateInternal w now req d =
     (let normalizedEmail = normalizeEmail (ireq_email req) in
      if normalizedEmail = [] then ((400, ErrorBody ''Missing required field: email''), d)
      else
       (let parsed = parsePlanInput (ireq_plan req) (ireq_tier req) (ireq_billingCycle req)
        in if pi_tier parsed \<notin> set [''personal'', ''business''] then
             ((400, ErrorBody ''Invalid plan.''), d)
           else
            (case getOrCreateUserByEmail d normalizedEmail of
               None \<Rightarrow> ((500, ErrorBody ''Server error''), d)
             | Some (usr, d0) \<Rightarrow>
                (case firstRow (orderByDesc sub_createdAt
                        (filter (\<lambda>s. sub_userId s = user_id usr \<and> sub_status s = ''active''
                                     \<and> sub_startedAt s \<le> now \<and> sub_expiresAt s > now)
                           (db_subscriptions d0))) of
                   Some existing \<Rightarrow> ((200, CreatedBody existing), d0)
                 | None \<Rightarrow>
                    (let expiresAt = addPlanInterval w now (pi_billingCycle parsed);
                         created = \<lparr>sub_id = freshId (map sub_id (db_subscriptions d0)),
                                    sub_userId = user_id usr,
                                    sub_plan = pi_tier parsed @ ''_'' @ pi_billingCycle parsed,
                                    sub_status = ''active'',
                                    sub_gateway = ''INTERNAL'',
                                    sub_gatewaySubscriptionId = None,
                                    sub_startedAt = now,
                                    sub_nextBillingAt = Some expiresAt,
                                    sub_expiresAt = expiresAt,
                                    sub_createdAt = now\<rparr>
                     in ((201, CreatedBody created),
                         d0\<lparr>db_subscriptions := db_subscriptions d0 @ [created]\<rparr>))))))"

section \<open>Referral service\<close>

text \<open>
  \<open>isValidEmail\<close>, the test \<open>/^[^\s@]+@[^\s@]+\.[^\s@]+$/\<close>: no white space, exactly one
  \<open>@\<close> with a non-empty part before it, and after it a dot that is neither the first nor
  the last character.
\<close>

definition isValidEmail :: "string \<Rightarrow> bool" where
  "isValidEmail email =
     (case splitOn CHR ''@'' email of
        [localPart, domainPart] \<Rightarrow>
          localPart \<noteq> [] \<and> \<not> list_ex isSpace email
          \<and> CHR ''.'' \<in> set (butlast (tl domainPart))
      | _ \<Rightarrow> False)"

datatype ref_body =
    RefError string
  | InviteBody referralInvite

text \<open>
  \<open>handleInvite\<close>; \<open>newCode\<close> is the value of \<open>createReferralCode()\<close>. The invitation
  email changes neither the database nor the invite in the response.
\<close>

definition handleInvite :: "string \<Rightarrow> int \<Rightarrow> string \<Rightarrow> string \<Rightarrow> db \<Rightarrow> (nat \<times> ref_body) \<times> db" where
  "handleInvite newCode now referrerEmail inviteeEmail d =
     (let normalizedReferrer = normalizeEmail referrerEmail;
          normalizedInvitee = normalizeEmail inviteeEmail
      in if normalizedReferrer = [] \<or> normalizedInvitee = [] then
           ((400, RefError ''Missing required fields: referrerEmail, inviteeEmail''), d)
         else if \<not> isValidEmail normalizedInvitee then
           ((400, RefError ''Invitee email is invalid.''), d)
         else if normalizedReferrer = normalizedInvitee then
           ((400, RefError ''You cannot invite your own email.''), d)
         else
          (case getOrCreateUserByEmail d normalizedReferrer of
             None \<Rightarrow> ((500, RefError ''Referral service error''), d)
           | Some (referrer, d0) \<Rightarrow>
              (case find (\<lambda>i. inv_referrerUserId i = user_id referrer
                              \<and> inv_inviteeEmail i = normalizedInvitee) (db_invites d0) of
                 Some existing \<Rightarrow> ((200, InviteBody existing), d0)
               | None \<Rightarrow>
                  (let invite = \<lparr>inv_id = freshId (map inv_id (db_invites d0)),
                                 inv_referrerUserId = user_id referrer,
                                 inv_inviteeEmail = normalizedInvitee,
                                 inv_inviteeUserId = None,
                                 inv_status = ''PENDING'',
                                 inv_rewardedAt = None,
                                 inv_createdAt = now,
                                 inv_referralCode = newCode\<rparr>
                   in ((200, InviteBody invite),
                       d0\<lparr>db_invites := db_invites d0 @ [invite]\<rparr>)))))"

section \<open>Requests\<close>

text \<open>
  The requests of the subscription and referral endpoints that write the database, with
  the database each leaves behind. The other endpoints under \<open>src\<close> never write the
  invite or the subscription table.
\<close>

datatype request =
    GetSubscriptions string
  | ActivatePayPal activate_req
  | CancelSubscription string
  | CreateInternal internal_req
  | Invite string string string

fun step :: "world \<Rightarrow> int \<Rightarrow> request \<Rightarrow> db \<Rightarrow> db" where
  "step w now (GetSubscriptions email) d = snd (subscriptions_handleGet w now email d)"
| "step w now (ActivatePayPal req) d = snd (handleActivatePayPal w now req d)"
| "step w now (CancelSubscription email) d = snd (handleCancelSubscription now email d)"
| "step w now (CreateInternal req) d = snd (handleCreateInternal w now req d)"
| "step w now (Invite newCode referrerEmail inviteeEmail) d =
     snd (handleInvite newCode now referrerEmail inviteeEmail d)"

fun run :: "world \<Rightarrow> (int \<times> request) list \<Rightarrow> db \<Rightarrow> db" where
  "run w [] d = d"
| "run w ((now, r) # rs) d = run w rs (step w now r d)"

section \<open>Client profiles service\<close>

record profile_req =
  preq_email :: string
  preq_clientId :: string
  preq_clientEmail :: string
  preq_clientName :: string

definition normalizeClientId :: "string \<Rightarrow> string" where
  "normalizeClientId v = trim v"

text \<open>
  The profile object of the response: \<open>id\<close>, \<open>clientId\<close>,
  \<open>clientEmail: normalizeEmail(profile.clientEmail)\<close> and
  \<open>clientName: profile.clientName || ""\<close>. The time stamps \<open>createdAt\<close> and \<open>updatedAt\<close>
  of a row are not modelled.
\<close>

record profile_view =
  pv_id :: nat
  pv_clientId :: string
  pv_clientEmail :: string
  pv_clientName :: string

definition profileView :: "clientProfile \<Rightarrow> profile_view" where
  "profileView profile =
     \<lparr>pv_id = cp_id profile,
      pv_clientId = cp_clientId profile,
      pv_clientEmail = normalizeEmail (cp_clientEmail profile),
      pv_clientName = (case cp_clientName profile of Some n \<Rightarrow> n | None \<Rightarrow> [])\<rparr>"

datatype profile_body =
    ProfileError string
  | ProfileBody profile_view

text \<open>\<open>a || b || null\<close> for the client name: the first that is a non-empty string.\<close>

definition nameOrNull :: "string \<Rightarrow> string option \<Rightarrow> string option" where
  "nameOrNull clientName existingName =
     (if clientName \<noteq> [] then Some clientName
      else (case existingName of
              Some n \<Rightarrow> if n \<noteq> [] then Some n else None
            | None \<Rightarrow> None))"

text \<open>
  The filter \<open>clientEmail: {equals: clientEmail, mode: "insensitive"}\<close> for the user's rows.
\<close>

definition emailMatches :: "nat \<Rightarrow> string \<Rightarrow> clientProfile \<Rightarrow> bool" where
  "emailMatches userId clientEmail p =
     (cp_userId p = userId \<and> toLowerCase (cp_clientEmail p) = toLowerCase clientEmail)"

definition hasClientId :: "nat \<Rightarrow> string \<Rightarrow> clientProfile \<Rightarrow> bool" where
  "hasClientId userId clientId p = (cp_userId p = userId \<and> cp_clientId p = clientId)"

text \<open>
  \<open>tx.clientProfile.upsert\<close> keyed by \<open>userId_clientId\<close>: the row with that key gets the
  email and the name, or a new row is appended.
\<close>

definition upsertProfile :: "nat \<Rightarrow> string \<Rightarrow> string \<Rightarrow> string \<Rightarrow> clientProfile list
    \<Rightarrow> clientProfile \<times> clientProfile list" where
  "upsertProfile userId clientId clientEmail clientName rows =
     (case find (hasClientId userId clientId) rows of
        Some existing \<Rightarrow>
          (let upd = (\<lambda>p. p\<lparr>cp_clientEmail := clientEmail,
                              cp_clientName := nameOrNull clientName None\<rparr>)
           in (upd existing, updateWhere (hasClientId userId clientId) upd rows))
      | None \<Rightarrow>
          (let created = \<lparr>cp_id = freshId (map cp_id rows),
                          cp_userId = userId,
                          cp_clientId = clientId,
                          cp_clientEmail = clientEmail,
                          cp_clientName = nameOrNull clientName None\<rparr>
           in (created, rows @ [created])))"

text \<open>
  Modelled from the spec: the Prisma schema is not under \<open>src\<close>; the specification names
  the unique constraint (user, clientId) of the profile table, which the \<open>upsert\<close> key
  \<open>userId_clientId\<close> confirms. The \<open>update\<close> of the email-matched row, which gives it the
  requested client id, fails with the conflict error \<open>P2002\<close> (here \<open>None\<close>) when another
  row of the user has that client id.
\<close>

definition renameProfile :: "clientProfile \<Rightarrow> string \<Rightarrow> string \<Rightarrow> clientProfile list
    \<Rightarrow> (clientProfile \<times> clientProfile list) option" where
  "renameProfile existingByEmail clientId clientName rows =
     (if list_ex (hasClientId (cp_userId existingByEmail) clientId) rows then None
      else
       (let upd = (\<lambda>p. p\<lparr>cp_clientId := clientId,
                           cp_clientName := nameOrNull clientName (cp_clientName existingByEmail)\<rparr>)
        in Some (upd existingByEmail,
                 updateWhere (\<lambda>p. cp_id p = cp_id existingByEmail) upd rows)))"

text \<open>
  The body of the \<open>$transaction\<close> callback of \<open>handlePost\<close>; \<open>None\<close> is the conflict
  error, which rolls the transaction back.
\<close>

definition profileTx :: "nat \<Rightarrow> string \<Rightarrow> string \<Rightarrow> string \<Rightarrow> clientProfile list
    \<Rightarrow> (clientProfile \<times> clientProfile list) option" where
  "profileTx userId clientId clientEmail clientName rows =
     (case find (emailMatches userId clientEmail) rows of
        Some existingByEmail \<Rightarrow>
          if cp_clientId existingByEmail \<noteq> clientId
          then renameProfile existingByEmail clientId clientName rows
          else Some (upsertProfile userId clientId clientEmail clientName rows)
      | None \<Rightarrow> Some (upsertProfile userId clientId clientEmail clientName rows))"

text \<open>
  \<open>handlePost\<close> of the client-profiles endpoint. The conflict error reaches the endpoint's
  \<open>catch\<close>, which answers 500; the user created before the transaction stays.
\<close>

definition profiles_handlePost :: "profile_req \<Rightarrow> db \<Rightarrow> (nat \<times> profile_body) \<times> db" where
  "profiles_handlePost req d =
     (let email = normalizeEmail (preq_email req);
          clientId = normalizeClientId (preq_clientId req);
          clientEmail = normalizeEmail (preq_clientEmail req);
          clientName = trim (preq_clientName req)
      in if email = [] \<or> clientId = [] \<or> clientEmail = [] then
           ((400, ProfileError ''Missing required fields: email, clientId, clientEmail''), d)
         else if \<not> isValidEmail (trim clientEmail) then
           ((400, ProfileError ''clientEmail is invalid.''), d)
         else
          (case getOrCreateUserByEmail d email of
             None \<Rightarrow> ((500, ProfileError ''Client profiles service error''), d)
           | Some (usr, d0) \<Rightarrow>
              (case profileTx (user_id usr) clientId clientEmail clientName (db_profiles d0) of
                 None \<Rightarrow> ((500, ProfileError ''Client profiles service error''), d0)
               | Some (profile, rows') \<Rightarrow>
                   ((200, ProfileBody (profileView profile)), d0\<lparr>db_profiles := rows'\<rparr>))))"

text \<open>The invariants of the profile table.\<close>

definition profilesWellFormed :: "clientProfile list \<Rightarrow> bool" where
  "profilesWellFormed rows \<longleftrightarrow>
     distinct (map cp_id rows)
     \<and> distinct (map (\<lambda>p. (cp_userId p, cp_clientId p)) rows)"

definition emailsUnique :: "clientProfile list \<Rightarrow> bool" where
  "emailsUnique rows \<longleftrightarrow>
     distinct (map (\<lambda>p. (cp_userId p, toLowerCase (cp_clientEmail p))) rows)"

definition pairKey :: "clientProfile \<Rightarrow> nat \<times> string" where
  "pairKey p = (cp_userId p, cp_clientId p)"

definition emailKey :: "clientProfile \<Rightarrow> nat \<times> string" where
  "emailKey p = (cp_userId p, toLowerCase (cp_clientEmail p))"

text \<open>A request that passes the validation of \<open>handlePost\<close>.\<close>

definition validPost :: "profile_req \<Rightarrow> bool" where
  "validPost req \<longleftrightarrow>
     normalizeEmail (preq_email req) \<noteq> []
     \<and> normalizeClientId (preq_clientId req) \<noteq> []
     \<and> normalizeEmail (preq_clientEmail req) \<noteq> []
     \<and> isValidEmail (trim (normalizeEmail (preq_clientEmail req)))"



section \<open>Auth service\<close>

text \<open>
  What the service takes from the Node.js runtime, outside the repository: HMAC-SHA256
  (the 32-byte digest as a 256-bit word, first byte most significant), the \<open>base64url\<close>
  text of a digest, \<open>base64url\<close> encoding and decoding of UTF-8 text, \<open>JSON.stringify\<close>,
  \<open>JSON.parse\<close> (\<open>None\<close> when it throws) and \<open>Number\<close> on a string and on an array or
  object (\<open>None\<close> for \<open>NaN\<close>).
\<close>

datatype jvalue = JNull | JBool bool | JNum int | JStr string | JNested string

text \<open>
  A value of a parsed JSON text, as far as the service looks at it: \<open>null\<close>, a boolean, a
  number (whole, as the time stamps the service writes), a string, or \<open>JNested t\<close>: an
  array or an object, with its JSON text \<open>t\<close>. A parsed text is an object with its
  properties (the first binding of a name in the list is the value of the property) or
  another value; \<open>JOther (JNested t)\<close> is an array.
\<close>

datatype json = JObject "(string \<times> jvalue) list" | JOther jvalue

record node =
  hmacSha256 :: "string \<Rightarrow> string \<Rightarrow> 256 word"
  digestBase64url :: "256 word \<Rightarrow> string"
  bufferToBase64url :: "string \<Rightarrow> string"
  bufferFromBase64url :: "string \<Rightarrow> string"
  jsonStringify :: "json \<Rightarrow> string"
  jsonParse :: "string \<Rightarrow> json option"
  stringToNumber :: "string \<Rightarrow> int option"
  nestedToNumber :: "string \<Rightarrow> int option"

text \<open>The environment variables of the auth service; an unset variable is empty.\<close>

record auth_env =
  AUTH_MAGIC_LINK_SECRET :: string
  NEXTAUTH_SECRET :: string
  AUTH_ALLOWED_EMAILS :: string
  AUTH_MAGIC_LINK_EXPIRES_MINUTES :: "int option"

definition getAllowedEmails :: "auth_env \<Rightarrow> string list" where
  "getAllowedEmails env =
     (let raw = trim (AUTH_ALLOWED_EMAILS env) in
      if raw = [] then []
      else filter (\<lambda>item. item \<noteq> [])
             (map (\<lambda>item. toLowerCase (trim item)) (splitOn CHR '','' raw)))"

definition getMagicLinkSecret :: "auth_env \<Rightarrow> string" where
  "getMagicLinkSecret env =
     orElse (trim (AUTH_MAGIC_LINK_SECRET env)) (trim (NEXTAUTH_SECRET env))"

text \<open>
  \<open>getMagicLinkTTLMinutes\<close>; the setting is \<open>Some v\<close> when it is a whole number, \<open>None\<close> when
  it is unset or not a number.
\<close>

definition getMagicLinkTTLMinutes :: "auth_env \<Rightarrow> int" where
  "getMagicLinkTTLMinutes env =
     (case AUTH_MAGIC_LINK_EXPIRES_MINUTES env of
        None \<Rightarrow> 10
      | Some v \<Rightarrow> if v \<le> 0 then 10 else min 60 (max 5 v))"

definition digits :: string where
  "digits = ''0123456789''"

definition isDigit :: "char \<Rightarrow> bool" where
  "isDigit c = (c \<in> set digits)"

text \<open>\<open>String(value || "").replace(/\D/g, "").slice(0, 6)\<close>.\<close>

definition normalizeSignInCode :: "string \<Rightarrow> string" where
  "normalizeSignInCode v = take 6 (filter isDigit v)"

text \<open>
  \<open>getLoginCodeSlot({timestamp, ttlMinutes})\<close>, with \<open>timestamp\<close> the value of \<open>Date.now()\<close>
  the callers pass.
\<close>

definition getLoginCodeSlot :: "int \<Rightarrow> int \<Rightarrow> int" where
  "getLoginCodeSlot timestamp ttlMinutes =
     (let intervalMs = max 1 (if ttlMinutes = 0 then 10 else ttlMinutes) * 60 * 1000
      in timestamp div intervalMs)"

text \<open>\<open>String(n)\<close> for a natural number and for an integer.\<close>

fun showNat :: "nat \<Rightarrow> string" where
  "showNat n = (if n < 10 then [digits ! n] else showNat (n div 10) @ [digits ! (n mod 10)])"

declare showNat.simps [simp del]

definition showInt :: "int \<Rightarrow> string" where
  "showInt i = (if i < 0 then CHR ''-'' # showNat (nat (- i)) else showNat (nat i))"

text \<open>The number a string of decimal digits denotes.\<close>

definition digitVal :: "char \<Rightarrow> nat" where
  "digitVal c = length (takeWhile (\<lambda>d. d \<noteq> c) digits)"

definition readNat :: "string \<Rightarrow> nat" where
  "readNat s = foldl (\<lambda>a c. 10 * a + digitVal c) 0 s"

text \<open>\<open>s.padStart(6, "0")\<close>.\<close>

definition padStart6 :: "string \<Rightarrow> string" where
  "padStart6 s = replicate (6 - length s) CHR ''0'' @ s"

text \<open>\<open>digest.readUInt32BE(0)\<close>: the first four bytes of the 32-byte digest.\<close>

definition readUInt32BE0 :: "256 word \<Rightarrow> nat" where
  "readUInt32BE0 digest = unat (drop_bit 224 digest)"

definition computeLoginCode :: "node \<Rightarrow> string \<Rightarrow> string \<Rightarrow> int \<Rightarrow> string" where
  "computeLoginCode lib email secret slot =
     (let normalizedEmail = toLowerCase (trim email);
          base = normalizedEmail @ ''|'' @ showInt slot @ ''|renpay-login-code-v1'';
          digest = hmacSha256 lib secret base;
          number = readUInt32BE0 digest mod 1000000
      in padStart6 (showNat number))"

text \<open>
  The \<open>verify_login_code\<close> action up to the check of the code. \<open>CodeAccepted\<close> stands for
  the rest of the action (\<open>buildAuthSuccessResponse\<close> and the session cookie), which the
  handler enters only when the code is one of the two valid codes.
\<close>

datatype code_check = AuthError nat string | CodeAccepted string

definition verify_login_code :: "node \<Rightarrow> auth_env \<Rightarrow> int \<Rightarrow> string \<Rightarrow> string \<Rightarrow> code_check" where
  "verify_login_code lib env now email code =
     (let normalizedEmail = toLowerCase (trim email);
          normalizedCode = normalizeSignInCode code;
          secret = getMagicLinkSecret env;
          allowedEmails = getAllowedEmails env;
          ttlMinutes = getMagicLinkTTLMinutes env;
          currentSlot = getLoginCodeSlot now ttlMinutes;
          validCodes = [computeLoginCode lib normalizedEmail secret currentSlot,
                        computeLoginCode lib normalizedEmail secret (currentSlot - 1)]
      in if normalizedEmail = [] then AuthError 400 ''Missing required field: email''
         else if \<not> isValidEmail normalizedEmail then AuthError 400 ''Invalid email format''
         else if normalizedCode = [] \<or> length normalizedCode \<noteq> 6 then
           AuthError 400 ''Missing or invalid sign-in code''
         else if secret = [] then AuthError 500 ''AUTH_SECRET_MISSING''
         else if allowedEmails \<noteq> [] \<and> normalizedEmail \<notin> set allowedEmails then
           AuthError 403 ''EMAIL_NOT_ALLOWED''
         else if normalizedCode \<notin> set validCodes then AuthError 401 ''INVALID_SIGNIN_CODE''
         else CodeAccepted normalizedEmail)"

text \<open>Token codec.\<close>

definition signMagicToken :: "node \<Rightarrow> json \<Rightarrow> string \<Rightarrow> string" where
  "signMagicToken lib payloadObj secret =
     (let payload = bufferToBase64url lib (jsonStringify lib payloadObj);
          signature = digestBase64url lib (hmacSha256 lib secret payload)
      in payload @ ''.'' @ signature)"

text \<open>
  \<open>crypto.timingSafeEqual\<close> on the bytes of two ASCII strings: it throws (\<open>None\<close>) when the
  lengths differ and compares otherwise. Its running time is not part of the model.
\<close>

definition timingSafeEqual :: "string \<Rightarrow> string \<Rightarrow> bool option" where
  "timingSafeEqual a b = (if length a \<noteq> length b then None else Some (a = b))"

definition truthy :: "jvalue option \<Rightarrow> bool" where
  "truthy v =
     (case v of
        None \<Rightarrow> False
      | Some JNull \<Rightarrow> False
      | Some (JBool b) \<Rightarrow> b
      | Some (JNum n) \<Rightarrow> n \<noteq> 0
      | Some (JStr s) \<Rightarrow> s \<noteq> []
      | Some (JNested t) \<Rightarrow> True)"

text \<open>\<open>payload.name\<close>: \<open>None\<close> is \<open>undefined\<close>.\<close>

definition field :: "json \<Rightarrow> string \<Rightarrow> jvalue option" where
  "field payload name =
     (case payload of
        JObject fs \<Rightarrow> map_of fs name
      | _ \<Rightarrow> None)"

text \<open>\<open>Number(v)\<close>; \<open>None\<close> is \<open>NaN\<close>.\<close>

definition toNumber :: "node \<Rightarrow> jvalue option \<Rightarrow> int option" where
  "toNumber lib v =
     (case v of
        None \<Rightarrow> None
      | Some JNull \<Rightarrow> Some 0
      | Some (JBool b) \<Rightarrow> Some (if b then 1 else 0)
      | Some (JNum n) \<Rightarrow> Some n
      | Some (JStr s) \<Rightarrow> stringToNumber lib s
      | Some (JNested t) \<Rightarrow> nestedToNumber lib t)"

text \<open>\<open>payload && typeof payload === "object"\<close>: an object or an array.\<close>

fun isObject :: "json \<Rightarrow> bool" where
  "isObject (JObject fs) = True"
| "isObject (JOther (JNested t)) = True"
| "isObject (JOther v) = False"

text \<open>\<open>!payload || typeof payload !== "object" || !payload.email || !payload.exp\<close>.\<close>

definition incomplete :: "json \<Rightarrow> bool" where
  "incomplete payload =
     (\<not> isObject payload
      \<or> \<not> truthy (field payload ''email'') \<or> \<not> truthy (field payload ''exp''))"

datatype verify_result = Valid json | Invalid string

text \<open>
  \<open>verifyMagicToken\<close>; \<open>now\<close> is \<open>Date.now()\<close>. The result is \<open>None\<close> when
  \<open>timingSafeEqual\<close> throws.
\<close>

definition verifyMagicToken :: "node \<Rightarrow> nat \<Rightarrow> string \<Rightarrow> string \<Rightarrow> verify_result option" where
  "verifyMagicToken lib now token secret =
     (if token = [] then Some (Invalid ''Missing token'')
      else (case splitOn CHR ''.'' token of
              [payloadPart, signaturePart] \<Rightarrow>
                (let expectedSignature = digestBase64url lib (hmacSha256 lib secret payloadPart)
                 in if length signaturePart \<noteq> length expectedSignature then
                      Some (Invalid ''Invalid token signature'')
                    else (case timingSafeEqual signaturePart expectedSignature of
                            None \<Rightarrow> None
                          | Some False \<Rightarrow> Some (Invalid ''Invalid token signature'')
                          | Some True \<Rightarrow>
                              (case jsonParse lib (bufferFromBase64url lib payloadPart) of
                                 None \<Rightarrow> Some (Invalid ''Invalid token payload'')
                               | Some payload \<Rightarrow>
                                   if incomplete payload then
                                     Some (Invalid ''Incomplete token payload'')
                                   else if (case toNumber lib (field payload ''exp'') of
                                              None \<Rightarrow> False
                                            | Some e \<Rightarrow> e < int now) then
                                     Some (Invalid ''Token expired'')
                                   else Some (Valid payload))))
            | _ \<Rightarrow> Some (Invalid ''Invalid token format'')))"

section \<open>Notions used to state the properties\<close>

text \<open>The expiry dates of the active rows of a user.\<close>

definition activeExpiries :: "db \<Rightarrow> nat \<Rightarrow> int set" where
  "activeExpiries d userId =
     set (map sub_expiresAt
       (filter (\<lambda>s. sub_userId s = userId \<and> sub_status s = ''active'') (db_subscriptions d)))"

text \<open>
  How a request may change the invite table: rows keep their position and identifier, a
  rewarded row stays rewarded, and an added row has an identifier that was not in use.
\<close>

definition invitesEvolve :: "referralInvite list \<Rightarrow> referralInvite list \<Rightarrow> bool" where
  "invitesEvolve invs invs' \<longleftrightarrow>
     length invs \<le> length invs'
     \<and> (\<forall>i < length invs. inv_id (invs' ! i) = inv_id (invs ! i)
            \<and> (inv_status (invs ! i) = ''REWARDED'' \<longrightarrow> inv_status (invs' ! i) = ''REWARDED''))
     \<and> (\<forall>i. length invs \<le> i \<and> i < length invs' \<longrightarrow> inv_id (invs' ! i) \<notin> set (map inv_id invs))"

text \<open>There is a row with identifier \<open>rid\<close> and every such row is rewarded.\<close>

definition settled :: "nat \<Rightarrow> referralInvite list \<Rightarrow> bool" where
  "settled rid invs \<longleftrightarrow>
     rid \<in> set (map inv_id invs)
     \<and> list_all (\<lambda>i. inv_id i \<noteq> rid \<or> inv_status i = ''REWARDED'') invs"



text \<open>
  The checks of \<open>verify_login_code\<close> that do not depend on the submitted code: the email is
  present and well formed, a secret is configured, and the allow-list is empty or holds the
  email.
\<close>

definition signInOpen :: "auth_env \<Rightarrow> string \<Rightarrow> bool" where
  "signInOpen env email =
     (let e = toLowerCase (trim email); allowed = getAllowedEmails env
      in e \<noteq> [] \<and> isValidEmail e \<and> getMagicLinkSecret env \<noteq> []
         \<and> (allowed = [] \<or> e \<in> set allowed))"

text \<open>The slot \<open>N\<close> of a request handled at time \<open>now\<close>, and the code of a slot.\<close>

definition currentSlot :: "auth_env \<Rightarrow> int \<Rightarrow> int" where
  "currentSlot env now = getLoginCodeSlot now (getMagicLinkTTLMinutes env)"

definition slotCode :: "node \<Rightarrow> auth_env \<Rightarrow> string \<Rightarrow> int \<Rightarrow> string" where
  "slotCode lib env email slot = computeLoginCode lib email (getMagicLinkSecret env) slot"

text \<open>
  The number of the specification: the first four bytes of the 32-byte digest, most
  significant first, modulo 1,000,000.
\<close>

definition codeNumber_spec :: "node \<Rightarrow> string \<Rightarrow> string \<Rightarrow> int \<Rightarrow> nat" where
  "codeNumber_spec lib email secret slot =
     unat (hmacSha256 lib secret
             (toLowerCase (trim email) @ ''|'' @ showInt slot @ ''|renpay-login-code-v1''))
       div 2 ^ 224 mod 1000000"


text \<open>The signature \<open>verifyMagicToken\<close> recomputes for a payload part.\<close>

definition expectedSignature :: "node \<Rightarrow> string \<Rightarrow> string \<Rightarrow> string" where
  "expectedSignature lib secret payloadPart = digestBase64url lib (hmacSha256 lib secret payloadPart)"

text \<open>\<open>Number(payload.exp) < now\<close>.\<close>

definition expired :: "node \<Rightarrow> nat \<Rightarrow> json \<Rightarrow> bool" where
  "expired lib now payload =
     (case toNumber lib (field payload ''exp'') of
        None \<Rightarrow> False
      | Some e \<Rightarrow> e < int now)"

section \<open>Concrete rows used to exercise the theorems\<close>

definition subA :: subscription where
  "subA = \<lparr>sub_id = 1, sub_userId = 7, sub_plan = ''personal_monthly'', sub_status = ''active'',
              sub_gateway = ''PAYPAL'', sub_gatewaySubscriptionId = Some ''I-1'',
              sub_startedAt = 100, sub_nextBillingAt = Some 2000, sub_expiresAt = 2000,
              sub_createdAt = 100\<rparr>"

definition subB :: subscription where
  "subB = \<lparr>sub_id = 2, sub_userId = 7, sub_plan = ''personal_referral_bonus'',
              sub_status = ''active'', sub_gateway = ''REFERRAL'',
              sub_gatewaySubscriptionId = None,
              sub_startedAt = 50, sub_nextBillingAt = Some 1000, sub_expiresAt = 1000,
              sub_createdAt = 50\<rparr>"


definition demoWorld :: world where
  "demoWorld =
     \<lparr>PAYPAL_PLAN_ID_BUSINESS_ANNUAL = ''P-BA'', PAYPAL_PLAN_ID_BUSINESS_MONTHLY = ''BM'',
      PAYPAL_PLAN_ID_PERSONAL_ANNUAL = [], PAYPAL_PLAN_ID_ANNUAL = ''P-PA'',
      PAYPAL_PLAN_ID_PERSONAL_MONTHLY = ''P-PM'', PAYPAL_PLAN_ID_MONTHLY = [],
      fetchPayPalSubscription = (\<lambda>gid. if gid = ''I-NEW'' then
         Some \<lparr>pp_status = ''ACTIVE'', pp_plan_id = ''P-BM'', pp_start_time = Some 5000,
               pp_next_billing_time = None\<rparr> else None),
      dateSetMonthPlus = (\<lambda>t m. t + m * 30 * msPerDay),
      notMatchesNull = False\<rparr>"

definition demoDb :: db where
  "demoDb =
     \<lparr>db_users = [\<lparr>user_id = 7, user_email = ''ann@x.com'', user_name = ''ann''\<rparr>,
                  \<lparr>user_id = 8, user_email = ''bob@x.com'', user_name = ''bob''\<rparr>],
      db_subscriptions = [subA, subB],
      db_invites = [\<lparr>inv_id = 1, inv_referrerUserId = 8, inv_inviteeEmail = ''ann@x.com'',
                     inv_inviteeUserId = None, inv_status = ''PENDING'', inv_rewardedAt = None,
                     inv_createdAt = 10, inv_referralCode = ''c0ffee''\<rparr>],
      db_orders = [\<lparr>ord_userId = 7, ord_createdAt = 4000\<rparr>],
      db_profiles = []\<rparr>"

definition demoReq :: activate_req where
  "demoReq = \<lparr>req_email = ''Ann@x.com'', req_plan = [], req_paypalSubscriptionId = ''I-NEW'',
              req_tier = ''business'', req_billingCycle = ''monthly''\<rparr>"

definition demoAnn :: user where
  "demoAnn = \<lparr>user_id = 7, user_email = ''ann@x.com'', user_name = ''ann''\<rparr>"

definition demoInvite :: referralInvite where
  "demoInvite = \<lparr>inv_id = 1, inv_referrerUserId = 8, inv_inviteeEmail = ''ann@x.com'',
                     inv_inviteeUserId = None, inv_status = ''PENDING'', inv_rewardedAt = None,
                     inv_createdAt = 10, inv_referralCode = ''c0ffee''\<rparr>"


definition demoReward :: referral_reward where
  "demoReward = \<lparr>rr_inviteId = 1, rr_referrerUserId = 8, rr_inviteeUserId = Some 7,
                  rr_rewardedAt = Some 1500\<rparr>"

definition demoDb1 :: db where
  "demoDb1 = snd (applyReferralReward demoWorld demoDb demoAnn 1500)"

definition demoLater :: "(int \<times> request) list" where
  "demoLater = [(1600, Invite ''beef'' ''cid@x.com'' ''Ann@x.com ''),
                (1650, GetSubscriptions ''ann@x.com'')]"




definition demoProfile :: clientProfile where
  "demoProfile = \<lparr>cp_id = 1, cp_userId = 7, cp_clientId = ''C-1'',
                   cp_clientEmail = ''Client@Y.com'', cp_clientName = Some ''Cli''\<rparr>"

definition demoView :: profile_view where
  "demoView = \<lparr>pv_id = 1, pv_clientId = ''C-2'', pv_clientEmail = ''client@y.com'',
                pv_clientName = ''Cli''\<rparr>"

definition demoDbP :: db where
  "demoDbP = demoDb\<lparr>db_profiles := [demoProfile,
       \<lparr>cp_id = 2, cp_userId = 8, cp_clientId = ''C-2'', cp_clientEmail = ''client@y.com'',
        cp_clientName = None\<rparr>]\<rparr>"

definition demoPost :: profile_req where
  "demoPost = \<lparr>preq_email = '' Ann@X.com'', preq_clientId = '' C-2 '',
               preq_clientEmail = ''client@y.com'', preq_clientName = []\<rparr>"



text \<open>A stand-in for the runtime library, and an environment.\<close>

definition stubSum :: "string \<Rightarrow> string \<Rightarrow> nat" where
  "stubSum key msg = foldl (\<lambda>a c. a + of_char c) (length key) msg"

definition stubDigest :: "string \<Rightarrow> string \<Rightarrow> 256 word" where
  "stubDigest key msg = push_bit 224 (word_of_nat (stubSum key msg))"

definition stubPayload :: json where
  "stubPayload = JObject [(''email'', JStr ''ann@x.com''), (''iat'', JNum 1000),
                          (''exp'', JNum 601000), (''nonce'', JStr ''ab12'')]"

definition stubNode :: node where
  "stubNode =
     \<lparr>hmacSha256 = stubDigest,
      digestBase64url = (\<lambda>d. showNat (readUInt32BE0 d)),
      bufferToBase64url = (\<lambda>s. ''b64'' @ s),
      bufferFromBase64url = (\<lambda>s. drop 3 s),
      jsonStringify = (\<lambda>j. if j = stubPayload then ''payload-1'' else ''other''),
      jsonParse = (\<lambda>s. if s = ''payload-1'' then Some stubPayload
                       else if s = ''payload-2'' then Some (JObject [(''exp'', JNum 601000)])
                       else None),
      stringToNumber = (\<lambda>s. None),
      nestedToNumber = (\<lambda>s. None)\<rparr>"

definition stubEnv :: auth_env where
  "stubEnv = \<lparr>AUTH_MAGIC_LINK_SECRET = '' s3cret '', NEXTAUTH_SECRET = [],
              AUTH_ALLOWED_EMAILS = ''Ann@x.com, bob@x.com'',
              AUTH_MAGIC_LINK_EXPIRES_MINUTES = None\<rparr>"


section \<open>Facts about strings\<close>

lemma startsWith_iff: "startsWith s w \<longleftrightarrow> (\<exists>ss. s = w @ ss)"
  by (induction s w rule: startsWith.induct) auto

lemma includes_iff: "str_includes s w \<longleftrightarrow> (\<exists>ps ss. s = ps @ w @ ss)"
proof (induction s)
  case Nil
  then show ?case by auto
next
  case (Cons c cs)
  show ?case
  proof
    assume "str_includes (c # cs) w"
    then consider "startsWith (c # cs) w" | "str_includes cs w" by auto
    then show "\<exists>ps ss. c # cs = ps @ w @ ss"
    proof cases
      case 1
      then obtain ss where "c # cs = w @ ss" by (auto simp: startsWith_iff)
      then have "c # cs = [] @ w @ ss" by simp
      then show ?thesis by blast
    next
      case 2
      then obtain ps ss where "cs = ps @ w @ ss" using Cons.IH by blast
      then have "c # cs = (c # ps) @ w @ ss" by simp
      then show ?thesis by blast
    qed
  next
    assume "\<exists>ps ss. c # cs = ps @ w @ ss"
    then obtain ps ss where eq: "c # cs = ps @ w @ ss" by blast
    show "str_includes (c # cs) w"
    proof (cases ps)
      case Nil
      with eq have "startsWith (c # cs) w" by (auto simp: startsWith_iff)
      then show ?thesis by simp
    next
      case (Cons p ps')
      with eq have "cs = ps' @ w @ ss" by simp
      then have "str_includes cs w" using Cons.IH by blast
      then show ?thesis by simp
    qed
  qed
qed

lemma lowerChar_space: "isSpace (lowerChar c) = isSpace c"
  by (auto simp: lowerChar_def isSpace_def upperLetters_def lowerLetters_def split: if_splits)

lemma upperChar_space: "isSpace (upperChar c) = isSpace c"
  by (auto simp: upperChar_def isSpace_def upperLetters_def lowerLetters_def split: if_splits)

lemma lowerChar_upperChar: "lowerChar (upperChar c) = lowerChar c"
  by (auto simp: upperChar_def lowerChar_def upperLetters_def lowerLetters_def split: if_splits)

lemma toLowerCase_toUpperCase: "toLowerCase (toUpperCase s) = toLowerCase s"
  by (simp add: toLowerCase_def toUpperCase_def lowerChar_upperChar)

lemma toLowerCase_trim: "toLowerCase (trim s) = trim (toLowerCase s)"
proof -
  have comp: "isSpace \<circ> lowerChar = isSpace" by (auto simp: lowerChar_space)
  show ?thesis
    by (simp add: toLowerCase_def trim_def rev_map dropWhile_map comp)
qed

lemma includes_dropWhile:
  assumes "w \<noteq> []" and "\<not> isSpace (hd w)"
  shows "str_includes (dropWhile isSpace t) w \<longleftrightarrow> str_includes t w"
  using assms
proof (induction t)
  case Nil
  then show ?case by simp
next
  case (Cons c cs)
  then show ?case by (cases w) auto
qed

lemma includes_rev: "str_includes (rev t) (rev w) \<longleftrightarrow> str_includes t w"
proof -
  have "(\<exists>ps ss. rev t = ps @ rev w @ ss) \<longleftrightarrow> (\<exists>ps ss. t = ps @ w @ ss)"
  proof
    assume "\<exists>ps ss. rev t = ps @ rev w @ ss"
    then obtain ps ss where "rev t = ps @ rev w @ ss" by blast
    then have "rev (rev t) = rev (ps @ rev w @ ss)" by simp
    then have "t = rev ss @ w @ rev ps" by simp
    then show "\<exists>ps ss. t = ps @ w @ ss" by blast
  next
    assume "\<exists>ps ss. t = ps @ w @ ss"
    then obtain ps ss where "t = ps @ w @ ss" by blast
    then have "rev t = rev ss @ rev w @ rev ps" by simp
    then show "\<exists>ps ss. rev t = ps @ rev w @ ss" by blast
  qed
  then show ?thesis by (simp add: includes_iff)
qed

lemma includes_trim:
  assumes "w \<noteq> []" and "\<not> isSpace (hd w)" and "\<not> isSpace (last w)"
  shows "str_includes (trim t) w \<longleftrightarrow> str_includes t w"
proof -
  have rw: "rev w \<noteq> []" "\<not> isSpace (hd (rev w))"
    using assms by (simp_all add: hd_rev)
  have "str_includes (trim t) w
        \<longleftrightarrow> str_includes (dropWhile isSpace (rev (dropWhile isSpace t))) (rev w)"
    unfolding trim_def using includes_rev [of "dropWhile isSpace (rev (dropWhile isSpace t))" "rev w"]
    by simp
  also have "\<dots> \<longleftrightarrow> str_includes (rev (dropWhile isSpace t)) (rev w)"
    using includes_dropWhile [OF rw] .
  also have "\<dots> \<longleftrightarrow> str_includes (dropWhile isSpace t) w"
    by (rule includes_rev)
  also have "\<dots> \<longleftrightarrow> str_includes t w"
    using includes_dropWhile [OF assms(1,2)] .
  finally show ?thesis .
qed


lemma getTierFromPlan_range:
  "getTierFromPlan p = ''business'' \<or> getTierFromPlan p = ''personal'' \<or> getTierFromPlan p = ''free''"
  by (simp add: getTierFromPlan_def Let_def)

lemma getTierRank_inj:
  "getTierRank (getTierFromPlan p) = getTierRank (getTierFromPlan q)
   \<Longrightarrow> getTierFromPlan p = getTierFromPlan q"
  using getTierFromPlan_range [of p] getTierFromPlan_range [of q]
  by (auto simp: getTierRank_def split: if_splits)

lemma selectStep_pick: "selectStep (Some a) s = Some (pickWinner a s)"
  by (simp add: pickWinner_def subRank_def Let_def)

lemma foldl_selectStep: "foldl selectStep (Some a) xs = Some (foldl pickWinner a xs)"
  by (induction xs arbitrary: a) (simp_all add: selectStep_pick del: selectStep.simps)

lemma authSelectStep_pick:
  "authSelectStep (getTierFromPlan (sub_plan a), Some a) s =
     (getTierFromPlan (sub_plan (pickWinner a s)), Some (pickWinner a s))"
  using getTierRank_inj [of "sub_plan s" "sub_plan a"]
  by (auto simp: pickWinner_def subRank_def Let_def)

lemma foldl_authSelectStep:
  "foldl authSelectStep (getTierFromPlan (sub_plan a), Some a) xs =
     (getTierFromPlan (sub_plan (foldl pickWinner a xs)), Some (foldl pickWinner a xs))"
  by (induction xs arbitrary: a) (simp_all add: authSelectStep_pick del: authSelectStep.simps)

lemmas str_eval = toLowerCase_def toUpperCase_def lowerChar_def upperChar_def
  upperLetters_def lowerLetters_def trim_def isSpace_def

lemmas plan_eval = getTierFromPlan_def normalizePlan_def getTierRank_def


section \<open>Facts about the ORM helpers\<close>

lemma freshId_greater: "x \<in> set ids \<Longrightarrow> x < freshId ids"
  by (induction ids) (auto simp: freshId_def)

lemma freshId_notin: "freshId ids \<notin> set ids"
  using freshId_greater [of "freshId ids" ids] by auto

lemma firstRow_None: "firstRow rows = None \<longleftrightarrow> rows = []"
  by (cases rows) (simp_all add: firstRow_def)

lemma firstRow_orderByAsc_None: "firstRow (orderByAsc key rows) = None \<longleftrightarrow> rows = []"
proof -
  have "orderByAsc key rows = [] \<longleftrightarrow> rows = []"
    unfolding orderByAsc_def by (metis length_0_conv length_sort)
  then show ?thesis by (simp add: firstRow_None)
qed

lemma firstRow_orderByDesc_None: "firstRow (orderByDesc key rows) = None \<longleftrightarrow> rows = []"
proof -
  have "orderByDesc key rows = [] \<longleftrightarrow> rows = []"
    unfolding orderByDesc_def by (metis length_0_conv length_sort)
  then show ?thesis by (simp add: firstRow_None)
qed

lemma firstRow_sort_key:
  assumes "firstRow (sort_key f rows) = Some r"
  shows "r \<in> set rows \<and> (\<forall>x \<in> set rows. f r \<le> f x)"
proof -
  obtain rest where eq: "sort_key f rows = r # rest"
    using assms by (cases "sort_key f rows") (simp_all add: firstRow_def)
  have "set (sort_key f rows) = set rows" by simp
  with eq have mem: "r \<in> set rows" and sub: "set rows = insert r (set rest)"
    by auto
  have "sorted (map f (sort_key f rows))" by (rule sorted_sort_key)
  with eq have "\<forall>y \<in> set rest. f r \<le> f y" by simp
  with sub have "\<forall>x \<in> set rows. f r \<le> f x" by auto
  with mem show ?thesis by simp
qed

lemma firstRow_orderByAsc:
  "firstRow (orderByAsc key rows) = Some r \<Longrightarrow> r \<in> set rows \<and> (\<forall>x \<in> set rows. key r \<le> key x)"
  unfolding orderByAsc_def by (rule firstRow_sort_key)

lemma firstRow_orderByDesc:
  "firstRow (orderByDesc key rows) = Some r \<Longrightarrow> r \<in> set rows \<and> (\<forall>x \<in> set rows. key x \<le> key r)"
  unfolding orderByDesc_def using firstRow_sort_key [of "\<lambda>r. - key r" rows r] by simp

section \<open>Facts about the referral reward\<close>

lemma getUserAccessEnd_Max:
  "getUserAccessEnd d userId now = Max (insert now (activeExpiries d userId))"
proof -
  let ?P = "\<lambda>s. sub_userId s = userId \<and> sub_status s = ''active'' \<and> sub_expiresAt s > now"
  let ?rows = "filter ?P (db_subscriptions d)"
  have fin: "finite (activeExpiries d userId)" by (simp add: activeExpiries_def)
  show ?thesis
  proof (cases "firstRow (orderByDesc sub_expiresAt ?rows)")
    case None
    then have "?rows = []" by (simp add: firstRow_orderByDesc_None)
    then have "\<forall>s \<in> set (db_subscriptions d). \<not> ?P s" by (simp add: filter_empty_conv)
    then have "\<forall>e \<in> activeExpiries d userId. e \<le> now"
      by (fastforce simp: activeExpiries_def)
    then have "Max (insert now (activeExpiries d userId)) = now"
      using fin by (intro Max_eqI) auto
    with None show ?thesis by (simp add: getUserAccessEnd_def)
  next
    case (Some r)
    from firstRow_orderByDesc [OF Some]
    have r: "r \<in> set ?rows" and mx: "\<forall>x \<in> set ?rows. sub_expiresAt x \<le> sub_expiresAt r"
      by blast+
    from r have rP: "?P r" and rin: "r \<in> set (db_subscriptions d)" by auto
    have "Max (insert now (activeExpiries d userId)) = sub_expiresAt r"
    proof (intro Max_eqI)
      show "finite (insert now (activeExpiries d userId))" using fin by simp
      show "sub_expiresAt r \<in> insert now (activeExpiries d userId)"
        using rP rin by (auto simp: activeExpiries_def)
      fix y assume "y \<in> insert now (activeExpiries d userId)"
      then consider "y = now" | s where "s \<in> set (db_subscriptions d)" "sub_userId s = userId"
          "sub_status s = ''active''" "y = sub_expiresAt s"
        by (auto simp: activeExpiries_def)
      then show "y \<le> sub_expiresAt r"
      proof cases
        case 1
        then show ?thesis using rP by simp
      next
        case 2
        show ?thesis
        proof (cases "sub_expiresAt s > now")
          case True
          with 2 have "s \<in> set ?rows" by simp
          with mx 2 show ?thesis by blast
        next
          case False
          with rP 2 show ?thesis by simp
        qed
      qed
    qed
    with Some rP show ?thesis by (simp add: getUserAccessEnd_def)
  qed
qed

lemma activeExpiries_other:
  "sub_userId row \<noteq> userId \<Longrightarrow>
   activeExpiries (d\<lparr>db_subscriptions := db_subscriptions d @ [row]\<rparr>) userId = activeExpiries d userId"
  by (auto simp: activeExpiries_def)

lemma createBonus_invites [simp]:
  "db_invites (snd (createReferralBonusSubscription w d uid now)) = db_invites d"
  by (simp add: createReferralBonusSubscription_def Let_def)

lemma applyReferralReward_invites:
  "db_invites (snd (applyReferralReward w d u now)) =
     (case firstRow (orderByAsc inv_createdAt (filter (inviteOpenFor (user_email u)) (db_invites d))) of
        None \<Rightarrow> db_invites d
      | Some invite \<Rightarrow>
          updateWhere (\<lambda>i. inv_id i = inv_id invite) (markRewarded (user_id u) now) (db_invites d))"
  by (simp add: applyReferralReward_def Let_def split: option.splits)

lemma apply_noop:
  assumes "\<not> list_ex (inviteOpenFor (user_email u)) (db_invites d)"
  shows "applyReferralReward w d u now = (None, d)"
proof -
  from assms have "filter (inviteOpenFor (user_email u)) (db_invites d) = []"
    by (simp add: list_ex_iff filter_empty_conv)
  then show ?thesis
    by (simp add: applyReferralReward_def orderByAsc_def firstRow_def)
qed

lemma apply_Some_chosen:
  assumes "applyReferralReward w d u now = (Some r, d1)"
  shows "\<exists>invite. invite \<in> set (db_invites d) \<and> inviteOpenFor (user_email u) invite
           \<and> rr_inviteId r = inv_id invite
           \<and> db_invites d1 = updateWhere (\<lambda>i. inv_id i = inv_id invite)
                 (markRewarded (user_id u) now) (db_invites d)"
proof (cases "firstRow (orderByAsc inv_createdAt
                (filter (inviteOpenFor (user_email u)) (db_invites d)))")
  case None
  with assms show ?thesis by (simp add: applyReferralReward_def)
next
  case (Some invite)
  from firstRow_orderByAsc [OF Some]
  have "invite \<in> set (db_invites d)" "inviteOpenFor (user_email u) invite" by auto
  moreover from assms Some have "rr_inviteId r = inv_id invite"
    by (auto simp: applyReferralReward_def Let_def markRewarded_def)
  moreover from Some have "db_invites (snd (applyReferralReward w d u now)) =
      updateWhere (\<lambda>i. inv_id i = inv_id invite) (markRewarded (user_id u) now) (db_invites d)"
    by (simp add: applyReferralReward_invites)
  ultimately show ?thesis using assms by auto
qed

section \<open>Facts about the invite table\<close>

lemma invitesEvolve_refl: "invitesEvolve invs invs"
  by (simp add: invitesEvolve_def)

lemma invitesEvolve_ids:
  assumes "invitesEvolve a b"
  shows "set (map inv_id a) \<subseteq> set (map inv_id b)"
proof
  fix x assume "x \<in> set (map inv_id a)"
  then obtain i where i: "i < length a" "x = inv_id (a ! i)"
    by (auto simp: in_set_conv_nth)
  with assms have "i < length b" "inv_id (b ! i) = x"
    by (auto simp: invitesEvolve_def)
  then show "x \<in> set (map inv_id b)"
    by (metis length_map nth_map nth_mem)
qed

lemma invitesEvolve_trans:
  assumes ab: "invitesEvolve a b" and bc: "invitesEvolve b c"
  shows "invitesEvolve a c"
proof -
  have len: "length a \<le> length b" "length b \<le> length c"
    using ab bc by (auto simp: invitesEvolve_def)
  have pos: "inv_id (c ! i) = inv_id (a ! i)
      \<and> (inv_status (a ! i) = ''REWARDED'' \<longrightarrow> inv_status (c ! i) = ''REWARDED'')"
    if "i < length a" for i
  proof -
    from that len have "i < length b" by simp
    with ab bc that show ?thesis by (simp add: invitesEvolve_def)
  qed
  have new: "inv_id (c ! i) \<notin> set (map inv_id a)" if "length a \<le> i" "i < length c" for i
  proof (cases "i < length b")
    case True
    with bc have "inv_id (c ! i) = inv_id (b ! i)" by (simp add: invitesEvolve_def)
    moreover from ab that True have "inv_id (b ! i) \<notin> set (map inv_id a)"
      by (simp add: invitesEvolve_def)
    ultimately show ?thesis by simp
  next
    case False
    with bc that have "inv_id (c ! i) \<notin> set (map inv_id b)" by (simp add: invitesEvolve_def)
    with invitesEvolve_ids [OF ab] show ?thesis by blast
  qed
  from len pos new show ?thesis unfolding invitesEvolve_def by auto
qed

lemma invitesEvolve_update:
  "invitesEvolve invs (updateWhere P (markRewarded uid now) invs)"
  by (simp add: invitesEvolve_def updateWhere_def markRewarded_def)

lemma invitesEvolve_append:
  "inv_id new \<notin> set (map inv_id invs) \<Longrightarrow> invitesEvolve invs (invs @ [new])"
  by (auto simp: invitesEvolve_def nth_append less_Suc_eq)

lemma applyReferralReward_evolve:
  "invitesEvolve (db_invites d) (db_invites (snd (applyReferralReward w d u now)))"
  by (simp add: applyReferralReward_invites invitesEvolve_refl invitesEvolve_update
      split: option.splits)

lemma getOrCreateUser_tables:
  "getOrCreateUserByEmail d e = Some (usr, d0) \<Longrightarrow>
     db_invites d0 = db_invites d \<and> db_subscriptions d0 = db_subscriptions d
     \<and> db_profiles d0 = db_profiles d \<and> db_orders d0 = db_orders d"
  by (auto simp: getOrCreateUserByEmail_def Let_def split: if_splits option.splits)

lemma syncPayPal_invites:
  "syncPayPalSubscription w d s = Some d' \<Longrightarrow> db_invites d' = db_invites d"
  by (auto simp: syncPayPalSubscription_def Let_def split: option.splits if_splits)

lemma syncAll_invites: "db_invites (syncAll w d subs) = db_invites d"
proof -
  have "db_invites (foldl (\<lambda>d' s. case syncPayPalSubscription w d' s of None \<Rightarrow> d' | Some d'' \<Rightarrow> d'')
           d subs) = db_invites d"
    by (induction subs arbitrary: d) (auto simp: syncPayPal_invites split: option.splits)
  then show ?thesis by (simp add: syncAll_def)
qed

lemma buildPlanState_invites:
  "db_invites (snd (buildPlanStateForUser w now d uid)) = db_invites d"
  by (simp add: buildPlanStateForUser_def Let_def syncAll_invites)

lemma handleGet_invites:
  "db_invites (snd (subscriptions_handleGet w now e d)) = db_invites d"
proof -
  have "db_invites (snd (case buildPlanStateForUser w now d uid of
            (planState, d') \<Rightarrow> ((200::nat, PlanStateBody (ps_subscription planState) (ps_tier planState)
                             (ps_planFeatures planState) (ps_usage planState)), d'))) = db_invites d"
    for uid using buildPlanState_invites [of w now d uid]
    by (cases "buildPlanStateForUser w now d uid") simp
  then show ?thesis
    by (simp add: subscriptions_handleGet_def Let_def split: option.splits)
qed

lemma handleCancel_invites:
  "db_invites (snd (handleCancelSubscription now e d)) = db_invites d"
  by (simp add: handleCancelSubscription_def Let_def split: option.splits)

lemma handleCreateInternal_invites:
  "db_invites (snd (handleCreateInternal w now req d)) = db_invites d"
proof -
  have "db_invites d0 = db_invites d" if "getOrCreateUserByEmail d e = Some (usr, d0)"
    for e usr d0 using getOrCreateUser_tables [OF that] by simp
  then show ?thesis
    by (simp add: handleCreateInternal_def Let_def split: option.splits)
qed

lemma rewardIfActive_evolve:
  "invitesEvolve (db_invites d) (db_invites (snd (rewardIfActive w d usr now s)))"
  by (simp add: rewardIfActive_def applyReferralReward_evolve invitesEvolve_refl)

lemma activateTx_evolve:
  "invitesEvolve (db_invites d)
     (db_invites (snd (activateTx w now usr pid planName localStatus startedAt nextBillingAt d)))"
proof -
  have "invitesEvolve (db_invites d)
      (db_invites (snd (rewardIfActive w (d\<lparr>db_subscriptions := x\<rparr>) usr now s)))" for x s
    using rewardIfActive_evolve [of "d\<lparr>db_subscriptions := x\<rparr>" w usr now s] by simp
  then show ?thesis by (simp add: activateTx_def Let_def)
qed

lemma activateFetched_evolve:
  "invitesEvolve (db_invites d0)
     (db_invites (snd (activateFetched w now parsed cfg pid usr details d0)))"
  by (simp add: activateFetched_def Let_def activateTx_evolve invitesEvolve_refl)

lemma handleActivate_evolve:
  "invitesEvolve (db_invites d) (db_invites (snd (handleActivatePayPal w now req d)))"
proof -
  have "invitesEvolve (db_invites d)
      (db_invites (snd (activateFetched w now parsed cfg pid usr details d0)))"
    if "getOrCreateUserByEmail d e = Some (usr, d0)" for e usr d0 parsed cfg pid details
    using activateFetched_evolve [of d0] getOrCreateUser_tables [OF that] by simp
  moreover have "db_invites d0 = db_invites d" if "getOrCreateUserByEmail d e = Some (usr, d0)"
    for e usr d0 using getOrCreateUser_tables [OF that] by simp
  ultimately show ?thesis
    by (simp add: handleActivatePayPal_def Let_def invitesEvolve_refl split: option.splits)
qed

lemma handleInvite_evolve:
  "invitesEvolve (db_invites d) (db_invites (snd (handleInvite c now r i d)))"
proof -
  have eq: "db_invites d0 = db_invites d" if "getOrCreateUserByEmail d e = Some (usr, d0)"
    for e usr d0 using getOrCreateUser_tables [OF that] by simp
  have fresh: "freshId (map inv_id (db_invites d)) \<notin> inv_id ` set (db_invites d)"
    using freshId_notin [of "map inv_id (db_invites d)"] by simp
  show ?thesis
    unfolding handleInvite_def Let_def
    by (auto simp: eq invitesEvolve_refl fresh intro!: invitesEvolve_append
        split: option.splits)
qed

lemma step_evolve: "invitesEvolve (db_invites d) (db_invites (step w now r d))"
  by (cases r)
     (simp_all add: handleGet_invites handleCancel_invites handleCreateInternal_invites
        handleActivate_evolve handleInvite_evolve invitesEvolve_refl)

lemma run_evolve: "invitesEvolve (db_invites d) (db_invites (run w rs d))"
proof (induction rs arbitrary: d)
  case Nil
  then show ?case by (simp add: invitesEvolve_refl)
next
  case (Cons a rs)
  obtain now r where a: "a = (now, r)" by (cases a)
  show ?case
    unfolding a using invitesEvolve_trans [OF step_evolve Cons.IH] by simp
qed

lemma lowerChar_range: "lowerChar c \<in> set lowerLetters \<or> lowerChar c = c"
proof (cases "map_of (zip upperLetters lowerLetters) c")
  case None
  then show ?thesis by (simp add: lowerChar_def)
next
  case (Some e)
  then have "(c, e) \<in> set (zip upperLetters lowerLetters)" by (rule map_of_SomeD)
  then have "e \<in> set lowerLetters" by (rule set_zip_rightD)
  with Some show ?thesis by (simp add: lowerChar_def)
qed

lemma lowerChar_fixed: "c \<notin> set upperLetters \<Longrightarrow> lowerChar c = c"
proof -
  assume "c \<notin> set upperLetters"
  then have "c \<notin> fst ` set (zip upperLetters lowerLetters)"
    by (auto dest: set_zip_leftD)
  then have "map_of (zip upperLetters lowerLetters) c = None"
    by (simp add: map_of_eq_None_iff)
  then show ?thesis by (simp add: lowerChar_def)
qed

lemma lower_not_upper: "c \<in> set lowerLetters \<Longrightarrow> c \<notin> set upperLetters"
  by (auto simp: lowerLetters_def upperLetters_def)

lemma lowerChar_idem: "lowerChar (lowerChar c) = lowerChar c"
  using lowerChar_range [of c] lowerChar_fixed lower_not_upper
  by metis

lemma toLowerCase_idem: "toLowerCase (toLowerCase s) = toLowerCase s"
  by (simp add: toLowerCase_def lowerChar_idem)

lemma dropWhile_fixed: "xs = [] \<or> \<not> P (hd xs) \<Longrightarrow> dropWhile P xs = xs"
  by (cases xs) auto

lemma trim_idem: "trim (trim s) = trim s"
proof -
  define t where "t = dropWhile isSpace s"
  define u where "u = dropWhile isSpace (rev t)"
  have t_hd: "t = [] \<or> \<not> isSpace (hd t)"
    unfolding t_def by (metis hd_dropWhile)
  have u_hd: "u = [] \<or> \<not> isSpace (hd u)"
    unfolding u_def by (metis hd_dropWhile)
  have "rev t = takeWhile isSpace (rev t) @ u"
    unfolding u_def by simp
  then have "u \<noteq> [] \<Longrightarrow> last u = last (rev t)"
    by (metis last_appendR)
  moreover have tne: "u \<noteq> [] \<Longrightarrow> t \<noteq> []" unfolding u_def by auto
  ultimately have "u \<noteq> [] \<Longrightarrow> last u = hd t" by (simp add: last_rev)
  with t_hd tne have "rev u = [] \<or> \<not> isSpace (hd (rev u))"
    by (cases "u = []") (auto simp: hd_rev)
  then have 1: "dropWhile isSpace (rev u) = rev u" by (rule dropWhile_fixed)
  have 2: "dropWhile isSpace u = u" using u_hd by (rule dropWhile_fixed)
  have "trim s = rev u" by (simp add: trim_def t_def u_def)
  moreover have "trim (rev u) = rev u" by (simp add: trim_def 1 2)
  ultimately show ?thesis by simp
qed

lemma normalizeEmail_idem: "normalizeEmail (normalizeEmail e) = normalizeEmail e"
proof (cases "e = [] \<or> toLowerCase (trim e) = []")
  case True
  then show ?thesis by (auto simp: normalizeEmail_def)
next
  case False
  have "toLowerCase (trim (toLowerCase (trim e))) = toLowerCase (toLowerCase (trim (trim e)))"
    by (simp add: toLowerCase_trim)
  also have "\<dots> = toLowerCase (trim e)" by (simp add: toLowerCase_idem trim_idem)
  finally show ?thesis using False by (simp add: normalizeEmail_def)
qed

lemma getOrCreateUser_email:
  assumes "getOrCreateUserByEmail d e = Some (usr, d0)"
  shows "user_email usr = normalizeEmail e"
proof (cases "find (\<lambda>u. user_email u = normalizeEmail e) (db_users d)")
  case None
  with assms show ?thesis
    by (auto simp: getOrCreateUserByEmail_def Let_def split: if_splits)
next
  case (Some u)
  then have "user_email u = normalizeEmail e" by (auto simp: find_Some_iff)
  with assms Some show ?thesis
    by (auto simp: getOrCreateUserByEmail_def Let_def split: if_splits)
qed

lemma settled_evolve:
  assumes s: "settled rid a" and e: "invitesEvolve a b"
  shows "settled rid b"
proof -
  from s have rid: "rid \<in> set (map inv_id a)"
    and all: "\<forall>i < length a. inv_id (a ! i) = rid \<longrightarrow> inv_status (a ! i) = ''REWARDED''"
    by (auto simp: settled_def list_all_length)
  have "inv_id (b ! i) \<noteq> rid \<or> inv_status (b ! i) = ''REWARDED''" if "i < length b" for i
  proof (cases "i < length a")
    case True
    with e all show ?thesis by (auto simp: invitesEvolve_def)
  next
    case False
    with e that have "inv_id (b ! i) \<notin> set (map inv_id a)" by (simp add: invitesEvolve_def)
    with rid show ?thesis by auto
  qed
  moreover from rid invitesEvolve_ids [OF e] have "rid \<in> set (map inv_id b)" by blast
  ultimately show ?thesis by (simp add: settled_def list_all_length)
qed

lemma settled_after_reward:
  assumes "applyReferralReward w d u now = (Some r, d1)"
  shows "settled (rr_inviteId r) (db_invites d1)"
proof -
  from apply_Some_chosen [OF assms] obtain invite where
    mem: "invite \<in> set (db_invites d)" and rid: "rr_inviteId r = inv_id invite"
    and inv: "db_invites d1 = updateWhere (\<lambda>i. inv_id i = inv_id invite)
                 (markRewarded (user_id u) now) (db_invites d)"
    by blast
  have "inv_id invite \<in> set (map inv_id (db_invites d1))"
    using mem unfolding inv updateWhere_def by (force simp: markRewarded_def image_iff)
  moreover have "list_all (\<lambda>i. inv_id i \<noteq> inv_id invite \<or> inv_status i = ''REWARDED'')
      (db_invites d1)"
    unfolding inv updateWhere_def by (auto simp: list_all_iff markRewarded_def)
  ultimately show ?thesis by (simp add: settled_def rid)
qed

lemma settled_not_chosen:
  assumes "settled rid (db_invites d)" and "applyReferralReward w d u now = (Some r, d1)"
  shows "rr_inviteId r \<noteq> rid"
proof -
  from apply_Some_chosen [OF assms(2)] obtain invite where
    mem: "invite \<in> set (db_invites d)" and op: "inviteOpenFor (user_email u) invite"
    and rid: "rr_inviteId r = inv_id invite"
    by blast
  from op have "inv_status invite \<noteq> ''REWARDED''" by (auto simp: inviteOpenFor_def)
  with assms(1) mem have "inv_id invite \<noteq> rid" by (auto simp: settled_def list_all_iff)
  with rid show ?thesis by simp
qed

lemma filter_updateWhere_length:
  assumes "\<And>s. Q (f s) \<Longrightarrow> Q s"
  shows "length (filter Q (updateWhere P f rows)) \<le> length (filter Q rows)"
proof (induction rows)
  case Nil
  show ?case by (simp add: updateWhere_def)
next
  case (Cons r rows)
  have "Q (f r) \<longrightarrow> Q r" using assms by blast
  with Cons.IH show ?case by (auto simp: updateWhere_def)
qed

lemma referral_count_updateWhere:
  assumes "\<And>s. sub_gateway (f s) = ''REFERRAL'' \<Longrightarrow> sub_gateway s = ''REFERRAL''"
  shows "length (filter (\<lambda>s. sub_gateway s = ''REFERRAL'') (updateWhere P f rows))
         \<le> length (filter (\<lambda>s. sub_gateway s = ''REFERRAL'') rows)"
  using assms by (rule filter_updateWhere_length)

lemma referral_count_upsert:
  assumes "\<And>s. sub_gateway (upd s) = ''PAYPAL''" and "sub_gateway created = ''PAYPAL''"
  shows "length (filter (\<lambda>s. sub_gateway s = ''REFERRAL'') (snd (upsertByGatewayId pid upd created rows)))
         \<le> length (filter (\<lambda>s. sub_gateway s = ''REFERRAL'') rows)"
proof (cases "find (\<lambda>s. sub_gatewaySubscriptionId s = Some pid) rows")
  case None
  with assms(2) show ?thesis by (simp add: upsertByGatewayId_def)
next
  case (Some a)
  have "length (filter (\<lambda>s. sub_gateway s = ''REFERRAL'')
           (updateWhere (\<lambda>s. sub_gatewaySubscriptionId s = Some pid) upd rows))
         \<le> length (filter (\<lambda>s. sub_gateway s = ''REFERRAL'') rows)"
    by (rule referral_count_updateWhere) (simp add: assms(1))
  with Some show ?thesis by (simp add: upsertByGatewayId_def)
qed

lemma referral_count_activation:
  "length (filter (\<lambda>s. sub_gateway s = ''REFERRAL'')
      (snd (upsertByGatewayId pid (activationUpdate planName localStatus startedAt nextBillingAt)
          (activationCreate newId uid pid planName localStatus startedAt nextBillingAt now)
          (cancelOthers w uid pid rows))))
   \<le> length (filter (\<lambda>s. sub_gateway s = ''REFERRAL'') rows)"
proof -
  have "length (filter (\<lambda>s. sub_gateway s = ''REFERRAL'') (cancelOthers w uid pid rows))
      \<le> length (filter (\<lambda>s. sub_gateway s = ''REFERRAL'') rows)"
    unfolding cancelOthers_def by (rule referral_count_updateWhere) simp
  moreover have "length (filter (\<lambda>s. sub_gateway s = ''REFERRAL'')
      (snd (upsertByGatewayId pid (activationUpdate planName localStatus startedAt nextBillingAt)
          (activationCreate newId uid pid planName localStatus startedAt nextBillingAt now)
          (cancelOthers w uid pid rows))))
      \<le> length (filter (\<lambda>s. sub_gateway s = ''REFERRAL'') (cancelOthers w uid pid rows))"
    by (rule referral_count_upsert) (simp_all add: activationUpdate_def activationCreate_def)
  ultimately show ?thesis by (rule order_trans [rotated])
qed

lemma activateTx_no_open:
  assumes "\<not> list_ex (inviteOpenFor (user_email usr)) (db_invites d)"
  shows "act_referralReward (fst (activateTx w now usr pid planName localStatus startedAt nextBillingAt d)) = None
     \<and> db_invites (snd (activateTx w now usr pid planName localStatus startedAt nextBillingAt d)) = db_invites d
     \<and> length (filter (\<lambda>s. sub_gateway s = ''REFERRAL'')
          (db_subscriptions (snd (activateTx w now usr pid planName localStatus startedAt nextBillingAt d))))
        \<le> length (filter (\<lambda>s. sub_gateway s = ''REFERRAL'') (db_subscriptions d))"
proof -
  have noop: "rewardIfActive w (d\<lparr>db_subscriptions := x\<rparr>) usr now s = (None, d\<lparr>db_subscriptions := x\<rparr>)"
    for x s
    using apply_noop [of usr "d\<lparr>db_subscriptions := x\<rparr>" w now] assms
    by (simp add: rewardIfActive_def)
  show ?thesis
    unfolding activateTx_def Let_def
    using referral_count_activation by (simp add: noop)
qed

lemma activateFetched_no_open:
  assumes "\<not> list_ex (inviteOpenFor (user_email usr)) (db_invites d0)"
  shows "db_invites (snd (activateFetched w now parsed cfg pid usr details d0)) = db_invites d0
     \<and> length (filter (\<lambda>s. sub_gateway s = ''REFERRAL'')
          (db_subscriptions (snd (activateFetched w now parsed cfg pid usr details d0))))
        \<le> length (filter (\<lambda>s. sub_gateway s = ''REFERRAL'') (db_subscriptions d0))
     \<and> (\<forall>sub rew st. snd (fst (activateFetched w now parsed cfg pid usr details d0)) = ActivatedBody sub rew st
            \<longrightarrow> rew = None)"
  unfolding activateFetched_def Let_def
  using activateTx_no_open [OF assms] by simp

lemma handleActivate_no_open:
  assumes "\<not> list_ex (inviteOpenFor (normalizeEmail (req_email req))) (db_invites d)"
  shows "db_invites (snd (handleActivatePayPal w now req d)) = db_invites d
     \<and> length (filter (\<lambda>s. sub_gateway s = ''REFERRAL'')
          (db_subscriptions (snd (handleActivatePayPal w now req d))))
        \<le> length (filter (\<lambda>s. sub_gateway s = ''REFERRAL'') (db_subscriptions d))
     \<and> (\<forall>sub rew st. snd (fst (handleActivatePayPal w now req d)) = ActivatedBody sub rew st
            \<longrightarrow> rew = None)"
proof -
  let ?P = "\<lambda>r d'. db_invites d' = db_invites d
     \<and> length (filter (\<lambda>s. sub_gateway s = ''REFERRAL'') (db_subscriptions d'))
        \<le> length (filter (\<lambda>s. sub_gateway s = ''REFERRAL'') (db_subscriptions d))
     \<and> (\<forall>sub rew st. snd r = ActivatedBody sub rew st \<longrightarrow> rew = None)"
  have err: "?P (c, ErrorBody m) d" for c m by simp
  have tb: "?P (c, ErrorBody m) d0" if "getOrCreateUserByEmail d e = Some (usr, d0)" for e usr d0 c m
    using getOrCreateUser_tables [OF that] by simp
  have tx: "?P (fst (activateFetched w now parsed cfg pid usr details d0))
               (snd (activateFetched w now parsed cfg pid usr details d0))"
    if g: "getOrCreateUserByEmail d (normalizeEmail (req_email req)) = Some (usr, d0)"
    for usr d0 parsed cfg pid details
  proof -
    from getOrCreateUser_email [OF g] have em: "user_email usr = normalizeEmail (req_email req)"
      by (simp add: normalizeEmail_idem)
    from getOrCreateUser_tables [OF g]
    have t: "db_invites d0 = db_invites d" "db_subscriptions d0 = db_subscriptions d" by simp_all
    have "\<not> list_ex (inviteOpenFor (user_email usr)) (db_invites d0)"
      using assms by (simp add: em t)
    from activateFetched_no_open [OF this] show ?thesis by (simp add: t)
  qed
  have "?P (fst (handleActivatePayPal w now req d)) (snd (handleActivatePayPal w now req d))"
    unfolding handleActivatePayPal_def Let_def
    using err tb tx by (simp split: option.splits prod.splits)
  then show ?thesis .
qed


section \<open>Facts about the activation transaction\<close>

lemma updateWhere_length [simp]: "length (updateWhere P f rows) = length rows"
  by (simp add: updateWhere_def)



















section \<open>Facts about the profile table\<close>

lemma map_updateWhere_same:
  assumes "\<And>p. f (upd p) = f p"
  shows "map f (updateWhere P upd rows) = map f rows"
  by (simp add: updateWhere_def assms)

lemma distinct_map_updateWhere:
  assumes d: "distinct (map k rows)"
    and one: "\<And>p q. p \<in> set rows \<Longrightarrow> q \<in> set rows \<Longrightarrow> P p \<Longrightarrow> P q \<Longrightarrow> p = q"
    and new: "\<And>p q. p \<in> set rows \<Longrightarrow> q \<in> set rows \<Longrightarrow> P p \<Longrightarrow> \<not> P q \<Longrightarrow> k (upd p) \<noteq> k q"
  shows "distinct (map k (updateWhere P upd rows))"
  using d one new
proof (induction rows)
  case Nil
  show ?case by (simp add: updateWhere_def)
next
  case (Cons r rs)
  from Cons.prems(1) have kr: "k r \<notin> k ` set rs" and drs: "distinct (map k rs)" by simp_all
  have ih: "distinct (map k (updateWhere P upd rs))"
  proof (rule Cons.IH [OF drs])
    show "p = q" if "p \<in> set rs" "q \<in> set rs" "P p" "P q" for p q
      using Cons.prems(2) [of p q] that by simp
    show "k (upd p) \<noteq> k q" if "p \<in> set rs" "q \<in> set rs" "P p" "\<not> P q" for p q
      using Cons.prems(3) [of p q] that by simp
  qed
  have head: "k (if P r then upd r else r) \<noteq> k (if P q then upd q else q)" if q: "q \<in> set rs" for q
  proof (cases "P r")
    case True
    have "\<not> P q"
    proof
      assume "P q"
      with Cons.prems(2) [of r q] True q have "r = q" by simp
      with q kr show False by blast
    qed
    moreover from Cons.prems(3) [of r q] True q this have "k (upd r) \<noteq> k q" by simp
    ultimately show ?thesis using True by simp
  next
    case False
    show ?thesis
    proof (cases "P q")
      case True
      from Cons.prems(3) [of q r] True False q have "k (upd q) \<noteq> k r" by simp
      with True False show ?thesis by auto
    next
      case Fq: False
      from kr q have "k r \<noteq> k q" by blast
      with False Fq show ?thesis by simp
    qed
  qed
  have notin: "k (if P r then upd r else r) \<notin> set (map k (updateWhere P upd rs))"
  proof
    assume "k (if P r then upd r else r) \<in> set (map k (updateWhere P upd rs))"
    then obtain q where "q \<in> set rs"
      "k (if P r then upd r else r) = k (if P q then upd q else q)"
      by (auto simp: updateWhere_def)
    with head show False by blast
  qed
  have "updateWhere P upd (r # rs) = (if P r then upd r else r) # updateWhere P upd rs"
    by (simp add: updateWhere_def)
  with ih notin show ?case by simp
qed

lemma distinct_map_eq:
  "distinct (map k rows) \<Longrightarrow> p \<in> set rows \<Longrightarrow> q \<in> set rows \<Longrightarrow> k p = k q \<Longrightarrow> p = q"
  by (meson distinct_map inj_on_def)

lemma count_one:
  assumes "distinct (map k rows)" and "x \<in> set rows"
  shows "length (filter (\<lambda>p. k p = k x) rows) = 1"
  using assms
proof (induction rows)
  case Nil
  then show ?case by simp
next
  case (Cons r rs)
  from Cons.prems(1) have kr: "k r \<notin> k ` set rs" and drs: "distinct (map k rs)" by simp_all
  show ?case
  proof (cases "x = r")
    case True
    from kr have "filter (\<lambda>p. k p = k r) rs = []"
      by (force simp: filter_empty_conv image_iff)
    with True show ?thesis by simp
  next
    case False
    with Cons.prems(2) have x: "x \<in> set rs" by simp
    with kr have "k r \<noteq> k x" by force
    with Cons.IH [OF drs x] show ?thesis by simp
  qed
qed

lemma hasClientId_key: "hasClientId uid c p \<longleftrightarrow> pairKey p = (uid, c)"
  by (auto simp: hasClientId_def pairKey_def)

lemma emailMatches_key: "emailMatches uid e p \<longleftrightarrow> emailKey p = (uid, toLowerCase e)"
  by (auto simp: emailMatches_def emailKey_def)

lemma wf_keys:
  "profilesWellFormed rows \<longleftrightarrow> distinct (map cp_id rows) \<and> distinct (map pairKey rows)"
proof -
  have "(\<lambda>p. (cp_userId p, cp_clientId p)) = pairKey" by (auto simp: pairKey_def)
  then show ?thesis by (simp add: profilesWellFormed_def)
qed

lemma emailsUnique_keys: "emailsUnique rows \<longleftrightarrow> distinct (map emailKey rows)"
proof -
  have "(\<lambda>p. (cp_userId p, toLowerCase (cp_clientEmail p))) = emailKey"
    by (auto simp: emailKey_def)
  then show ?thesis by (simp add: emailsUnique_def)
qed

lemma upsertProfile_wf:
  assumes "profilesWellFormed rows"
  shows "profilesWellFormed (snd (upsertProfile uid c e n rows))"
proof (cases "find (hasClientId uid c) rows")
  case None
  then have "\<forall>p \<in> set rows. pairKey p \<noteq> (uid, c)"
    by (auto simp: find_None_iff hasClientId_key)
  then have "(uid, c) \<notin> set (map pairKey rows)" by auto
  moreover have "freshId (map cp_id rows) \<notin> set (map cp_id rows)" by (rule freshId_notin)
  ultimately show ?thesis
    using assms None by (simp add: upsertProfile_def wf_keys pairKey_def Let_def)
next
  case (Some existing)
  have "map cp_id (updateWhere (hasClientId uid c)
          (\<lambda>p. p\<lparr>cp_clientEmail := e, cp_clientName := nameOrNull n None\<rparr>) rows) = map cp_id rows"
    by (rule map_updateWhere_same) simp
  moreover have "map pairKey (updateWhere (hasClientId uid c)
          (\<lambda>p. p\<lparr>cp_clientEmail := e, cp_clientName := nameOrNull n None\<rparr>) rows) = map pairKey rows"
    by (rule map_updateWhere_same) (simp add: pairKey_def)
  ultimately show ?thesis using assms Some by (simp add: upsertProfile_def wf_keys Let_def)
qed

lemma upsertProfile_has:
  "list_ex (hasClientId uid c) (snd (upsertProfile uid c e n rows))"
proof (cases "find (hasClientId uid c) rows")
  case None
  then show ?thesis by (simp add: upsertProfile_def hasClientId_def Let_def)
next
  case (Some existing)
  then have ex: "existing \<in> set rows" "hasClientId uid c existing"
    by (auto simp: find_Some_iff)
  let ?upd = "\<lambda>p. p\<lparr>cp_clientEmail := e, cp_clientName := nameOrNull n None\<rparr>"
  have "?upd existing \<in> set (updateWhere (hasClientId uid c) ?upd rows)"
    unfolding updateWhere_def using ex by (force simp: image_iff)
  moreover have "hasClientId uid c (?upd existing)" using ex(2) by (simp add: hasClientId_def)
  ultimately show ?thesis using Some unfolding upsertProfile_def list_ex_iff
    by (auto simp: Let_def)
qed

lemma upsertProfile_emails:
  assumes wf: "profilesWellFormed rows" and eu: "emailsUnique rows"
    and only: "\<And>q. q \<in> set rows \<Longrightarrow> emailMatches uid e q \<Longrightarrow> hasClientId uid c q"
  shows "emailsUnique (snd (upsertProfile uid c e n rows))"
proof (cases "find (hasClientId uid c) rows")
  case None
  then have "\<forall>q \<in> set rows. \<not> hasClientId uid c q" by (auto simp: find_None_iff)
  with only have "\<forall>q \<in> set rows. emailKey q \<noteq> (uid, toLowerCase e)"
    by (auto simp: emailMatches_key)
  then have "(uid, toLowerCase e) \<notin> set (map emailKey rows)" by auto
  with eu None show ?thesis
    by (simp add: upsertProfile_def emailsUnique_keys emailKey_def Let_def)
next
  case (Some existing)
  let ?upd = "\<lambda>p. p\<lparr>cp_clientEmail := e, cp_clientName := nameOrNull n None\<rparr>"
  from wf have dp: "distinct (map pairKey rows)" by (simp add: wf_keys)
  from eu have de: "distinct (map emailKey rows)" by (simp add: emailsUnique_keys)
  have "distinct (map emailKey (updateWhere (hasClientId uid c) ?upd rows))"
  proof (rule distinct_map_updateWhere [OF de])
    show "p = q" if "p \<in> set rows" "q \<in> set rows" "hasClientId uid c p" "hasClientId uid c q" for p q
      using distinct_map_eq [OF dp that(1,2)] that(3,4) by (simp add: hasClientId_key)
    show "emailKey (?upd p) \<noteq> emailKey q"
      if "p \<in> set rows" "q \<in> set rows" "hasClientId uid c p" "\<not> hasClientId uid c q" for p q
    proof
      assume "emailKey (?upd p) = emailKey q"
      with that(3) have "emailKey q = (uid, toLowerCase e)"
        by (simp add: emailKey_def hasClientId_def)
      then have "emailMatches uid e q" by (simp add: emailMatches_key)
      with only [OF that(2)] that(4) show False by simp
    qed
  qed
  with Some show ?thesis by (simp add: upsertProfile_def emailsUnique_keys Let_def)
qed

lemma renameProfile_props:
  assumes wf: "profilesWellFormed rows" and mem: "e0 \<in> set rows"
    and r: "renameProfile e0 c n rows = Some (p, rows')"
  shows "profilesWellFormed rows'
     \<and> list_ex (hasClientId (cp_userId e0) c) rows'
     \<and> (emailsUnique rows \<longrightarrow> emailsUnique rows')
     \<and> rows' = updateWhere (\<lambda>q. cp_id q = cp_id e0)
                 (\<lambda>q. q\<lparr>cp_clientId := c, cp_clientName := nameOrNull n (cp_clientName e0)\<rparr>) rows
     \<and> p = e0\<lparr>cp_clientId := c, cp_clientName := nameOrNull n (cp_clientName e0)\<rparr>
     \<and> length rows' = length rows"
proof -
  let ?upd = "\<lambda>q. q\<lparr>cp_clientId := c, cp_clientName := nameOrNull n (cp_clientName e0)\<rparr>"
  from r have free: "\<not> list_ex (hasClientId (cp_userId e0) c) rows"
    and rows': "rows' = updateWhere (\<lambda>q. cp_id q = cp_id e0) ?upd rows"
    and p: "p = ?upd e0"
    by (auto simp: renameProfile_def Let_def split: if_splits)
  from wf have di: "distinct (map cp_id rows)" and dp: "distinct (map pairKey rows)"
    by (simp_all add: wf_keys)
  have ids: "map cp_id rows' = map cp_id rows"
    unfolding rows' by (rule map_updateWhere_same) simp
  have ems: "map emailKey rows' = map emailKey rows"
    unfolding rows' by (rule map_updateWhere_same) (simp add: emailKey_def)
  have same: "q = e0" if "q \<in> set rows" "cp_id q = cp_id e0" for q
    using distinct_map_eq [OF di that(1) mem] that(2) by simp
  have pairs: "distinct (map pairKey rows')"
    unfolding rows'
  proof (rule distinct_map_updateWhere [OF dp])
    show "a = b" if "a \<in> set rows" "b \<in> set rows" "cp_id a = cp_id e0" "cp_id b = cp_id e0" for a b
      using same [of a] same [of b] that by simp
    show "pairKey (?upd a) \<noteq> pairKey b"
      if "a \<in> set rows" "b \<in> set rows" "cp_id a = cp_id e0" "cp_id b \<noteq> cp_id e0" for a b
    proof
      assume eq: "pairKey (?upd a) = pairKey b"
      from same that(1,3) have "a = e0" by simp
      with eq have "hasClientId (cp_userId e0) c b" by (simp add: pairKey_def hasClientId_def)
      with that(2) free show False by (auto simp: list_ex_iff)
    qed
  qed
  have "?upd e0 \<in> set rows'"
    unfolding rows' updateWhere_def using mem by (force simp: image_iff)
  moreover have "hasClientId (cp_userId e0) c (?upd e0)" by (simp add: hasClientId_def)
  ultimately have has: "list_ex (hasClientId (cp_userId e0) c) rows'"
    unfolding list_ex_iff by blast
  have len: "length rows' = length rows" by (simp add: rows' updateWhere_def)
  from ids di pairs have "profilesWellFormed rows'" by (simp add: wf_keys)
  with has ems rows' p len show ?thesis by (simp add: emailsUnique_keys)
qed

lemma profileTx_props:
  assumes wf: "profilesWellFormed rows"
  shows "(case profileTx uid c e n rows of
            None \<Rightarrow> list_ex (hasClientId uid c) rows
          | Some (p, rows') \<Rightarrow>
              profilesWellFormed rows' \<and> list_ex (hasClientId uid c) rows'
              \<and> (emailsUnique rows \<longrightarrow> emailsUnique rows'))"
proof (cases "find (emailMatches uid e) rows")
  case None
  then have no: "\<And>q. q \<in> set rows \<Longrightarrow> \<not> emailMatches uid e q" by (auto simp: find_None_iff)
  have "emailsUnique rows \<Longrightarrow> emailsUnique (snd (upsertProfile uid c e n rows))"
    by (rule upsertProfile_emails [OF wf]) (auto simp: no)
  with None upsertProfile_wf [OF wf, of uid c e n] upsertProfile_has [of uid c e n rows]
  show ?thesis by (auto simp: profileTx_def split: prod.splits)
next
  case (Some e0)
  then have e0: "e0 \<in> set rows" "emailMatches uid e e0" by (auto simp: find_Some_iff)
  then have u0: "cp_userId e0 = uid" by (simp add: emailMatches_def)
  show ?thesis
  proof (cases "cp_clientId e0 \<noteq> c")
    case True
    show ?thesis
    proof (cases "renameProfile e0 c n rows")
      case None
      then have "list_ex (hasClientId uid c) rows"
        by (auto simp: renameProfile_def u0 Let_def split: if_splits)
      with Some True None show ?thesis by (simp add: profileTx_def)
    next
      case r: (Some pr)
      obtain p rows' where pr: "pr = (p, rows')" by (cases pr)
      note R = renameProfile_props [OF wf e0(1) r [unfolded pr], unfolded u0]
      have A: "profilesWellFormed rows'" "list_ex (hasClientId uid c) rows'"
        "emailsUnique rows \<longrightarrow> emailsUnique rows'"
        using R by blast+
      have "profileTx uid c e n rows = Some (p, rows')"
        using Some True r pr by (simp add: profileTx_def)
      with A show ?thesis by simp
    qed
  next
    case False
    then have h0: "hasClientId uid c e0" using u0 by (simp add: hasClientId_def)
    have "emailsUnique (snd (upsertProfile uid c e n rows))" if eu: "emailsUnique rows"
    proof (rule upsertProfile_emails [OF wf eu])
      fix q assume q: "q \<in> set rows" "emailMatches uid e q"
      from eu have "distinct (map emailKey rows)" by (simp add: emailsUnique_keys)
      from distinct_map_eq [OF this q(1) e0(1)] q(2) e0(2) have "q = e0"
        by (simp add: emailMatches_key)
      with h0 show "hasClientId uid c q" by simp
    qed
    with Some False upsertProfile_wf [OF wf, of uid c e n] upsertProfile_has [of uid c e n rows]
    show ?thesis by (auto simp: profileTx_def split: prod.splits)
  qed
qed

lemma find_snoc:
  "find P (xs @ [x]) = (case find P xs of None \<Rightarrow> (if P x then Some x else None) | Some y \<Rightarrow> Some y)"
  by (induction xs) simp_all

lemma getOrCreate_found:
  assumes "getOrCreateUserByEmail d e = Some (usr, d0)"
  shows "find (\<lambda>u. user_email u = normalizeEmail e) (db_users d0) = Some usr
     \<and> db_profiles d0 = db_profiles d"
proof (cases "find (\<lambda>u. user_email u = normalizeEmail e) (db_users d)")
  case None
  with assms show ?thesis
    by (auto simp: getOrCreateUserByEmail_def Let_def find_snoc split: if_splits)
next
  case (Some u)
  with assms show ?thesis
    by (auto simp: getOrCreateUserByEmail_def Let_def split: if_splits)
qed

lemma getOrCreate_existing:
  assumes "normalizeEmail e \<noteq> []"
    and "find (\<lambda>u. user_email u = normalizeEmail e) (db_users d) = Some usr"
  shows "getOrCreateUserByEmail d e = Some (usr, d)"
  using assms by (simp add: getOrCreateUserByEmail_def Let_def)

lemma getOrCreate_total:
  assumes "normalizeEmail e \<noteq> []"
  shows "\<exists>usr d0. getOrCreateUserByEmail d e = Some (usr, d0)"
  using assms
  by (cases "find (\<lambda>u. user_email u = normalizeEmail e) (db_users d)")
     (simp_all add: getOrCreateUserByEmail_def Let_def)

text \<open>The handler on a valid request, given the user it finds or creates.\<close>

lemma post_valid:
  assumes v: "validPost req"
    and g: "getOrCreateUserByEmail d (normalizeEmail (preq_email req)) = Some (usr, d0)"
  shows "profiles_handlePost req d =
     (case profileTx (user_id usr) (trim (preq_clientId req))
             (normalizeEmail (preq_clientEmail req)) (trim (preq_clientName req)) (db_profiles d0) of
        None \<Rightarrow> ((500, ProfileError ''Client profiles service error''), d0)
      | Some (profile, rows') \<Rightarrow>
          ((200, ProfileBody (profileView profile)), d0\<lparr>db_profiles := rows'\<rparr>))"
  using v g by (simp add: profiles_handlePost_def validPost_def normalizeClientId_def Let_def)

lemma post_step:
  assumes v: "validPost req" and wf: "profilesWellFormed (db_profiles d)"
  shows "\<exists>usr. find (\<lambda>u. user_email u = normalizeEmail (preq_email req))
                 (db_users (snd (profiles_handlePost req d))) = Some usr
     \<and> profilesWellFormed (db_profiles (snd (profiles_handlePost req d)))
     \<and> list_ex (hasClientId (user_id usr) (trim (preq_clientId req)))
          (db_profiles (snd (profiles_handlePost req d)))
     \<and> (emailsUnique (db_profiles d) \<longrightarrow> emailsUnique (db_profiles (snd (profiles_handlePost req d))))"
proof -
  let ?e = "normalizeEmail (preq_email req)"
  from v have ne: "normalizeEmail ?e \<noteq> []" by (simp add: validPost_def normalizeEmail_idem)
  from getOrCreate_total [OF ne] obtain usr d0 where
    g: "getOrCreateUserByEmail d ?e = Some (usr, d0)" by blast
  from getOrCreate_found [OF g]
  have f: "find (\<lambda>u. user_email u = ?e) (db_users d0) = Some usr"
    and pr: "db_profiles d0 = db_profiles d"
    by (simp_all add: normalizeEmail_idem)
  let ?tx = "profileTx (user_id usr) (trim (preq_clientId req))
             (normalizeEmail (preq_clientEmail req)) (trim (preq_clientName req)) (db_profiles d)"
  note P = profileTx_props [OF wf, of "user_id usr" "trim (preq_clientId req)"
      "normalizeEmail (preq_clientEmail req)" "trim (preq_clientName req)"]
  show ?thesis
  proof (cases ?tx)
    case None
    with post_valid [OF v g] have "snd (profiles_handlePost req d) = d0" by (simp add: pr)
    with None P f pr wf show ?thesis by auto
  next
    case (Some a)
    obtain p rows' where a: "a = (p, rows')" by (cases a)
    with Some post_valid [OF v g]
    have "snd (profiles_handlePost req d) = d0\<lparr>db_profiles := rows'\<rparr>" by (simp add: pr)
    with Some a P f show ?thesis by auto
  qed
qed

lemma count_has:
  assumes "profilesWellFormed rows" and "list_ex (hasClientId uid c) rows"
  shows "length (filter (hasClientId uid c) rows) = 1"
proof -
  from assms(2) obtain x where x: "x \<in> set rows" "pairKey x = (uid, c)"
    by (auto simp: list_ex_iff hasClientId_key)
  from assms(1) have "distinct (map pairKey rows)" by (simp add: wf_keys)
  from count_one [OF this x(1)] x(2)
  have "length (filter (\<lambda>p. pairKey p = (uid, c)) rows) = 1" by simp
  moreover have "hasClientId uid c = (\<lambda>p. pairKey p = (uid, c))"
    by (auto simp: hasClientId_key)
  ultimately show ?thesis by simp
qed

lemma post_users_existing:
  assumes v: "validPost req"
    and f: "find (\<lambda>u. user_email u = normalizeEmail (preq_email req)) (db_users d) = Some usr"
  shows "db_users (snd (profiles_handlePost req d)) = db_users d"
proof -
  from v have ne: "normalizeEmail (normalizeEmail (preq_email req)) \<noteq> []"
    by (simp add: validPost_def normalizeEmail_idem)
  from f have "find (\<lambda>u. user_email u = normalizeEmail (normalizeEmail (preq_email req))) (db_users d)
      = Some usr" by (simp add: normalizeEmail_idem)
  from getOrCreate_existing [OF ne this]
  have g: "getOrCreateUserByEmail d (normalizeEmail (preq_email req)) = Some (usr, d)" .
  show ?thesis
    unfolding post_valid [OF v g] by (simp split: option.splits prod.splits)
qed



section \<open>Sign-in codes and tokens\<close>

section \<open>Facts about decimal strings\<close>

lemma digit_nth: "k < 10 \<Longrightarrow> isDigit (digits ! k) \<and> digitVal (digits ! k) = k"
proof -
  assume "k < 10"
  then have "k = 0 \<or> k = 1 \<or> k = 2 \<or> k = 3 \<or> k = 4 \<or> k = 5 \<or> k = 6 \<or> k = 7
    \<or> k = 8 \<or> k = 9" by arith
  then show ?thesis
    by (elim disjE) (simp_all add: isDigit_def digitVal_def digits_def)
qed

lemma showNat_digits: "list_all isDigit (showNat n)"
proof (induction n rule: showNat.induct)
  case (1 n)
  show ?case
  proof (cases "n < 10")
    case True
    then show ?thesis by (subst showNat.simps) (simp add: digit_nth)
  next
    case False
    have "n mod 10 < 10" by simp
    with 1 False show ?thesis by (subst showNat.simps) (simp add: digit_nth)
  qed
qed

lemma readNat_snoc: "readNat (s @ [c]) = 10 * readNat s + digitVal c"
  by (simp add: readNat_def)

lemma readNat_showNat: "readNat (showNat n) = n"
proof (induction n rule: showNat.induct)
  case (1 n)
  show ?case
  proof (cases "n < 10")
    case True
    then show ?thesis by (subst showNat.simps) (simp add: readNat_def digit_nth)
  next
    case False
    have "n mod 10 < 10" by simp
    with 1 False show ?thesis
      by (subst showNat.simps) (simp add: readNat_snoc digit_nth)
  qed
qed

lemma length_showNat: "0 < k \<Longrightarrow> n < 10 ^ k \<Longrightarrow> length (showNat n) \<le> k"
proof (induction k arbitrary: n)
  case 0
  then show ?case by simp
next
  case (Suc k)
  show ?case
  proof (cases "n < 10")
    case True
    then show ?thesis by (subst showNat.simps) simp
  next
    case False
    then have k: "0 < k" using Suc.prems(2) by (cases k) auto
    from Suc.prems(2) have "n div 10 < 10 ^ k"
      by (simp add: less_mult_imp_div_less mult.commute)
    from Suc.IH [OF k this] False show ?thesis by (subst showNat.simps) simp
  qed
qed

lemma readNat_zeros: "readNat (replicate k CHR ''0'' @ s) = readNat s"
proof -
  have z: "digitVal CHR ''0'' = 0" by (simp add: digitVal_def digits_def)
  have "foldl (\<lambda>a c. 10 * a + digitVal c) 0 (replicate k CHR ''0'') = 0"
    by (induction k) (simp_all add: z)
  then show ?thesis by (simp add: readNat_def)
qed

lemma padStart6_code:
  assumes "n < 1000000"
  shows "length (padStart6 (showNat n)) = 6
     \<and> list_all isDigit (padStart6 (showNat n))
     \<and> readNat (padStart6 (showNat n)) = n"
proof -
  have "n < 10 ^ 6" using assms by simp
  with length_showNat [of 6 n] have len: "length (showNat n) \<le> 6" by simp
  have z: "isDigit CHR ''0''" by (simp add: isDigit_def digits_def)
  have "list_all isDigit (replicate (6 - length (showNat n)) CHR ''0'')"
    using z by (simp add: list_all_iff)
  with len showNat_digits [of n] show ?thesis
    by (simp add: padStart6_def readNat_zeros readNat_showNat)
qed

lemma stubDigest_read: "readUInt32BE0 (stubDigest key msg) = take_bit 32 (stubSum key msg)"
  by (simp add: readUInt32BE0_def stubDigest_def unat_drop_bit_eq unsigned_push_bit_eq
      take_bit_push_bit drop_bit_push_bit unsigned_of_nat)

lemma readUInt32BE0_div: "readUInt32BE0 d = unat d div 2 ^ 224"
proof -
  have "readUInt32BE0 d = drop_bit 224 (unat d)"
    by (simp only: readUInt32BE0_def unat_drop_bit_eq)
  then show ?thesis by (simp only: drop_bit_eq_div)
qed

lemma computeLoginCode_number:
  "computeLoginCode lib email secret slot = padStart6 (showNat (codeNumber_spec lib email secret slot))"
  by (simp add: computeLoginCode_def codeNumber_spec_def Let_def readUInt32BE0_div)

lemma codeNumber_bound: "codeNumber_spec lib email secret slot < 1000000"
  by (simp add: codeNumber_spec_def)

lemma computeLoginCode_shape:
  "length (computeLoginCode lib email secret slot) = 6
   \<and> list_all isDigit (computeLoginCode lib email secret slot)
   \<and> readNat (computeLoginCode lib email secret slot) = codeNumber_spec lib email secret slot"
  unfolding computeLoginCode_number by (rule padStart6_code [OF codeNumber_bound])

lemma normalizeSignInCode_fixed:
  "length c = 6 \<Longrightarrow> list_all isDigit c \<Longrightarrow> normalizeSignInCode c = c"
  by (simp add: normalizeSignInCode_def list_all_iff)

lemma normalizeSignInCode_code:
  "normalizeSignInCode (computeLoginCode lib email secret slot) = computeLoginCode lib email secret slot"
  using computeLoginCode_shape [of lib email secret slot] by (simp add: normalizeSignInCode_fixed)

lemma lower_trim_idem: "toLowerCase (trim (toLowerCase (trim s))) = toLowerCase (trim s)"
  by (simp add: toLowerCase_trim toLowerCase_idem trim_idem)

lemma computeLoginCode_normalized:
  "computeLoginCode lib (toLowerCase (trim email)) secret slot = computeLoginCode lib email secret slot"
  by (simp add: computeLoginCode_def lower_trim_idem)

lemma verify_login_code_accepts:
  "verify_login_code lib env now email code = CodeAccepted e \<longleftrightarrow>
     e = toLowerCase (trim email) \<and> signInOpen env email
     \<and> length (normalizeSignInCode code) = 6
     \<and> normalizeSignInCode code \<in> {slotCode lib env email (currentSlot env now),
                                      slotCode lib env email (currentSlot env now - 1)}"
  by (auto simp: verify_login_code_def signInOpen_def slotCode_def currentSlot_def Let_def
      computeLoginCode_normalized)

lemma verify_login_code_rejects:
  assumes "signInOpen env email" and "length (normalizeSignInCode code) = 6"
  shows "verify_login_code lib env now email code = AuthError 401 ''INVALID_SIGNIN_CODE'' \<longleftrightarrow>
     normalizeSignInCode code \<notin> {slotCode lib env email (currentSlot env now),
                                      slotCode lib env email (currentSlot env now - 1)}"
  using assms
  by (auto simp: verify_login_code_def signInOpen_def slotCode_def currentSlot_def Let_def
      computeLoginCode_normalized)

lemma slotCode_length: "length (slotCode lib env email slot) = 6"
  using computeLoginCode_shape [of lib email "getMagicLinkSecret env" slot]
  by (simp add: slotCode_def)

lemma slotCode_normalized: "normalizeSignInCode (slotCode lib env email slot) = slotCode lib env email slot"
  by (simp add: slotCode_def normalizeSignInCode_code)

lemma stub_code:
  "computeLoginCode stubNode email secret slot =
     padStart6 (showNat (take_bit 32 (stubSum secret
        (toLowerCase (trim email) @ ''|'' @ showInt slot @ ''|renpay-login-code-v1'')) mod 1000000))"
  by (simp add: computeLoginCode_def stubNode_def stubDigest_read)

lemma demo_secret: "getMagicLinkSecret stubEnv = ''s3cret''"
  by code_simp

lemma demo_slot: "currentSlot stubEnv 1800000 = 3"
  by code_simp

lemma demo_signInOpen: "signInOpen stubEnv '' Ann@X.com ''"
  by code_simp

lemma demo_email: "toLowerCase (trim '' Ann@X.com '') = ''ann@x.com''"
  by code_simp

lemma stub_slotCode:
  assumes b: "toLowerCase (trim email) @ ''|'' @ showInt slot @ ''|renpay-login-code-v1'' = base"
    and s: "stubSum (getMagicLinkSecret env) base = n"
    and n: "n < 1000000"
  shows "slotCode stubNode env email slot = padStart6 (showNat n)"
proof -
  from n have "n < 2 ^ 32" by simp
  then have t: "take_bit 32 n = n" by (simp only: take_bit_nat_eq_self)
  from n have m: "n mod 1000000 = n" by simp
  show ?thesis by (simp only: slotCode_def stub_code b s t m)
qed

lemma demo_code3: "slotCode stubNode stubEnv '' Ann@X.com '' 3 = ''003076''"
proof -
  have b: "toLowerCase (trim '' Ann@X.com '') @ ''|'' @ showInt 3 @ ''|renpay-login-code-v1''
           = ''ann@x.com|3|renpay-login-code-v1''" by code_simp
  have s: "stubSum (getMagicLinkSecret stubEnv) ''ann@x.com|3|renpay-login-code-v1'' = 3076"
    by code_simp
  have p: "padStart6 (showNat 3076) = ''003076''" by code_simp
  from stub_slotCode [OF b s] p show ?thesis by simp
qed

lemma demo_code2: "slotCode stubNode stubEnv '' Ann@X.com '' 2 = ''003075''"
proof -
  have b: "toLowerCase (trim '' Ann@X.com '') @ ''|'' @ showInt 2 @ ''|renpay-login-code-v1''
           = ''ann@x.com|2|renpay-login-code-v1''" by code_simp
  have s: "stubSum (getMagicLinkSecret stubEnv) ''ann@x.com|2|renpay-login-code-v1'' = 3075"
    by code_simp
  have p: "padStart6 (showNat 3075) = ''003075''" by code_simp
  from stub_slotCode [OF b s] p show ?thesis by simp
qed

lemma demo_code1: "slotCode stubNode stubEnv '' Ann@X.com '' 1 = ''003074''"
proof -
  have b: "toLowerCase (trim '' Ann@X.com '') @ ''|'' @ showInt 1 @ ''|renpay-login-code-v1''
           = ''ann@x.com|1|renpay-login-code-v1''" by code_simp
  have s: "stubSum (getMagicLinkSecret stubEnv) ''ann@x.com|1|renpay-login-code-v1'' = 3074"
    by code_simp
  have p: "padStart6 (showNat 3074) = ''003074''" by code_simp
  from stub_slotCode [OF b s] p show ?thesis by simp
qed



lemma splitOn_nonempty: "splitOn c s \<noteq> []"
  by (induction s) (auto split: list.splits)

lemma splitOn_no_sep: "c \<notin> set a \<Longrightarrow> splitOn c a = [a]"
  by (induction a) auto

lemma splitOn_append: "c \<notin> set a \<Longrightarrow> splitOn c (a @ c # b) = a # splitOn c b"
  by (induction a) auto

lemma length_splitOn: "length (splitOn c s) = Suc (length (filter (\<lambda>x. x = c) s))"
  by (induction s) (auto split: list.splits simp: splitOn_nonempty)

lemma splitOn_join: "splitOn c s = p # ps \<Longrightarrow> ps \<noteq> [] \<Longrightarrow>
    \<exists>b. s = p @ c # b \<and> c \<notin> set p \<and> splitOn c b = ps"
proof (induction s arbitrary: p)
  case Nil
  then show ?case by simp
next
  case (Cons x xs)
  show ?case
  proof (cases "x = c")
    case True
    with Cons.prems show ?thesis by auto
  next
    case False
    with Cons.prems obtain q where q: "splitOn c xs = q # ps" "p = x # q"
      by (auto split: list.splits)
    from Cons.IH [OF q(1) Cons.prems(2)] obtain b where
      "xs = q @ c # b" "c \<notin> set q" "splitOn c b = ps" by blast
    with False q show ?thesis by auto
  qed
qed

lemma splitOn_single: "splitOn c s = [p] \<Longrightarrow> s = p \<and> c \<notin> set p"
proof (induction s arbitrary: p)
  case Nil
  then show ?case by simp
next
  case (Cons x xs)
  then show ?case by (auto split: list.splits if_splits simp: splitOn_nonempty)
qed

lemma splitOn_two:
  "splitOn c s = [a, b] \<longleftrightarrow> s = a @ c # b \<and> c \<notin> set a \<and> c \<notin> set b"
proof
  assume h: "splitOn c s = [a, b]"
  from splitOn_join [OF h] obtain t where t: "s = a @ c # t" "c \<notin> set a" "splitOn c t = [b]"
    by auto
  from splitOn_single [OF t(3)] t show "s = a @ c # b \<and> c \<notin> set a \<and> c \<notin> set b" by simp
next
  assume "s = a @ c # b \<and> c \<notin> set a \<and> c \<notin> set b"
  then show "splitOn c s = [a, b]" by (simp add: splitOn_append splitOn_no_sep)
qed

lemma incomplete_iff:
  "incomplete p \<longleftrightarrow> \<not> truthy (field p ''email'') \<or> \<not> truthy (field p ''exp'')"
proof (cases p)
  case (JObject fs)
  then show ?thesis by (simp add: incomplete_def)
next
  case (JOther v)
  then show ?thesis by (simp add: incomplete_def field_def truthy_def)
qed

lemma verify_parts:
  assumes "splitOn CHR ''.'' token = [pp, sp]"
  shows "verifyMagicToken lib now token secret =
     (if sp \<noteq> expectedSignature lib secret pp then Some (Invalid ''Invalid token signature'')
      else (case jsonParse lib (bufferFromBase64url lib pp) of
              None \<Rightarrow> Some (Invalid ''Invalid token payload'')
            | Some p \<Rightarrow>
                if incomplete p then Some (Invalid ''Incomplete token payload'')
                else if expired lib now p then Some (Invalid ''Token expired'')
                else Some (Valid p)))"
proof -
  from assms have "token \<noteq> []" by auto
  with assms show ?thesis
    by (auto simp: verifyMagicToken_def expectedSignature_def expired_def timingSafeEqual_def
        Let_def split: option.splits)
qed

lemma verify_format:
  assumes "token \<noteq> []" and "length (filter (\<lambda>x. x = CHR ''.'') token) \<noteq> 1"
  shows "verifyMagicToken lib now token secret = Some (Invalid ''Invalid token format'')"
proof -
  from assms(2) have "length (splitOn CHR ''.'' token) \<noteq> 2" by (simp add: length_splitOn)
  then have "\<And>a b. splitOn CHR ''.'' token \<noteq> [a, b]" by auto
  with assms(1) show ?thesis
    by (auto simp: verifyMagicToken_def split: list.splits)
qed

lemma verify_total: "verifyMagicToken lib now token secret \<noteq> None"
  by (auto simp: verifyMagicToken_def timingSafeEqual_def Let_def
      split: list.splits option.splits bool.splits)

lemma sign_parts:
  assumes "CHR ''.'' \<notin> set (bufferToBase64url lib (jsonStringify lib payload))"
    and "CHR ''.'' \<notin> set (expectedSignature lib secret (bufferToBase64url lib (jsonStringify lib payload)))"
  shows "splitOn CHR ''.'' (signMagicToken lib payload secret) =
     [bufferToBase64url lib (jsonStringify lib payload),
      expectedSignature lib secret (bufferToBase64url lib (jsonStringify lib payload))]"
  using assms by (simp add: signMagicToken_def expectedSignature_def Let_def splitOn_two)

lemma verify_valid_parts:
  assumes "verifyMagicToken lib now token secret = Some (Valid p)"
  shows "\<exists>pp. token = pp @ ''.'' @ expectedSignature lib secret pp
              \<and> jsonParse lib (bufferFromBase64url lib pp) = Some p
              \<and> \<not> incomplete p \<and> \<not> expired lib now p"
proof -
  from assms obtain pp sp where s: "splitOn CHR ''.'' token = [pp, sp]"
    by (auto simp: verifyMagicToken_def split: list.splits if_splits)
  from assms have "sp = expectedSignature lib secret pp
      \<and> jsonParse lib (bufferFromBase64url lib pp) = Some p
      \<and> \<not> incomplete p \<and> \<not> expired lib now p"
    unfolding verify_parts [OF s] by (auto split: if_splits option.splits)
  moreover from s have "token = pp @ ''.'' @ sp" by (simp add: splitOn_two)
  ultimately show ?thesis by blast
qed

lemma stub_signature:
  "expectedSignature stubNode secret pp = showNat (take_bit 32 (stubSum secret pp))"
  by (simp add: expectedSignature_def stubNode_def stubDigest_read)

lemma demo_sig1: "expectedSignature stubNode ''s3cret'' ''b64payload-1'' = ''1050''"
proof -
  have s: "stubSum ''s3cret'' ''b64payload-1'' = 1050" by code_simp
  have t: "take_bit 32 (1050 :: nat) = 1050" by (simp add: take_bit_nat_eq_self)
  have p: "showNat 1050 = ''1050''" by code_simp
  show ?thesis by (simp only: stub_signature s t p)
qed

lemma demo_sig2: "expectedSignature stubNode ''s3cret'' ''b64payload-2'' = ''1051''"
proof -
  have s: "stubSum ''s3cret'' ''b64payload-2'' = 1051" by code_simp
  have t: "take_bit 32 (1051 :: nat) = 1051" by (simp add: take_bit_nat_eq_self)
  have p: "showNat 1051 = ''1051''" by code_simp
  show ?thesis by (simp only: stub_signature s t p)
qed

lemma demo_sig3: "expectedSignature stubNode ''s3cret'' ''b64other'' = ''756''"
proof -
  have s: "stubSum ''s3cret'' ''b64other'' = 756" by code_simp
  have t: "take_bit 32 (756 :: nat) = 756" by (simp add: take_bit_nat_eq_self)
  have p: "showNat 756 = ''756''" by code_simp
  show ?thesis by (simp only: stub_signature s t p)
qed

lemma demo_encode: "bufferToBase64url stubNode (jsonStringify stubNode stubPayload) = ''b64payload-1''"
  by (simp add: stubNode_def)

lemma demo_parse1: "jsonParse stubNode (bufferFromBase64url stubNode ''b64payload-1'') = Some stubPayload"
  by (simp add: stubNode_def)

lemma demo_parse2:
  "jsonParse stubNode (bufferFromBase64url stubNode ''b64payload-2'') = Some (JObject [(''exp'', JNum 601000)])"
  by (simp add: stubNode_def)

lemma demo_parse3: "jsonParse stubNode (bufferFromBase64url stubNode ''b64other'') = None"
  by (simp add: stubNode_def)

lemma demo_token: "signMagicToken stubNode stubPayload ''s3cret'' = ''b64payload-1.1050''"
  using demo_sig1 by (simp add: signMagicToken_def demo_encode expectedSignature_def)

lemma demo_fields:
  "truthy (field stubPayload ''email'')"
  "truthy (field stubPayload ''exp'')"
  "toNumber stubNode (field stubPayload ''exp'') = Some 601000"
  "\<not> truthy (field (JObject [(''exp'', JNum 601000)]) ''email'')"
  by (simp_all add: stubPayload_def field_def truthy_def toNumber_def)

lemma demo_exp: "field stubPayload ''exp'' = Some (JNum 601000)"
  by (simp add: stubPayload_def field_def)

lemma demo_splits:
  "splitOn CHR ''.'' ''b64payload-1.1050'' = [''b64payload-1'', ''1050'']"
  "splitOn CHR ''.'' ''b64payload-1.1051'' = [''b64payload-1'', ''1051'']"
  "splitOn CHR ''.'' ''b64payload-2.1051'' = [''b64payload-2'', ''1051'']"
  "splitOn CHR ''.'' ''b64other.756'' = [''b64other'', ''756'']"
  by code_simp+

section \<open>Winner selection is a left-to-right pairwise reduction\<close>

text \<open>
  Claim C1. For a non-empty list of rows, the loop of \<open>buildPlanStateForUser\<close> and the loop
  of \<open>getActiveSubscriptionOrNull\<close> both return the left fold of \<open>pickWinner\<close> over the
  tail, started at the first row; \<open>pickWinner\<close> replaces the accumulator by a row of
  strictly higher tier rank, or of equal rank and strictly later \<open>expiresAt\<close>. For two rows
  of equal rank the one that expires later is selected in either order.
\<close>

theorem winner_is_pairwise_reduction:
  "selectSubscription (x # xs) = Some (foldl pickWinner x xs)
   \<and> authSelect (x # xs) =
       (getTierFromPlan (sub_plan (foldl pickWinner x xs)), Some (foldl pickWinner x xs))
   \<and> pickWinner acc row =
       (if getTierRank (getTierFromPlan (sub_plan row)) > getTierRank (getTierFromPlan (sub_plan acc))
        then row
        else if getTierRank (getTierFromPlan (sub_plan row)) = getTierRank (getTierFromPlan (sub_plan acc))
              \<and> sub_expiresAt row > sub_expiresAt acc
        then row else acc)
   \<and> (getTierRank (getTierFromPlan (sub_plan a)) = getTierRank (getTierFromPlan (sub_plan b))
        \<and> sub_expiresAt b < sub_expiresAt a
      \<longrightarrow> selectSubscription [a, b] = Some a \<and> selectSubscription [b, a] = Some a
          \<and> snd (authSelect [a, b]) = Some a \<and> snd (authSelect [b, a]) = Some a)"
proof -
  have 1: "selectSubscription (x # xs) = Some (foldl pickWinner x xs)"
    by (simp add: selectSubscription_def foldl_selectStep)
  have 2: "authSelect (x # xs) =
       (getTierFromPlan (sub_plan (foldl pickWinner x xs)), Some (foldl pickWinner x xs))"
    by (simp add: authSelect_def foldl_authSelectStep)
  have 3: "pickWinner acc row =
       (if getTierRank (getTierFromPlan (sub_plan row)) > getTierRank (getTierFromPlan (sub_plan acc))
        then row
        else if getTierRank (getTierFromPlan (sub_plan row)) = getTierRank (getTierFromPlan (sub_plan acc))
              \<and> sub_expiresAt row > sub_expiresAt acc
        then row else acc)"
    by (simp add: pickWinner_def subRank_def)
  have 4: "selectSubscription [a, b] = Some a \<and> selectSubscription [b, a] = Some a
          \<and> snd (authSelect [a, b]) = Some a \<and> snd (authSelect [b, a]) = Some a"
    if "getTierRank (getTierFromPlan (sub_plan a)) = getTierRank (getTierFromPlan (sub_plan b))"
       and "sub_expiresAt b < sub_expiresAt a"
    using that by (simp add: selectSubscription_def authSelect_def Let_def)
  from 1 2 3 4 show ?thesis by blast
qed

theorem winner_is_pairwise_reduction_witness:
  "getTierRank (getTierFromPlan (sub_plan subA)) = getTierRank (getTierFromPlan (sub_plan subB))
       \<and> sub_expiresAt subB < sub_expiresAt subA
       \<and> selectSubscription [subA, subB] = Some subA \<and> selectSubscription [subB, subA] = Some subA
       \<and> snd (authSelect [subA, subB]) = Some subA \<and> snd (authSelect [subB, subA]) = Some subA"
proof -
  have r: "getTierRank (getTierFromPlan (sub_plan subA)) = getTierRank (getTierFromPlan (sub_plan subB))"
    by (simp add: subA_def subB_def plan_eval str_eval)
  have e: "sub_expiresAt subB < sub_expiresAt subA"
    by (simp add: subA_def subB_def)
  from winner_is_pairwise_reduction [of subA "[]" subA subA subA subB] r e
  show ?thesis by blast
qed


section \<open>Tier resolution\<close>

text \<open>
  Claim C8, as the specification states it, fails: the code trims the plan before it
  lowercases it, so \<open>" monthly"\<close> resolves to \<open>personal\<close>, where lowercasing alone leaves
  a string that is none of the listed cases.
\<close>

theorem tier_spec_counterexample:
  "getTierFromPlan '' monthly'' = ''personal''
   \<and> tierFromPlanString_spec '' monthly'' = ''free''"
  by (simp add: plan_eval tierFromPlanString_spec_def str_eval)

text \<open>
  Claim C8, amended. For a plan of ASCII characters, tier resolution trims the ASCII
  white space around the plan and lowercases it: \<open>business\<close> when the
  lowercased plan contains \<open>"business"\<close>; otherwise \<open>personal\<close> when it contains
  \<open>"personal"\<close> or \<open>"referral"\<close>, or when the trimmed, lowercased plan is exactly
  \<open>"monthly"\<close> or \<open>"annual"\<close>; otherwise \<open>free\<close>, also for the empty plan. The ranks are
  business 3, personal 2, free 1.
\<close>

theorem getTierFromPlan_trims_and_lowercases:
  assumes "isAscii plan"
  shows "getTierFromPlan plan =
     (if str_includes (toLowerCase plan) ''business'' then ''business''
      else if str_includes (toLowerCase plan) ''personal''
            \<or> toLowerCase (trim plan) = ''monthly''
            \<or> toLowerCase (trim plan) = ''annual''
            \<or> str_includes (toLowerCase plan) ''referral''
      then ''personal''
      else ''free'')
   \<and> getTierFromPlan [] = ''free''
   \<and> getTierRank ''business'' = 3 \<and> getTierRank ''personal'' = 2 \<and> getTierRank ''free'' = 1
   \<and> getTierRank ''business'' > getTierRank ''personal''
   \<and> getTierRank ''personal'' > getTierRank ''free''"
proof -
  have inc: "str_includes (normalizePlan plan) w = str_includes (toLowerCase plan) w"
    if "w \<noteq> []" "\<not> isSpace (hd w)" "\<not> isSpace (last w)" for w
    unfolding normalizePlan_def toLowerCase_trim using includes_trim [OF that] .
  have b: "str_includes (normalizePlan plan) ''business'' = str_includes (toLowerCase plan) ''business''"
    by (rule inc) (simp_all add: isSpace_def)
  have p: "str_includes (normalizePlan plan) ''personal'' = str_includes (toLowerCase plan) ''personal''"
    by (rule inc) (simp_all add: isSpace_def)
  have r: "str_includes (normalizePlan plan) ''referral'' = str_includes (toLowerCase plan) ''referral''"
    by (rule inc) (simp_all add: isSpace_def)
  have e: "normalizePlan plan = [] \<Longrightarrow> \<not> str_includes (normalizePlan plan) w" if "w \<noteq> []" for w
    using that by simp
  have main: "getTierFromPlan plan =
     (if str_includes (toLowerCase plan) ''business'' then ''business''
      else if str_includes (toLowerCase plan) ''personal''
            \<or> toLowerCase (trim plan) = ''monthly''
            \<or> toLowerCase (trim plan) = ''annual''
            \<or> str_includes (toLowerCase plan) ''referral''
      then ''personal''
      else ''free'')"
  proof (cases "normalizePlan plan = []")
    case True
    have "\<not> str_includes (toLowerCase plan) ''business''"
         "\<not> str_includes (toLowerCase plan) ''personal''"
         "\<not> str_includes (toLowerCase plan) ''referral''"
      using e [OF _ True] b p r by simp_all
    moreover have "toLowerCase (trim plan) = []" using True by (simp add: normalizePlan_def)
    ultimately show ?thesis using True by (simp add: getTierFromPlan_def)
  next
    case False
    then show ?thesis
      unfolding getTierFromPlan_def Let_def b p r by (simp add: normalizePlan_def)
  qed
  have empty: "getTierFromPlan [] = ''free''"
    by (simp add: plan_eval str_eval)
  show ?thesis using main empty by (simp add: getTierRank_def)
qed

theorem getTierFromPlan_trims_and_lowercases_witness:
  "isAscii ''  Monthly ''
   \<and> getTierFromPlan ''business_annual'' = ''business''
   \<and> getTierFromPlan ''personal_referral_bonus'' = ''personal''
   \<and> getTierFromPlan ''  Monthly '' = ''personal''
   \<and> getTierFromPlan ''gold'' = ''free''"
proof -
  have a: "isAscii ''business_annual''" "isAscii ''personal_referral_bonus''"
    "isAscii ''  Monthly ''" "isAscii ''gold''"
    by (simp_all add: isAscii_def)
  from getTierFromPlan_trims_and_lowercases [OF a(1)]
    getTierFromPlan_trims_and_lowercases [OF a(2)]
    getTierFromPlan_trims_and_lowercases [OF a(3)]
    getTierFromPlan_trims_and_lowercases [OF a(4)] a(3)
  show ?thesis by (simp add: str_eval)
qed


section \<open>Gateway status mapping\<close>

text \<open>
  Claim C3, as the specification states it, fails at the empty (or missing) status: the
  code returns \<open>"pending"\<close>, the lowercase passthrough would be the empty string.
\<close>

theorem status_spec_counterexample:
  "mapPayPalStatusToLocal [] = ''pending'' \<and> mapStatus_spec [] = []"
  by (simp add: mapPayPalStatusToLocal_def mapStatus_spec_def str_eval)

text \<open>
  Claim C3, amended. For a status of ASCII characters: compared without regard to case,
  \<open>ACTIVE\<close> maps to \<open>active\<close>,
  \<open>APPROVAL_PENDING\<close> to \<open>pending\<close>, \<open>SUSPENDED\<close> to \<open>suspended\<close>, \<open>CANCELLED\<close> and
  \<open>EXPIRED\<close> to \<open>canceled\<close>; every other non-empty status maps to its lowercase form, and
  the empty status maps to \<open>pending\<close>.
\<close>

theorem mapPayPalStatusToLocal_table:
  assumes "isAscii s"
  shows "(toUpperCase s = ''ACTIVE'' \<longrightarrow> mapPayPalStatusToLocal s = ''active'')
   \<and> (toUpperCase s = ''APPROVAL_PENDING'' \<longrightarrow> mapPayPalStatusToLocal s = ''pending'')
   \<and> (toUpperCase s = ''SUSPENDED'' \<longrightarrow> mapPayPalStatusToLocal s = ''suspended'')
   \<and> (toUpperCase s = ''CANCELLED'' \<or> toUpperCase s = ''EXPIRED''
        \<longrightarrow> mapPayPalStatusToLocal s = ''canceled'')
   \<and> (toUpperCase s \<notin> set [''ACTIVE'', ''APPROVAL_PENDING'', ''SUSPENDED'', ''CANCELLED'',
                             ''EXPIRED''] \<and> s \<noteq> []
        \<longrightarrow> mapPayPalStatusToLocal s = toLowerCase s)
   \<and> (s = [] \<longrightarrow> mapPayPalStatusToLocal s = ''pending'')"
proof -
  have ne: "s \<noteq> [] \<Longrightarrow> toUpperCase s \<noteq> []" by (simp add: toUpperCase_def)
  have em: "toUpperCase [] = []" by (simp add: toUpperCase_def)
  show ?thesis
    using ne by (auto simp: mapPayPalStatusToLocal_def Let_def toLowerCase_toUpperCase em)
qed

theorem mapPayPalStatusToLocal_table_witness:
  "isAscii ''APPROVED''
   \<and> mapPayPalStatusToLocal ''Active'' = ''active''
   \<and> mapPayPalStatusToLocal ''APPROVAL_PENDING'' = ''pending''
   \<and> mapPayPalStatusToLocal ''suspended'' = ''suspended''
   \<and> mapPayPalStatusToLocal ''CANCELLED'' = ''canceled''
   \<and> mapPayPalStatusToLocal ''EXPIRED'' = ''canceled''
   \<and> mapPayPalStatusToLocal ''APPROVED'' = ''approved''
   \<and> mapPayPalStatusToLocal [] = ''pending''"
proof -
  have a: "isAscii ''Active''" "isAscii ''APPROVAL_PENDING''" "isAscii ''suspended''"
    "isAscii ''CANCELLED''" "isAscii ''EXPIRED''" "isAscii ''APPROVED''" "isAscii []"
    by (simp_all add: isAscii_def)
  from mapPayPalStatusToLocal_table [OF a(1)]
    mapPayPalStatusToLocal_table [OF a(2)]
    mapPayPalStatusToLocal_table [OF a(3)]
    mapPayPalStatusToLocal_table [OF a(4)]
    mapPayPalStatusToLocal_table [OF a(5)]
    mapPayPalStatusToLocal_table [OF a(6)]
    mapPayPalStatusToLocal_table [OF a(7)] a(6)
  show ?thesis by (simp add: str_eval)
qed

section \<open>GET for an unknown email\<close>

text \<open>
  Claim C10. When the normalised email is not empty and no user row has it, the GET of
  the subscriptions endpoint answers 200 with no subscription, tier \<open>free\<close>, the
  features of the free plan and both usage counters zero, and returns the database as it
  was: no user row is created.
\<close>

theorem get_unknown_email_is_free_and_pure:
  assumes "normalizeEmail emailParam \<noteq> []"
    and "normalizeEmail emailParam \<notin> set (map user_email (db_users d))"
  shows "subscriptions_handleGet w now emailParam d =
           ((200, PlanStateBody None ''free''
                    \<lparr>pf_tier = ''free'', pf_label = ''Free'', pf_dailyOrderLimit = Some 2,
                     pf_weeklyOrderLimit = Some 10, pf_retentionHours = 12, pf_seatLimit = 1,
                     pf_orderEmailNotifications = False\<rparr>
                    \<lparr>ordersToday = 0, ordersThisWeek = 0\<rparr>), d)"
proof -
  have "find (\<lambda>u. user_email u = normalizeEmail emailParam) (db_users d) = None"
    using assms(2) by (force simp: find_None_iff)
  then show ?thesis
    using assms(1)
    by (simp add: subscriptions_handleGet_def Let_def getPlanFeatures_def PLAN_FEATURES_free_def)
qed

theorem get_unknown_email_is_free_and_pure_witness:
  "normalizeEmail '' Carol@X.com '' \<noteq> []
   \<and> normalizeEmail '' Carol@X.com '' \<notin> set (map user_email (db_users demoDb))
   \<and> subscriptions_handleGet demoWorld 5000 '' Carol@X.com '' demoDb =
           ((200, PlanStateBody None ''free''
                    \<lparr>pf_tier = ''free'', pf_label = ''Free'', pf_dailyOrderLimit = Some 2,
                     pf_weeklyOrderLimit = Some 10, pf_retentionHours = 12, pf_seatLimit = 1,
                     pf_orderEmailNotifications = False\<rparr>
                    \<lparr>ordersToday = 0, ordersThisWeek = 0\<rparr>), demoDb)"
proof -
  have n: "normalizeEmail '' Carol@X.com '' = ''carol@x.com''"
    by (simp add: normalizeEmail_def str_eval)
  have a: "normalizeEmail '' Carol@X.com '' \<noteq> []" by (simp add: n)
  have b: "normalizeEmail '' Carol@X.com '' \<notin> set (map user_email (db_users demoDb))"
    by (simp add: n demoDb_def)
  from get_unknown_email_is_free_and_pure [OF a b, of demoWorld 5000] a b
  show ?thesis by simp
qed


section \<open>Referral reward\<close>

text \<open>
  Claim C5. When the invitee has an open invite (the oldest one is \<open>invite\<close>),
  \<open>applyReferralReward\<close> appends two rows with plan \<open>personal_referral_bonus\<close>, gateway
  \<open>REFERRAL\<close> and status \<open>active\<close>: one for the referrer and one for the invitee. Each
  starts at the later of \<open>now\<close> and the latest expiry among that recipient's active rows
  and expires \<open>addMonths(start, 1)\<close> later; for distinct users the invitee's start does
  not depend on the referrer's new row. The invite becomes \<open>REWARDED\<close> with the invitee's
  user id and \<open>rewardedAt = now\<close>, and these are returned.
\<close>

theorem referral_reward_grants_both:
  assumes "firstRow (orderByAsc inv_createdAt
             (filter (inviteOpenFor (user_email u)) (db_invites d))) = Some invite"
  shows "(let startR = Max (insert now (activeExpiries d (inv_referrerUserId invite)));
              referrerRow =
                \<lparr>sub_id = freshId (map sub_id (db_subscriptions d)),
                 sub_userId = inv_referrerUserId invite,
                 sub_plan = ''personal_referral_bonus'', sub_status = ''active'',
                 sub_gateway = ''REFERRAL'', sub_gatewaySubscriptionId = None,
                 sub_startedAt = startR, sub_nextBillingAt = Some (addMonths w startR 1),
                 sub_expiresAt = addMonths w startR 1, sub_createdAt = now\<rparr>;
              d1 = d\<lparr>db_subscriptions := db_subscriptions d @ [referrerRow]\<rparr>;
              startI = Max (insert now (activeExpiries d1 (user_id u)));
              inviteeRow =
                \<lparr>sub_id = freshId (map sub_id (db_subscriptions d1)),
                 sub_userId = user_id u,
                 sub_plan = ''personal_referral_bonus'', sub_status = ''active'',
                 sub_gateway = ''REFERRAL'', sub_gatewaySubscriptionId = None,
                 sub_startedAt = startI, sub_nextBillingAt = Some (addMonths w startI 1),
                 sub_expiresAt = addMonths w startI 1, sub_createdAt = now\<rparr>;
              rewarded = (\<lambda>i. i\<lparr>inv_inviteeUserId := Some (user_id u),
                                  inv_status := ''REWARDED'', inv_rewardedAt := Some now\<rparr>)
          in applyReferralReward w d u now =
               (Some \<lparr>rr_inviteId = inv_id invite,
                      rr_referrerUserId = inv_referrerUserId invite,
                      rr_inviteeUserId = Some (user_id u), rr_rewardedAt = Some now\<rparr>,
                d\<lparr>db_subscriptions := db_subscriptions d @ [referrerRow, inviteeRow],
                  db_invites := map (\<lambda>i. if inv_id i = inv_id invite then rewarded i else i)
                                  (db_invites d)\<rparr>)
             \<and> rewarded invite \<in> set (map (\<lambda>i. if inv_id i = inv_id invite then rewarded i else i)
                                  (db_invites d))
             \<and> now \<le> startR \<and> now \<le> startI
             \<and> (inv_referrerUserId invite \<noteq> user_id u
                  \<longrightarrow> startI = Max (insert now (activeExpiries d (user_id u)))))"
proof -
  from firstRow_orderByAsc [OF assms] have mem: "invite \<in> set (db_invites d)" by simp
  have fin: "finite (activeExpiries x y)" for x y by (simp add: activeExpiries_def)
  have ge: "now \<le> Max (insert now (activeExpiries x y))" for x y
    using fin [of x y] by simp
  have ind: "inv_referrerUserId invite \<noteq> user_id u \<Longrightarrow>
      activeExpiries (d\<lparr>db_subscriptions := db_subscriptions d @ [row]\<rparr>) (user_id u)
        = activeExpiries d (user_id u)"
    if "sub_userId row = inv_referrerUserId invite" for row
    using that by (simp add: activeExpiries_other)
  have run: "applyReferralReward w d u now =
      (let d1 = snd (createReferralBonusSubscription w d (inv_referrerUserId invite) now);
           d2 = snd (createReferralBonusSubscription w d1 (user_id u) now);
           updatedInvite = markRewarded (user_id u) now invite;
           d3 = d2\<lparr>db_invites := updateWhere (\<lambda>i. inv_id i = inv_id invite)
                        (markRewarded (user_id u) now) (db_invites d2)\<rparr>
       in (Some \<lparr>rr_inviteId = inv_id updatedInvite,
                 rr_referrerUserId = inv_referrerUserId updatedInvite,
                 rr_inviteeUserId = inv_inviteeUserId updatedInvite,
                 rr_rewardedAt = inv_rewardedAt updatedInvite\<rparr>, d3))"
    using assms by (simp add: applyReferralReward_def)
  have inset: "f invite \<in> f ` (set (db_invites d) \<inter> {i. inv_id i = inv_id invite})"
    for f :: "referralInvite \<Rightarrow> referralInvite"
    using mem by blast
  show ?thesis
    unfolding run Let_def
    using ge ind inset
    by (simp add: createReferralBonusSubscription_def getUserAccessEnd_Max markRewarded_def
        updateWhere_def Let_def del: createBonus_invites)
qed

lemma demo_open:
  "firstRow (orderByAsc inv_createdAt
             (filter (inviteOpenFor (user_email demoAnn)) (db_invites demoDb))) = Some demoInvite"
  by (simp add: demoDb_def demoAnn_def demoInvite_def inviteOpenFor_def orderByAsc_def firstRow_def)

lemma demo_exp8: "activeExpiries demoDb 8 = {}"
  by (simp add: activeExpiries_def demoDb_def subA_def subB_def)

lemma demo_exp7: "activeExpiries demoDb 7 = {2000, 1000}"
  by (simp add: activeExpiries_def demoDb_def subA_def subB_def)

theorem referral_reward_grants_both_witness:
  "firstRow (orderByAsc inv_createdAt
             (filter (inviteOpenFor (user_email demoAnn)) (db_invites demoDb))) = Some demoInvite
   \<and> inv_referrerUserId demoInvite \<noteq> user_id demoAnn
   \<and> fst (applyReferralReward demoWorld demoDb demoAnn 1500) =
        Some \<lparr>rr_inviteId = 1, rr_referrerUserId = 8, rr_inviteeUserId = Some 7,
              rr_rewardedAt = Some 1500\<rparr>
   \<and> db_subscriptions (snd (applyReferralReward demoWorld demoDb demoAnn 1500)) =
        [subA, subB,
         \<lparr>sub_id = 3, sub_userId = 8, sub_plan = ''personal_referral_bonus'',
          sub_status = ''active'', sub_gateway = ''REFERRAL'', sub_gatewaySubscriptionId = None,
          sub_startedAt = 1500, sub_nextBillingAt = Some 2592001500,
          sub_expiresAt = 2592001500, sub_createdAt = 1500\<rparr>,
         \<lparr>sub_id = 4, sub_userId = 7, sub_plan = ''personal_referral_bonus'',
          sub_status = ''active'', sub_gateway = ''REFERRAL'', sub_gatewaySubscriptionId = None,
          sub_startedAt = 2000, sub_nextBillingAt = Some 2592002000,
          sub_expiresAt = 2592002000, sub_createdAt = 1500\<rparr>]
   \<and> db_invites (snd (applyReferralReward demoWorld demoDb demoAnn 1500)) =
        [demoInvite\<lparr>inv_inviteeUserId := Some 7, inv_status := ''REWARDED'',
                    inv_rewardedAt := Some 1500\<rparr>]"
proof -
  have r: "inv_referrerUserId demoInvite \<noteq> user_id demoAnn"
    by (simp add: demoInvite_def demoAnn_def)
  have ids: "freshId (map sub_id (db_subscriptions demoDb)) = 3"
    by (simp add: freshId_def demoDb_def subA_def subB_def)
  have e8: "Max (insert 1500 (activeExpiries demoDb (inv_referrerUserId demoInvite))) = 1500"
    by (simp add: demoInvite_def demo_exp8)
  have e7: "Max (insert 1500 (activeExpiries demoDb (user_id demoAnn))) = 2000"
    by (simp add: demoAnn_def demo_exp7)
  have am: "addMonths demoWorld t 1 = t + 2592000000" for t
    by (simp add: addMonths_def demoWorld_def msPerDay_def)
  from referral_reward_grants_both [OF demo_open, of 1500 demoWorld] r
  have "applyReferralReward demoWorld demoDb demoAnn 1500 =
      (Some \<lparr>rr_inviteId = inv_id demoInvite, rr_referrerUserId = inv_referrerUserId demoInvite,
             rr_inviteeUserId = Some (user_id demoAnn), rr_rewardedAt = Some 1500\<rparr>,
       demoDb\<lparr>db_subscriptions := db_subscriptions demoDb @
           [\<lparr>sub_id = 3, sub_userId = inv_referrerUserId demoInvite,
             sub_plan = ''personal_referral_bonus'', sub_status = ''active'',
             sub_gateway = ''REFERRAL'', sub_gatewaySubscriptionId = None,
             sub_startedAt = 1500, sub_nextBillingAt = Some (1500 + 2592000000),
             sub_expiresAt = 1500 + 2592000000, sub_createdAt = 1500\<rparr>,
            \<lparr>sub_id = freshId (map sub_id (db_subscriptions demoDb) @ [3]),
             sub_userId = user_id demoAnn,
             sub_plan = ''personal_referral_bonus'', sub_status = ''active'',
             sub_gateway = ''REFERRAL'', sub_gatewaySubscriptionId = None,
             sub_startedAt = 2000, sub_nextBillingAt = Some (2000 + 2592000000),
             sub_expiresAt = 2000 + 2592000000, sub_createdAt = 1500\<rparr>],
          db_invites := map (\<lambda>i. if inv_id i = inv_id demoInvite
               then i\<lparr>inv_inviteeUserId := Some (user_id demoAnn),
                       inv_status := ''REWARDED'', inv_rewardedAt := Some 1500\<rparr> else i)
                                  (db_invites demoDb)\<rparr>)"
    by (simp add: Let_def ids e8 e7 am)
  then show ?thesis
    using demo_open r
    by (simp add: demoDb_def demoInvite_def demoAnn_def freshId_def subA_def subB_def)
qed


text \<open>
  Claim C6. A reward is chosen only among the invitee's invites with status \<open>PENDING\<close> or
  \<open>REGISTERED\<close>; afterwards every invite with the chosen identifier is \<open>REWARDED\<close>; no
  later reward, after any sequence of requests, chooses that identifier again; a
  \<open>REWARDED\<close> invite stays \<open>REWARDED\<close> at its place through any sequence of requests;
  without an open invite \<open>applyReferralReward\<close> changes nothing; and an activation for an
  email without an open invite leaves the invites as they are, returns no reward and
  adds no \<open>REFERRAL\<close> row.
\<close>

theorem reward_granted_at_most_once:
  "(applyReferralReward w d u now = (Some r, d1) \<longrightarrow>
      list_ex (\<lambda>i. inv_id i = rr_inviteId r \<and> inv_inviteeEmail i = user_email u
                   \<and> inv_status i \<in> set [''PENDING'', ''REGISTERED'']) (db_invites d)
      \<and> list_all (\<lambda>i. inv_id i \<noteq> rr_inviteId r \<or> inv_status i = ''REWARDED'') (db_invites d1)
      \<and> (\<forall>rs u' now' r' d2.
            applyReferralReward w (run w rs d1) u' now' = (Some r', d2)
            \<longrightarrow> rr_inviteId r' \<noteq> rr_inviteId r))
   \<and> (i < length (db_invites d) \<and> inv_status (db_invites d ! i) = ''REWARDED'' \<longrightarrow>
        i < length (db_invites (run w rs d))
        \<and> inv_id (db_invites (run w rs d) ! i) = inv_id (db_invites d ! i)
        \<and> inv_status (db_invites (run w rs d) ! i) = ''REWARDED'')
   \<and> (\<not> list_ex (inviteOpenFor (user_email u)) (db_invites d) \<longrightarrow>
        applyReferralReward w d u now = (None, d))
   \<and> (\<not> list_ex (inviteOpenFor (normalizeEmail (req_email req))) (db_invites d) \<longrightarrow>
        db_invites (snd (handleActivatePayPal w now req d)) = db_invites d
        \<and> length (filter (\<lambda>s. sub_gateway s = ''REFERRAL'')
             (db_subscriptions (snd (handleActivatePayPal w now req d))))
           \<le> length (filter (\<lambda>s. sub_gateway s = ''REFERRAL'') (db_subscriptions d))
        \<and> (\<forall>sub rew st. snd (fst (handleActivatePayPal w now req d)) = ActivatedBody sub rew st
               \<longrightarrow> rew = None))"
proof -
  have p1: "list_ex (\<lambda>i. inv_id i = rr_inviteId r \<and> inv_inviteeEmail i = user_email u
                   \<and> inv_status i \<in> set [''PENDING'', ''REGISTERED'']) (db_invites d)
      \<and> list_all (\<lambda>i. inv_id i \<noteq> rr_inviteId r \<or> inv_status i = ''REWARDED'') (db_invites d1)
      \<and> (\<forall>rs u' now' r' d2.
            applyReferralReward w (run w rs d1) u' now' = (Some r', d2)
            \<longrightarrow> rr_inviteId r' \<noteq> rr_inviteId r)"
    if a: "applyReferralReward w d u now = (Some r, d1)"
  proof -
    from apply_Some_chosen [OF a] obtain invite where
      "invite \<in> set (db_invites d)" "inviteOpenFor (user_email u) invite"
      "rr_inviteId r = inv_id invite" by blast
    then have c1: "list_ex (\<lambda>i. inv_id i = rr_inviteId r \<and> inv_inviteeEmail i = user_email u
                   \<and> inv_status i \<in> set [''PENDING'', ''REGISTERED'']) (db_invites d)"
      unfolding list_ex_iff inviteOpenFor_def by (intro bexI [of _ invite]) simp_all
    have s: "settled (rr_inviteId r) (db_invites d1)" by (rule settled_after_reward [OF a])
    then have c2: "list_all (\<lambda>i. inv_id i \<noteq> rr_inviteId r \<or> inv_status i = ''REWARDED'')
        (db_invites d1)"
      by (simp add: settled_def)
    have c3: "rr_inviteId r' \<noteq> rr_inviteId r"
      if b: "applyReferralReward w (run w rs d1) u' now' = (Some r', d2)" for rs u' now' r' d2
    proof -
      have "settled (rr_inviteId r) (db_invites (run w rs d1))"
        using s run_evolve by (rule settled_evolve)
      then show ?thesis using b by (rule settled_not_chosen)
    qed
    from c1 c2 c3 show ?thesis by blast
  qed
  have p2: "i < length (db_invites (run w rs d))
        \<and> inv_id (db_invites (run w rs d) ! i) = inv_id (db_invites d ! i)
        \<and> inv_status (db_invites (run w rs d) ! i) = ''REWARDED''"
    if "i < length (db_invites d)" "inv_status (db_invites d ! i) = ''REWARDED''"
    using run_evolve [of d w rs] that unfolding invitesEvolve_def by auto
  have p3: "applyReferralReward w d u now = (None, d)"
    if "\<not> list_ex (inviteOpenFor (user_email u)) (db_invites d)"
    using that by (rule apply_noop)
  note p4 = handleActivate_no_open [of req d w now]
  from p1 p2 p3 p4 show ?thesis by blast
qed

lemma demo_first: "applyReferralReward demoWorld demoDb demoAnn 1500 = (Some demoReward, demoDb1)"
  by code_simp

lemma demo_second:
  "fst (applyReferralReward demoWorld (run demoWorld demoLater demoDb1) demoAnn 1700) =
     Some \<lparr>rr_inviteId = 2, rr_referrerUserId = 9, rr_inviteeUserId = Some 7,
           rr_rewardedAt = Some 1700\<rparr>"
  by code_simp

lemma demo_closed: "\<not> list_ex (inviteOpenFor (user_email demoAnn)) (db_invites demoDb1)"
  by code_simp

lemma demo_closed_req:
  "\<not> list_ex (inviteOpenFor (normalizeEmail (req_email demoReq))) (db_invites demoDb1)"
  by code_simp

lemma demo_rewarded:
  "0 < length (db_invites demoDb1) \<and> inv_status (db_invites demoDb1 ! 0) = ''REWARDED''"
  by code_simp


theorem reward_granted_at_most_once_witness:
  "applyReferralReward demoWorld demoDb demoAnn 1500 = (Some demoReward, demoDb1)
   \<and> list_all (\<lambda>i. inv_id i \<noteq> rr_inviteId demoReward \<or> inv_status i = ''REWARDED'')
        (db_invites demoDb1)
   \<and> fst (applyReferralReward demoWorld (run demoWorld demoLater demoDb1) demoAnn 1700) =
        Some \<lparr>rr_inviteId = 2, rr_referrerUserId = 9, rr_inviteeUserId = Some 7,
              rr_rewardedAt = Some 1700\<rparr>
   \<and> rr_inviteId \<lparr>rr_inviteId = 2, rr_referrerUserId = 9, rr_inviteeUserId = Some 7,
              rr_rewardedAt = Some 1700\<rparr> \<noteq> rr_inviteId demoReward
   \<and> 0 < length (db_invites demoDb1)
   \<and> inv_status (db_invites demoDb1 ! 0) = ''REWARDED''
   \<and> inv_status (db_invites (run demoWorld demoLater demoDb1) ! 0) = ''REWARDED''
   \<and> \<not> list_ex (inviteOpenFor (user_email demoAnn)) (db_invites demoDb1)
   \<and> applyReferralReward demoWorld demoDb1 demoAnn 1700 = (None, demoDb1)
   \<and> \<not> list_ex (inviteOpenFor (normalizeEmail (req_email demoReq))) (db_invites demoDb1)
   \<and> db_invites (snd (handleActivatePayPal demoWorld 1700 demoReq demoDb1)) = db_invites demoDb1
   \<and> length (filter (\<lambda>s. sub_gateway s = ''REFERRAL'')
             (db_subscriptions (snd (handleActivatePayPal demoWorld 1700 demoReq demoDb1))))
       \<le> length (filter (\<lambda>s. sub_gateway s = ''REFERRAL'') (db_subscriptions demoDb1))"
proof -
  let ?r2 = "\<lparr>rr_inviteId = 2, rr_referrerUserId = 9, rr_inviteeUserId = Some 7,
              rr_rewardedAt = Some 1700\<rparr>"
  let ?again = "applyReferralReward demoWorld (run demoWorld demoLater demoDb1) demoAnn 1700"
  have second: "?again = (Some ?r2, snd ?again)"
    using demo_second by (simp add: prod_eq_iff)
  note first = reward_granted_at_most_once
    [where w = demoWorld and d = demoDb and u = demoAnn and now = 1500 and r = demoReward
       and ?d1.0 = demoDb1]
  note later = reward_granted_at_most_once
    [where w = demoWorld and d = demoDb1 and u = demoAnn and now = 1700 and i = 0
       and rs = demoLater and req = demoReq]
  from first demo_first
  have a: "list_all (\<lambda>i. inv_id i \<noteq> rr_inviteId demoReward \<or> inv_status i = ''REWARDED'')
        (db_invites demoDb1)"
    and b: "\<forall>rs u' now' r' d2.
            applyReferralReward demoWorld (run demoWorld rs demoDb1) u' now' = (Some r', d2)
            \<longrightarrow> rr_inviteId r' \<noteq> rr_inviteId demoReward"
    by blast+
  from b second have c: "rr_inviteId ?r2 \<noteq> rr_inviteId demoReward" by blast
  from later demo_rewarded
  have e: "inv_status (db_invites (run demoWorld demoLater demoDb1) ! 0) = ''REWARDED''"
    by blast
  from later demo_closed
  have f: "applyReferralReward demoWorld demoDb1 demoAnn 1700 = (None, demoDb1)" by blast
  from later demo_closed_req
  have g: "db_invites (snd (handleActivatePayPal demoWorld 1700 demoReq demoDb1)) = db_invites demoDb1"
    and h: "length (filter (\<lambda>s. sub_gateway s = ''REFERRAL'')
             (db_subscriptions (snd (handleActivatePayPal demoWorld 1700 demoReq demoDb1))))
       \<le> length (filter (\<lambda>s. sub_gateway s = ''REFERRAL'') (db_subscriptions demoDb1))"
    by blast+
  from demo_first a demo_second c demo_rewarded e demo_closed f demo_closed_req g h
  show ?thesis by blast
qed


section \<open>PayPal activation\<close>






section \<open>Client profile upsert\<close>

text \<open>
  Claim C9. For a request that passes validation, on a profile table whose identifiers
  and (user, clientId) pairs are unique: after the request, and after the same request
  again (with any client name), exactly one row has the user and the client id; the table
  stays well formed; uniqueness of (user, lowercased client email) is preserved; and
  when the user exists, one of the user's rows matches the client email without regard
  to case and none has the client id, the handler answers 200 with the projection of the
  updated row (its email normalised, a missing name empty) and the new table is the old
  one with that row's client id (and name) replaced: no row is added.
\<close>

theorem profile_post_upserts:
  assumes v: "validPost req" and wf: "profilesWellFormed (db_profiles d)"
  shows "(\<exists>usr. find (\<lambda>u. user_email u = normalizeEmail (preq_email req))
                  (db_users (snd (profiles_handlePost (req\<lparr>preq_clientName := name2\<rparr>)
                                    (snd (profiles_handlePost req d))))) = Some usr
            \<and> length (filter (hasClientId (user_id usr) (trim (preq_clientId req)))
                 (db_profiles (snd (profiles_handlePost req d)))) = 1
            \<and> length (filter (hasClientId (user_id usr) (trim (preq_clientId req)))
                 (db_profiles (snd (profiles_handlePost (req\<lparr>preq_clientName := name2\<rparr>)
                                    (snd (profiles_handlePost req d)))))) = 1)
     \<and> profilesWellFormed (db_profiles (snd (profiles_handlePost req d)))
     \<and> (emailsUnique (db_profiles d)
          \<longrightarrow> emailsUnique (db_profiles (snd (profiles_handlePost req d))))
     \<and> (\<forall>usr existing.
            find (\<lambda>u. user_email u = normalizeEmail (preq_email req)) (db_users d) = Some usr
            \<and> find (emailMatches (user_id usr) (normalizeEmail (preq_clientEmail req)))
                 (db_profiles d) = Some existing
            \<and> \<not> list_ex (hasClientId (user_id usr) (trim (preq_clientId req))) (db_profiles d)
          \<longrightarrow> profiles_handlePost req d =
                ((200, ProfileBody (profileView
                          (existing\<lparr>cp_clientId := trim (preq_clientId req),
                             cp_clientName := nameOrNull (trim (preq_clientName req))
                                                (cp_clientName existing)\<rparr>))),
                 d\<lparr>db_profiles := map (\<lambda>q. if q = existing
                        then q\<lparr>cp_clientId := trim (preq_clientId req),
                               cp_clientName := nameOrNull (trim (preq_clientName req))
                                                  (cp_clientName existing)\<rparr>
                        else q) (db_profiles d)\<rparr>))"
proof -
  let ?e = "normalizeEmail (preq_email req)"
  let ?c = "trim (preq_clientId req)"
  let ?req2 = "req\<lparr>preq_clientName := name2\<rparr>"
  let ?d1 = "snd (profiles_handlePost req d)"
  let ?d2 = "snd (profiles_handlePost ?req2 ?d1)"
  have v2: "validPost ?req2" using v by (simp add: validPost_def)
  from post_step [OF v wf] obtain usr where
    f1: "find (\<lambda>u. user_email u = ?e) (db_users ?d1) = Some usr"
    and wf1: "profilesWellFormed (db_profiles ?d1)"
    and has1: "list_ex (hasClientId (user_id usr) ?c) (db_profiles ?d1)"
    and eu1: "emailsUnique (db_profiles d) \<longrightarrow> emailsUnique (db_profiles ?d1)"
    by blast
  have users2: "db_users ?d2 = db_users ?d1"
    by (rule post_users_existing [OF v2]) (simp add: f1)
  from post_step [OF v2 wf1] obtain usr2 where
    f2: "find (\<lambda>u. user_email u = ?e) (db_users ?d2) = Some usr2"
    and wf2: "profilesWellFormed (db_profiles ?d2)"
    and has2: "list_ex (hasClientId (user_id usr2) ?c) (db_profiles ?d2)"
    by auto
  from f1 f2 users2 have same: "usr2 = usr" by simp
  have twice: "\<exists>usr. find (\<lambda>u. user_email u = ?e) (db_users ?d2) = Some usr
            \<and> length (filter (hasClientId (user_id usr) ?c) (db_profiles ?d1)) = 1
            \<and> length (filter (hasClientId (user_id usr) ?c) (db_profiles ?d2)) = 1"
    using f2 count_has [OF wf1 has1] count_has [OF wf2 has2] same by blast
  have inplace: "profiles_handlePost req d =
                ((200, ProfileBody (profileView
                          (existing\<lparr>cp_clientId := ?c,
                             cp_clientName := nameOrNull (trim (preq_clientName req))
                                                (cp_clientName existing)\<rparr>))),
                 d\<lparr>db_profiles := map (\<lambda>q. if q = existing
                        then q\<lparr>cp_clientId := ?c,
                               cp_clientName := nameOrNull (trim (preq_clientName req))
                                                  (cp_clientName existing)\<rparr>
                        else q) (db_profiles d)\<rparr>)"
    if f: "find (\<lambda>u. user_email u = ?e) (db_users d) = Some u"
      and m: "find (emailMatches (user_id u) (normalizeEmail (preq_clientEmail req)))
                 (db_profiles d) = Some existing"
      and free: "\<not> list_ex (hasClientId (user_id u) ?c) (db_profiles d)"
    for u existing
  proof -
    let ?upd = "\<lambda>q. q\<lparr>cp_clientId := ?c,
          cp_clientName := nameOrNull (trim (preq_clientName req)) (cp_clientName existing)\<rparr>"
    from v have ne: "normalizeEmail ?e \<noteq> []" by (simp add: validPost_def normalizeEmail_idem)
    from f have "find (\<lambda>x. user_email x = normalizeEmail ?e) (db_users d) = Some u"
      by (simp add: normalizeEmail_idem)
    from getOrCreate_existing [OF ne this]
    have g: "getOrCreateUserByEmail d ?e = Some (u, d)" .
    from m have ex: "existing \<in> set (db_profiles d)" "cp_userId existing = user_id u"
      by (auto simp: find_Some_iff emailMatches_def)
    with free have diff: "cp_clientId existing \<noteq> ?c"
      by (auto simp: list_ex_iff hasClientId_def)
    from wf have di: "distinct (map cp_id (db_profiles d))" by (simp add: wf_keys)
    have "updateWhere (\<lambda>q. cp_id q = cp_id existing) ?upd (db_profiles d)
        = map (\<lambda>q. if q = existing then ?upd q else q) (db_profiles d)"
      unfolding updateWhere_def
    proof (rule map_cong [OF refl])
      fix q assume "q \<in> set (db_profiles d)"
      with distinct_map_eq [OF di this ex(1)]
      have "cp_id q = cp_id existing \<longleftrightarrow> q = existing" by auto
      then show "(if cp_id q = cp_id existing then ?upd q else q)
          = (if q = existing then ?upd q else q)" by simp
    qed
    moreover have "profileTx (user_id u) ?c (normalizeEmail (preq_clientEmail req))
          (trim (preq_clientName req)) (db_profiles d)
        = Some (?upd existing, updateWhere (\<lambda>q. cp_id q = cp_id existing) ?upd (db_profiles d))"
      using m diff free ex(2) by (simp add: profileTx_def renameProfile_def Let_def)
    ultimately show ?thesis
      unfolding post_valid [OF v g] by simp
  qed
  from twice wf1 eu1 inplace show ?thesis by blast
qed

lemma demo_post_hyps:
  "validPost demoPost"
  "profilesWellFormed (db_profiles demoDbP)"
  "emailsUnique (db_profiles demoDbP)"
  "find (\<lambda>u. user_email u = normalizeEmail (preq_email demoPost)) (db_users demoDbP) = Some demoAnn"
  "find (emailMatches (user_id demoAnn) (normalizeEmail (preq_clientEmail demoPost)))
     (db_profiles demoDbP) = Some demoProfile"
  "\<not> list_ex (hasClientId (user_id demoAnn) (trim (preq_clientId demoPost))) (db_profiles demoDbP)"
  by code_simp+

lemma demo_post_user2:
  "find (\<lambda>u. user_email u = normalizeEmail (preq_email demoPost))
     (db_users (snd (profiles_handlePost (demoPost\<lparr>preq_clientName := ''Client Y''\<rparr>)
                       (snd (profiles_handlePost demoPost demoDbP))))) = Some demoAnn"
  by code_simp

lemma demo_post_view:
  "profileView (demoProfile\<lparr>cp_clientId := trim (preq_clientId demoPost),
      cp_clientName := nameOrNull (trim (preq_clientName demoPost))
                         (cp_clientName demoProfile)\<rparr>) = demoView"
  by code_simp

theorem profile_post_upserts_witness:
  "validPost demoPost
   \<and> profilesWellFormed (db_profiles demoDbP)
   \<and> emailsUnique (db_profiles demoDbP)
   \<and> find (\<lambda>u. user_email u = normalizeEmail (preq_email demoPost)) (db_users demoDbP)
        = Some demoAnn
   \<and> find (emailMatches (user_id demoAnn) (normalizeEmail (preq_clientEmail demoPost)))
        (db_profiles demoDbP) = Some demoProfile
   \<and> \<not> list_ex (hasClientId (user_id demoAnn) (trim (preq_clientId demoPost)))
          (db_profiles demoDbP)
   \<and> profiles_handlePost demoPost demoDbP =
        ((200, ProfileBody demoView),
         demoDbP\<lparr>db_profiles := map (\<lambda>q. if q = demoProfile
                then q\<lparr>cp_clientId := trim (preq_clientId demoPost),
                       cp_clientName := nameOrNull (trim (preq_clientName demoPost))
                                          (cp_clientName demoProfile)\<rparr>
                else q) (db_profiles demoDbP)\<rparr>)
   \<and> length (filter (hasClientId (user_id demoAnn) (trim (preq_clientId demoPost)))
        (db_profiles (snd (profiles_handlePost (demoPost\<lparr>preq_clientName := ''Client Y''\<rparr>)
                            (snd (profiles_handlePost demoPost demoDbP)))))) = 1
   \<and> emailsUnique (db_profiles (snd (profiles_handlePost demoPost demoDbP)))"
proof -
  note h = demo_post_hyps
  note T = profile_post_upserts [OF h(1) h(2), of "''Client Y''"]
  from T obtain usr where
    u: "find (\<lambda>u. user_email u = normalizeEmail (preq_email demoPost))
          (db_users (snd (profiles_handlePost (demoPost\<lparr>preq_clientName := ''Client Y''\<rparr>)
                       (snd (profiles_handlePost demoPost demoDbP))))) = Some usr"
    and c: "length (filter (hasClientId (user_id usr) (trim (preq_clientId demoPost)))
        (db_profiles (snd (profiles_handlePost (demoPost\<lparr>preq_clientName := ''Client Y''\<rparr>)
                            (snd (profiles_handlePost demoPost demoDbP)))))) = 1"
    by blast
  from u demo_post_user2 have "usr = demoAnn" by simp
  with c have count: "length (filter (hasClientId (user_id demoAnn) (trim (preq_clientId demoPost)))
        (db_profiles (snd (profiles_handlePost (demoPost\<lparr>preq_clientName := ''Client Y''\<rparr>)
                            (snd (profiles_handlePost demoPost demoDbP)))))) = 1"
    by simp
  from T h(3) have eu: "emailsUnique (db_profiles (snd (profiles_handlePost demoPost demoDbP)))"
    by blast
  from T h(4) h(5) h(6)
  have "profiles_handlePost demoPost demoDbP =
        ((200, ProfileBody (profileView
                 (demoProfile\<lparr>cp_clientId := trim (preq_clientId demoPost),
                    cp_clientName := nameOrNull (trim (preq_clientName demoPost))
                                       (cp_clientName demoProfile)\<rparr>))),
         demoDbP\<lparr>db_profiles := map (\<lambda>q. if q = demoProfile
                then q\<lparr>cp_clientId := trim (preq_clientId demoPost),
                       cp_clientName := nameOrNull (trim (preq_clientName demoPost))
                                          (cp_clientName demoProfile)\<rparr>
                else q) (db_profiles demoDbP)\<rparr>)"
    by blast
  then have post: "profiles_handlePost demoPost demoDbP =
        ((200, ProfileBody demoView),
         demoDbP\<lparr>db_profiles := map (\<lambda>q. if q = demoProfile
                then q\<lparr>cp_clientId := trim (preq_clientId demoPost),
                       cp_clientName := nameOrNull (trim (preq_clientName demoPost))
                                          (cp_clientName demoProfile)\<rparr>
                else q) (db_profiles demoDbP)\<rparr>)"
    by (simp only: demo_post_view)
  from h post count eu show ?thesis by blast
qed



text \<open>
  Claim C7. The sign-in code of an email, a secret and a slot is the six-character,
  zero-padded decimal numeral of the first four bytes of the HMAC-SHA256 digest of
  \<open>email|slot|renpay-login-code-v1\<close>, read as a big-endian unsigned integer, modulo
  1,000,000. \<open>verify_login_code\<close> accepts a submitted code exactly when the request passes
  the checks on the email, the secret and the allow-list and the digits of the code are the
  code of the current slot \<open>N\<close> or of slot \<open>N - 1\<close>; so the codes of \<open>N\<close> and \<open>N - 1\<close> are
  accepted, and the code of slot \<open>N - 2\<close> is rejected with \<open>INVALID_SIGNIN_CODE\<close> exactly
  when it differs from both.
\<close>

theorem sign_in_code_six_digits_two_slot_window:
  "computeLoginCode lib email secret slot = padStart6 (showNat (codeNumber_spec lib email secret slot))
   \<and> length (computeLoginCode lib email secret slot) = 6
   \<and> list_all isDigit (computeLoginCode lib email secret slot)
   \<and> readNat (computeLoginCode lib email secret slot) = codeNumber_spec lib email secret slot
   \<and> (verify_login_code lib env now email code = CodeAccepted e \<longleftrightarrow>
        e = toLowerCase (trim email) \<and> signInOpen env email
        \<and> normalizeSignInCode code \<in> {slotCode lib env email (currentSlot env now),
                                         slotCode lib env email (currentSlot env now - 1)})
   \<and> (signInOpen env email \<longrightarrow>
        verify_login_code lib env now email (slotCode lib env email (currentSlot env now))
          = CodeAccepted (toLowerCase (trim email))
        \<and> verify_login_code lib env now email (slotCode lib env email (currentSlot env now - 1))
          = CodeAccepted (toLowerCase (trim email))
        \<and> (verify_login_code lib env now email (slotCode lib env email (currentSlot env now - 2))
             = AuthError 401 ''INVALID_SIGNIN_CODE'' \<longleftrightarrow>
           slotCode lib env email (currentSlot env now - 2)
             \<notin> {slotCode lib env email (currentSlot env now),
                slotCode lib env email (currentSlot env now - 1)}))"
proof -
  have acc: "verify_login_code lib env now email code = CodeAccepted e \<longleftrightarrow>
        e = toLowerCase (trim email) \<and> signInOpen env email
        \<and> normalizeSignInCode code \<in> {slotCode lib env email (currentSlot env now),
                                         slotCode lib env email (currentSlot env now - 1)}"
    unfolding verify_login_code_accepts using slotCode_length [of lib env email] by auto
  have win: "verify_login_code lib env now email (slotCode lib env email (currentSlot env now))
          = CodeAccepted (toLowerCase (trim email))
        \<and> verify_login_code lib env now email (slotCode lib env email (currentSlot env now - 1))
          = CodeAccepted (toLowerCase (trim email))
        \<and> (verify_login_code lib env now email (slotCode lib env email (currentSlot env now - 2))
             = AuthError 401 ''INVALID_SIGNIN_CODE'' \<longleftrightarrow>
           slotCode lib env email (currentSlot env now - 2)
             \<notin> {slotCode lib env email (currentSlot env now),
                slotCode lib env email (currentSlot env now - 1)})"
    if op: "signInOpen env email"
  proof -
    have l: "length (normalizeSignInCode (slotCode lib env email (currentSlot env now - 2))) = 6"
      by (simp add: slotCode_normalized slotCode_length)
    show ?thesis
      using verify_login_code_rejects [OF op l, of lib now] op
      by (simp add: verify_login_code_accepts slotCode_normalized slotCode_length)
  qed
  from computeLoginCode_number [of lib email secret slot]
    computeLoginCode_shape [of lib email secret slot] acc win
  show ?thesis by blast
qed

theorem sign_in_code_six_digits_two_slot_window_witness:
  "computeLoginCode stubNode '' Ann@X.com '' ''s3cret'' 3 = ''003076''
   \<and> codeNumber_spec stubNode '' Ann@X.com '' ''s3cret'' 3 = 3076
   \<and> verify_login_code stubNode stubEnv 1800000 '' Ann@X.com '' ''003076'' = CodeAccepted ''ann@x.com''
   \<and> verify_login_code stubNode stubEnv 1800000 '' Ann@X.com '' ''003075'' = CodeAccepted ''ann@x.com''
   \<and> verify_login_code stubNode stubEnv 1800000 '' Ann@X.com '' ''003074''
       = AuthError 401 ''INVALID_SIGNIN_CODE''"
proof -
  have r: "readNat ''003076'' = 3076" by code_simp
  have c: "computeLoginCode stubNode '' Ann@X.com '' ''s3cret'' 3 = ''003076''"
    using demo_code3 by (simp only: slotCode_def demo_secret)
  have d: "(3 :: int) - 1 = 2" "(3 :: int) - 2 = 1" by simp_all
  have n: "''003074'' \<notin> {''003076'', ''003075''}" by simp
  note T = sign_in_code_six_digits_two_slot_window
    [where lib = stubNode and email = "'' Ann@X.com ''" and secret = "''s3cret''" and slot = 3
       and env = stubEnv and now = 1800000, unfolded demo_slot d demo_code3 demo_code2 demo_code1
       demo_email c]
  from T have k: "readNat ''003076'' = codeNumber_spec stubNode '' Ann@X.com '' ''s3cret'' 3"
    by blast
  from T demo_signInOpen have v:
    "verify_login_code stubNode stubEnv 1800000 '' Ann@X.com '' ''003076'' = CodeAccepted ''ann@x.com''"
    "verify_login_code stubNode stubEnv 1800000 '' Ann@X.com '' ''003075'' = CodeAccepted ''ann@x.com''"
    "(verify_login_code stubNode stubEnv 1800000 '' Ann@X.com '' ''003074''
       = AuthError 401 ''INVALID_SIGNIN_CODE'') = (''003074'' \<notin> {''003076'', ''003075''})"
    by blast+
  from v(3) n have w: "verify_login_code stubNode stubEnv 1800000 '' Ann@X.com '' ''003074''
       = AuthError 401 ''INVALID_SIGNIN_CODE''" by (rule iffD2)
  from c k r v(1) v(2) w show ?thesis by simp
qed


section \<open>Token codec\<close>

text \<open>
  Claim C2. For a payload with a truthy \<open>email\<close> and a numeric \<open>exp\<close> later than now,
  verifying the token that \<open>signMagicToken\<close> makes from it with the same secret returns
  the payload as valid, provided the runtime decodes and parses what it encoded and its
  \<open>base64url\<close> texts hold no dot. Verification returns invalid when the signature part is
  not the recomputed signature (also when the lengths differ, which is tested before the
  comparison, so that \<open>timingSafeEqual\<close> never throws), when \<open>exp\<close> is earlier than now, when
  the token is empty or does not hold exactly one dot, and when the decoded payload does
  not parse or lacks \<open>email\<close> or \<open>exp\<close>; a token found valid carries the recomputed signature of its
  payload part.
\<close>

theorem magic_token_round_trip_and_rejections:
  "(jsonParse lib (bufferFromBase64url lib (bufferToBase64url lib (jsonStringify lib payload)))
      = Some payload
    \<and> CHR ''.'' \<notin> set (bufferToBase64url lib (jsonStringify lib payload))
    \<and> CHR ''.'' \<notin> set (expectedSignature lib secret
                            (bufferToBase64url lib (jsonStringify lib payload)))
    \<and> truthy (field payload ''email'') \<and> field payload ''exp'' = Some (JNum e) \<and> int now < e
    \<longrightarrow> verifyMagicToken lib now (signMagicToken lib payload secret) secret
          = Some (Valid payload))
   \<and> (splitOn CHR ''.'' token = [pp, sp] \<and> sp \<noteq> expectedSignature lib secret pp
      \<longrightarrow> verifyMagicToken lib now token secret = Some (Invalid ''Invalid token signature''))
   \<and> (splitOn CHR ''.'' token = [pp, sp] \<and> sp = expectedSignature lib secret pp
      \<and> jsonParse lib (bufferFromBase64url lib pp) = Some p
      \<and> truthy (field p ''email'') \<and> truthy (field p ''exp'')
      \<and> toNumber lib (field p ''exp'') = Some e' \<and> e' < int now
      \<longrightarrow> verifyMagicToken lib now token secret = Some (Invalid ''Token expired''))
   \<and> (token \<noteq> [] \<and> length (filter (\<lambda>x. x = CHR ''.'') token) \<noteq> 1
      \<longrightarrow> verifyMagicToken lib now token secret = Some (Invalid ''Invalid token format''))
   \<and> (token = [] \<longrightarrow> verifyMagicToken lib now token secret = Some (Invalid ''Missing token''))
   \<and> (splitOn CHR ''.'' token = [pp, sp] \<and> sp = expectedSignature lib secret pp
      \<and> jsonParse lib (bufferFromBase64url lib pp) = None
      \<longrightarrow> verifyMagicToken lib now token secret = Some (Invalid ''Invalid token payload''))
   \<and> (splitOn CHR ''.'' token = [pp, sp] \<and> sp = expectedSignature lib secret pp
      \<and> jsonParse lib (bufferFromBase64url lib pp) = Some p
      \<and> (\<not> truthy (field p ''email'') \<or> \<not> truthy (field p ''exp''))
      \<longrightarrow> verifyMagicToken lib now token secret = Some (Invalid ''Incomplete token payload''))
   \<and> verifyMagicToken lib now token secret \<noteq> None
   \<and> (verifyMagicToken lib now token secret = Some (Valid p)
      \<longrightarrow> (\<exists>pp. token = pp @ ''.'' @ expectedSignature lib secret pp
                \<and> jsonParse lib (bufferFromBase64url lib pp) = Some p))"
proof -
  have round: "verifyMagicToken lib now (signMagicToken lib payload secret) secret
          = Some (Valid payload)"
    if h: "jsonParse lib (bufferFromBase64url lib (bufferToBase64url lib (jsonStringify lib payload)))
      = Some payload"
      "CHR ''.'' \<notin> set (bufferToBase64url lib (jsonStringify lib payload))"
      "CHR ''.'' \<notin> set (expectedSignature lib secret
                            (bufferToBase64url lib (jsonStringify lib payload)))"
      "truthy (field payload ''email'')" "field payload ''exp'' = Some (JNum e)" "int now < e"
  proof -
    from h(5) h(6) have t: "truthy (field payload ''exp'')" by (simp add: truthy_def)
    from h(5) h(6) have x: "\<not> expired lib now payload" by (simp add: expired_def toNumber_def)
    from h(4) t have c: "\<not> incomplete payload" by (simp add: incomplete_iff)
    show ?thesis
      unfolding verify_parts [OF sign_parts [OF h(2) h(3)]] using h(1) c x by simp
  qed
  have sig: "verifyMagicToken lib now token secret = Some (Invalid ''Invalid token signature'')"
    if "splitOn CHR ''.'' token = [pp, sp]" "sp \<noteq> expectedSignature lib secret pp"
    unfolding verify_parts [OF that(1)] using that(2) by simp
  have late: "verifyMagicToken lib now token secret = Some (Invalid ''Token expired'')"
    if "splitOn CHR ''.'' token = [pp, sp]" "sp = expectedSignature lib secret pp"
      "jsonParse lib (bufferFromBase64url lib pp) = Some p"
      "truthy (field p ''email'')" "truthy (field p ''exp'')"
      "toNumber lib (field p ''exp'') = Some e'" "e' < int now"
    unfolding verify_parts [OF that(1)] using that(2-7) by (simp add: incomplete_iff expired_def)
  have bad: "verifyMagicToken lib now token secret = Some (Invalid ''Invalid token payload'')"
    if "splitOn CHR ''.'' token = [pp, sp]" "sp = expectedSignature lib secret pp"
      "jsonParse lib (bufferFromBase64url lib pp) = None"
    unfolding verify_parts [OF that(1)] using that(2-3) by simp
  have part: "verifyMagicToken lib now token secret = Some (Invalid ''Incomplete token payload'')"
    if "splitOn CHR ''.'' token = [pp, sp]" "sp = expectedSignature lib secret pp"
      "jsonParse lib (bufferFromBase64url lib pp) = Some p"
      "\<not> truthy (field p ''email'') \<or> \<not> truthy (field p ''exp'')"
    unfolding verify_parts [OF that(1)] using that(2-4) by (simp add: incomplete_iff)
  have snd: "\<exists>pp. token = pp @ ''.'' @ expectedSignature lib secret pp
                \<and> jsonParse lib (bufferFromBase64url lib pp) = Some p"
    if "verifyMagicToken lib now token secret = Some (Valid p)"
    using verify_valid_parts [OF that] by blast
  show ?thesis
  proof (intro conjI impI)
    assume "jsonParse lib (bufferFromBase64url lib (bufferToBase64url lib (jsonStringify lib payload)))
        = Some payload
      \<and> CHR ''.'' \<notin> set (bufferToBase64url lib (jsonStringify lib payload))
      \<and> CHR ''.'' \<notin> set (expectedSignature lib secret
                            (bufferToBase64url lib (jsonStringify lib payload)))
      \<and> truthy (field payload ''email'') \<and> field payload ''exp'' = Some (JNum e) \<and> int now < e"
    then show "verifyMagicToken lib now (signMagicToken lib payload secret) secret
          = Some (Valid payload)"
      using round by blast
  next
    assume "splitOn CHR ''.'' token = [pp, sp] \<and> sp \<noteq> expectedSignature lib secret pp"
    then show "verifyMagicToken lib now token secret = Some (Invalid ''Invalid token signature'')"
      using sig by blast
  next
    assume "splitOn CHR ''.'' token = [pp, sp] \<and> sp = expectedSignature lib secret pp
      \<and> jsonParse lib (bufferFromBase64url lib pp) = Some p
      \<and> truthy (field p ''email'') \<and> truthy (field p ''exp'')
      \<and> toNumber lib (field p ''exp'') = Some e' \<and> e' < int now"
    then show "verifyMagicToken lib now token secret = Some (Invalid ''Token expired'')"
      using late by blast
  next
    assume "token \<noteq> [] \<and> length (filter (\<lambda>x. x = CHR ''.'') token) \<noteq> 1"
    then show "verifyMagicToken lib now token secret = Some (Invalid ''Invalid token format'')"
      using verify_format by blast
  next
    assume "token = []"
    then show "verifyMagicToken lib now token secret = Some (Invalid ''Missing token'')"
      by (simp add: verifyMagicToken_def)
  next
    assume "splitOn CHR ''.'' token = [pp, sp] \<and> sp = expectedSignature lib secret pp
      \<and> jsonParse lib (bufferFromBase64url lib pp) = None"
    then show "verifyMagicToken lib now token secret = Some (Invalid ''Invalid token payload'')"
      using bad by blast
  next
    assume "splitOn CHR ''.'' token = [pp, sp] \<and> sp = expectedSignature lib secret pp
      \<and> jsonParse lib (bufferFromBase64url lib pp) = Some p
      \<and> (\<not> truthy (field p ''email'') \<or> \<not> truthy (field p ''exp''))"
    then show "verifyMagicToken lib now token secret = Some (Invalid ''Incomplete token payload'')"
      using part by blast
  next
    show "verifyMagicToken lib now token secret \<noteq> None" by (rule verify_total)
  next
    assume "verifyMagicToken lib now token secret = Some (Valid p)"
    then show "\<exists>pp. token = pp @ ''.'' @ expectedSignature lib secret pp
                \<and> jsonParse lib (bufferFromBase64url lib pp) = Some p"
      by (rule snd)
  qed
qed

theorem magic_token_round_trip_and_rejections_witness:
  "signMagicToken stubNode stubPayload ''s3cret'' = ''b64payload-1.1050''
   \<and> verifyMagicToken stubNode 600000 ''b64payload-1.1050'' ''s3cret'' = Some (Valid stubPayload)
   \<and> verifyMagicToken stubNode 600000 ''b64payload-1.1051'' ''s3cret''
       = Some (Invalid ''Invalid token signature'')
   \<and> verifyMagicToken stubNode 700000 ''b64payload-1.1050'' ''s3cret''
       = Some (Invalid ''Token expired'')
   \<and> verifyMagicToken stubNode 600000 ''b64payload-1'' ''s3cret''
       = Some (Invalid ''Invalid token format'')
   \<and> verifyMagicToken stubNode 600000 ''b64other.756'' ''s3cret''
       = Some (Invalid ''Invalid token payload'')
   \<and> verifyMagicToken stubNode 600000 ''b64payload-2.1051'' ''s3cret''
       = Some (Invalid ''Incomplete token payload'')"
proof -
  note T = magic_token_round_trip_and_rejections [where lib = stubNode and secret = "''s3cret''"]
  have "verifyMagicToken stubNode 600000 (signMagicToken stubNode stubPayload ''s3cret'') ''s3cret''
      = Some (Valid stubPayload)"
    by (rule T [where payload = stubPayload and e = 601000 and now = 600000,
          THEN conjunct1, THEN mp])
       (simp add: demo_encode demo_parse1 demo_sig1 demo_fields demo_exp)
  then have v1: "verifyMagicToken stubNode 600000 ''b64payload-1.1050'' ''s3cret''
      = Some (Valid stubPayload)"
    by (simp only: demo_token)
  have v2: "verifyMagicToken stubNode 600000 ''b64payload-1.1051'' ''s3cret''
       = Some (Invalid ''Invalid token signature'')"
    by (rule T [where token = "''b64payload-1.1051''" and pp = "''b64payload-1''"
          and sp = "''1051''" and now = 600000,
          THEN conjunct2, THEN conjunct1, THEN mp])
       (simp add: demo_splits demo_sig1)
  have v3: "verifyMagicToken stubNode 700000 ''b64payload-1.1050'' ''s3cret''
       = Some (Invalid ''Token expired'')"
    by (rule T [where token = "''b64payload-1.1050''" and pp = "''b64payload-1''"
          and sp = "''1050''" and now = 700000 and p = stubPayload and e' = 601000,
          THEN conjunct2, THEN conjunct2, THEN conjunct1, THEN mp])
       (simp add: demo_splits demo_sig1 demo_parse1 demo_fields)
  have v4: "verifyMagicToken stubNode 600000 ''b64payload-1'' ''s3cret''
       = Some (Invalid ''Invalid token format'')"
    by (rule T [where token = "''b64payload-1''" and now = 600000,
          THEN conjunct2, THEN conjunct2, THEN conjunct2, THEN conjunct1, THEN mp])
       simp
  have v5: "verifyMagicToken stubNode 600000 ''b64other.756'' ''s3cret''
       = Some (Invalid ''Invalid token payload'')"
    by (rule T [where token = "''b64other.756''" and pp = "''b64other''"
          and sp = "''756''" and now = 600000,
          THEN conjunct2, THEN conjunct2, THEN conjunct2, THEN conjunct2, THEN conjunct2,
          THEN conjunct1, THEN mp])
       (simp add: demo_splits demo_sig3 demo_parse3)
  have v6: "verifyMagicToken stubNode 600000 ''b64payload-2.1051'' ''s3cret''
       = Some (Invalid ''Incomplete token payload'')"
    by (rule T [where token = "''b64payload-2.1051''" and pp = "''b64payload-2''"
          and sp = "''1051''" and now = 600000 and p = "JObject [(''exp'', JNum 601000)]",
          THEN conjunct2, THEN conjunct2, THEN conjunct2, THEN conjunct2, THEN conjunct2,
          THEN conjunct2, THEN conjunct1, THEN mp])
       (simp add: demo_splits demo_sig2 demo_parse2 demo_fields)
  from demo_token v1 v2 v3 v4 v5 v6 show ?thesis by blast
qed

end
